(* ===== verification/Ubr_Prelude.thy ===== *)
theory Ubr_Prelude
  imports Main "HOL-Library.Word"
begin

text \<open>
  What every component of the development shares: the names of the machine integers, the
  error numbers, the faults of kernel code (a sum type's left side) with the sequencing
  operator \<open>andthen\<close>, and the hint collections
  \<^item> \<open>res_simps\<close>: inversion of \<open>andthen\<close> and of the sum type's constructors;
  \<^item> \<open>vec_simps\<close>: the bit-level reading of the port vector operations;
  \<^item> \<open>frame_simps\<close>: which parts of a state an operation leaves alone.
\<close>

section \<open>Machine integers and names\<close>

type_synonym u8 = "8 word"
type_synonym u16 = "16 word"
type_synonym u32 = "32 word"
type_synonym u64 = "64 word"
type_synonym u128 = "128 word"

text \<open>
  An Ethernet address is the 48-bit number whose most significant byte is the first byte on
  the wire. A network device is named by its interface index, which identifies the
  \<open>struct net_device *\<close> of the code; an object on the kernel heap by its address.
\<close>

type_synonym mac = "48 word"
type_synonym netdev = u32
type_synonym addr = nat

section \<open>Error numbers\<close>

abbreviation (input) EPERM :: int where "EPERM \<equiv> 1"
abbreviation (input) ENOENT :: int where "ENOENT \<equiv> 2"
abbreviation (input) ENOMEM :: int where "ENOMEM \<equiv> 12"
abbreviation (input) EBUSY :: int where "EBUSY \<equiv> 16"
abbreviation (input) ENODEV :: int where "ENODEV \<equiv> 19"
abbreviation (input) EINVAL :: int where "EINVAL \<equiv> 22"
abbreviation (input) EOPNOTSUPP :: int where "EOPNOTSUPP \<equiv> 95"

section \<open>Faults and sequencing\<close>

text \<open>
  What the code does beyond returning a value: a NULL pointer dereferenced, freed memory
  touched, an object freed twice, a pointer computed from the wrong slot. Such a run is the
  value \<open>Inl f\<close>; there is no state after it.
\<close>

datatype fault = NullDeref | UseAfterFree | DoubleFree | WildPointer

type_synonym 'a res = "fault + 'a"

fun andthen :: "'a res \<Rightarrow> ('a \<Rightarrow> 'b res) \<Rightarrow> 'b res" where
  "andthen (Inl e) f = Inl e"
| "andthen (Inr x) f = f x"

text \<open>Dereferencing a pointer that may be NULL.\<close>

definition nonnull :: "'a option \<Rightarrow> 'a res" where
  "nonnull p = (case p of None \<Rightarrow> Inl NullDeref | Some x \<Rightarrow> Inr x)"

definition no_fault :: "'a res \<Rightarrow> bool" where
  "no_fault r = (case r of Inl _ \<Rightarrow> False | Inr _ \<Rightarrow> True)"

text \<open>A loop whose body may fault: it stops at the first fault.\<close>

fun foldres :: "('a \<Rightarrow> 's \<Rightarrow> 's res) \<Rightarrow> 'a list \<Rightarrow> 's \<Rightarrow> 's res" where
  "foldres f [] s = Inr s"
| "foldres f (x # xs) s = andthen (f x s) (foldres f xs)"

text \<open>A search through \<open>0 .. n - 1\<close>.\<close>

definition search :: "(nat \<Rightarrow> bool) \<Rightarrow> nat \<Rightarrow> nat" where
  "search P n = (case List.find P [0..<n] of None \<Rightarrow> n | Some i \<Rightarrow> i)"

named_theorems res_simps
named_theorems vec_simps
named_theorems frame_simps

section \<open>Lemmas on results\<close>

lemma andthen_cong [fundef_cong]:
  "m = m' \<Longrightarrow> (\<And>x. m' = Inr x \<Longrightarrow> f x = g x) \<Longrightarrow> andthen m f = andthen m' g"
  by (cases m') auto

lemma andthen_Inr_iff [res_simps]:
  "andthen m f = Inr y \<longleftrightarrow> (\<exists>x. m = Inr x \<and> f x = Inr y)"
  by (cases m) auto

lemma andthen_Inl_iff [res_simps]:
  "andthen m f = Inl e \<longleftrightarrow> m = Inl e \<or> (\<exists>x. m = Inr x \<and> f x = Inl e)"
  by (cases m) auto

lemma andthen_return [simp]: "andthen m Inr = m"
  by (cases m) auto

lemma andthen_assoc: "andthen (andthen m f) g = andthen m (\<lambda>x. andthen (f x) g)"
  by (cases m) auto

lemma andthen_if: "andthen (if b then x else y) f = (if b then andthen x f else andthen y f)"
  by simp

lemma nonnull_simps [simp]: "nonnull None = Inl NullDeref" "nonnull (Some x) = Inr x"
  by (simp_all add: nonnull_def)

lemma nonnull_Inr_iff [res_simps]: "nonnull p = Inr x \<longleftrightarrow> p = Some x"
  by (cases p) auto

lemma no_fault_simps [simp]: "\<not> no_fault (Inl e)" "no_fault (Inr x)"
  by (simp_all add: no_fault_def)

lemma no_fault_iff: "no_fault r \<longleftrightarrow> (\<exists>x. r = Inr x)"
  by (cases r) auto

lemma no_fault_andthen [res_simps]:
  "no_fault (andthen m f) \<longleftrightarrow> (\<exists>x. m = Inr x \<and> no_fault (f x))"
  by (cases m) auto

lemma foldres_append: "foldres f (xs @ ys) s = andthen (foldres f xs s) (foldres f ys)"
proof (induction xs arbitrary: s)
  case Nil
  show ?case by simp
next
  case (Cons x xs)
  then show ?case by (cases "f x s") auto
qed

text \<open>An invariant that the body keeps holds after the loop, and the loop runs to its end.\<close>

lemma foldres_invariant:
  assumes "P s" and "\<And>x t. x \<in> set xs \<Longrightarrow> P t \<Longrightarrow> \<exists>t'. f x t = Inr t' \<and> P t'"
  shows "\<exists>s'. foldres f xs s = Inr s' \<and> P s'"
  using assms
proof (induction xs arbitrary: s)
  case Nil
  then show ?case by simp
next
  case (Cons x xs)
  then obtain t where "f x s = Inr t" "P t"
    by (meson list.set_intros(1))
  with Cons.IH [of t] Cons.prems(2) show ?case by simp
qed

lemma foldres_preserves:
  assumes "foldres f xs s = Inr s'" "P s"
    and "\<And>x t t'. x \<in> set xs \<Longrightarrow> f x t = Inr t' \<Longrightarrow> P t \<Longrightarrow> P t'"
  shows "P s'"
  using assms
proof (induction xs arbitrary: s)
  case Nil
  then show ?case by simp
next
  case (Cons x xs)
  from Cons.prems(1) obtain t where "f x s = Inr t" "foldres f xs t = Inr s'"
    by (auto simp: res_simps)
  with Cons.IH [of t] Cons.prems(2,3) show ?case
    by (meson list.set_intros)
qed

text \<open>
  The first number below \<open>n\<close> with a property, or \<open>n\<close>: how the kernel's bitmap searches
  report their result.
\<close>

lemma search_le: "search P n \<le> n"
  by (auto simp: search_def find_Some_iff split: option.splits)

lemma search_found:
  assumes "search P n < n" shows "P (search P n)"
proof (cases "List.find P [0..<n]")
  case None
  with assms show ?thesis by (simp add: search_def)
next
  case (Some i)
  then have "search P n = i" by (simp add: search_def)
  with Some show ?thesis by (simp add: find_Some_iff) blast
qed

lemma search_before: "j < search P n \<Longrightarrow> \<not> P j"
  by (auto simp: search_def find_Some_iff find_None_iff split: option.splits)

lemma search_none: "search P n = n \<longleftrightarrow> (\<forall>i<n. \<not> P i)"
  using search_found [of P n] search_before [of _ P n] search_le [of P n]
  by (metis le_neq_implies_less)

lemma search_eqI: "i < n \<Longrightarrow> P i \<Longrightarrow> (\<And>j. j < i \<Longrightarrow> \<not> P j) \<Longrightarrow> search P n = i"
  by (metis linorder_neqE_nat search_before search_found search_le order.strict_trans
      order.strict_iff_order)

text \<open>What no iteration changes is as it was after the loop.\<close>

lemma fold_frame: "(\<And>x s. P (f x s) = P s) \<Longrightarrow> P (fold f xs s) = P s"
  by (induction xs arbitrary: s) auto

section \<open>Runs of a system\<close>

text \<open>
  A run is the list of its events. Which events are admitted in a state is a second
  argument, so that one step relation serves for theorems on different environments.
\<close>

inductive runs :: "('s \<Rightarrow> 'e \<Rightarrow> 's \<Rightarrow> bool) \<Rightarrow> ('s \<Rightarrow> 'e \<Rightarrow> bool) \<Rightarrow> 's \<Rightarrow> 'e list \<Rightarrow> 's \<Rightarrow> bool"
  for step admitted where
  runs_nil: "runs step admitted s [] s"
| runs_cons: "admitted s e \<Longrightarrow> step s e s' \<Longrightarrow> runs step admitted s' es s'' \<Longrightarrow>
    runs step admitted s (e # es) s''"

inductive_simps runs_nil_simp [simp]: "runs step admitted s [] s'"
inductive_simps runs_cons_simp: "runs step admitted s (e # es) s'"
inductive_cases runs_consE: "runs step admitted s (e # es) s'"

lemma runs_append:
  "runs step admitted s (es @ fs) s'' \<longleftrightarrow>
     (\<exists>s'. runs step admitted s es s' \<and> runs step admitted s' fs s'')"
  by (induction es arbitrary: s) (auto simp: runs_cons_simp)

lemma runs_snoc:
  "runs step admitted s es s' \<Longrightarrow> admitted s' e \<Longrightarrow> step s' e s'' \<Longrightarrow>
     runs step admitted s (es @ [e]) s''"
  by (auto simp: runs_append intro: runs.intros)

locale guarded_system =
  fixes step :: "'s \<Rightarrow> 'e \<Rightarrow> 's \<Rightarrow> bool"
    and admitted :: "'s \<Rightarrow> 'e \<Rightarrow> bool"
    and inv :: "'s \<Rightarrow> bool"
  assumes step_inv: "inv s \<Longrightarrow> admitted s e \<Longrightarrow> step s e s' \<Longrightarrow> inv s'"
begin

lemma run_inv: "runs step admitted s es s' \<Longrightarrow> inv s \<Longrightarrow> inv s'"
  by (induction rule: runs.induct) (auto intro: step_inv)

text \<open>It holds at every point of the run, not only at its end.\<close>

lemma run_inv_between:
  "runs step admitted s (es @ fs) s'' \<Longrightarrow> inv s \<Longrightarrow>
     \<exists>s'. runs step admitted s es s' \<and> inv s' \<and> runs step admitted s' fs s''"
  unfolding runs_append using run_inv by blast

end

text \<open>
  A system and the specification it implements: a step that is admitted in a state of the
  invariant is one of the specification, on the abstraction of the states.
\<close>

locale refinement_map = guarded_system step admitted inv
  for step :: "'s \<Rightarrow> 'e \<Rightarrow> 's \<Rightarrow> bool" and admitted :: "'s \<Rightarrow> 'e \<Rightarrow> bool" and inv :: "'s \<Rightarrow> bool" +
  fixes spec :: "'a \<Rightarrow> 'e \<Rightarrow> 'a \<Rightarrow> bool"
    and abstraction :: "'s \<Rightarrow> 'a"
  assumes simulates: "inv s \<Longrightarrow> admitted s e \<Longrightarrow> step s e s' \<Longrightarrow> spec (abstraction s) e (abstraction s')"
begin

lemma run_simulates:
  "runs step admitted s es s' \<Longrightarrow> inv s \<Longrightarrow> runs spec (\<lambda>_ _. True) (abstraction s) es (abstraction s')"
  by (induction rule: runs.induct) (auto intro: runs.intros simulates step_inv)

text \<open>What the specification keeps holds of the abstraction of every state a run comes to.\<close>

lemma run_spec_inv:
  assumes "runs step admitted s es s'" "inv s"
    and "P (abstraction s)" "\<And>a e a'. P a \<Longrightarrow> spec a e a' \<Longrightarrow> P a'"
  shows "P (abstraction s')"
  using assms(1-3) by (induction rule: runs.induct) (use assms(4) simulates step_inv in blast)+

end

end
