(* ===== verification/Ubr_Vec.thy ===== *)
theory Ubr_Vec
  imports Ubr_Prelude
begin

unbundle bit_operations_syntax

text \<open>
  Port vectors (\<^verbatim>\<open>struct ubr_vec\<close> of kernel/ubr-private.h): a bitmap with one bit per
  port, \<open>UBR_MAX_PORTS\<close> of them, and the macros over it. The interface \<open>port_set\<close> states
  what the rest of the bridge relies on; it is interpreted on the bitmap as \<open>pv\<close>.
\<close>

section \<open>The bitmap and its operations\<close>

definition UBR_MAX_PORTS_SHIFT :: nat where "UBR_MAX_PORTS_SHIFT = 8"
definition UBR_MAX_PORTS :: nat where "UBR_MAX_PORTS = 2 ^ UBR_MAX_PORTS_SHIFT"

type_synonym ubr_vec = "256 word"

definition ubr_vec_and :: "ubr_vec \<Rightarrow> ubr_vec \<Rightarrow> ubr_vec" where
  "ubr_vec_and vd vs = vd AND vs"

definition ubr_vec_or :: "ubr_vec \<Rightarrow> ubr_vec \<Rightarrow> ubr_vec" where
  "ubr_vec_or vd vs = vd OR vs"

definition ubr_vec_zero :: ubr_vec where
  "ubr_vec_zero = 0"

definition ubr_vec_fill :: ubr_vec where
  "ubr_vec_fill = mask UBR_MAX_PORTS"

definition ubr_vec_set :: "nat \<Rightarrow> ubr_vec \<Rightarrow> ubr_vec" where
  "ubr_vec_set i v = set_bit i v"

definition ubr_vec_clear :: "nat \<Rightarrow> ubr_vec \<Rightarrow> ubr_vec" where
  "ubr_vec_clear i v = unset_bit i v"

definition ubr_vec_test :: "ubr_vec \<Rightarrow> nat \<Rightarrow> bool" where
  "ubr_vec_test v i = bit v i"

text \<open>
  \<^verbatim>\<open>for_each_set_bit\<close> visits the set bits in ascending order. \<open>vec_bits_from\<close> is
  \<^verbatim>\<open>for_each_set_bit_from\<close>, which starts at a given bit.
\<close>

definition vec_bits_from :: "nat \<Rightarrow> ubr_vec \<Rightarrow> nat list" where
  "vec_bits_from i v = filter (ubr_vec_test v) [i..<UBR_MAX_PORTS]"

definition ubr_vec_foreach :: "ubr_vec \<Rightarrow> nat list" where
  "ubr_vec_foreach v = vec_bits_from 0 v"

text \<open>The searches return \<open>UBR_MAX_PORTS\<close> when there is no such bit.\<close>

definition find_first_bit :: "ubr_vec \<Rightarrow> nat" where
  "find_first_bit v = search (ubr_vec_test v) UBR_MAX_PORTS"

definition find_first_zero_bit :: "ubr_vec \<Rightarrow> nat" where
  "find_first_zero_bit v = search (\<lambda>i. \<not> ubr_vec_test v i) UBR_MAX_PORTS"

text \<open>The ports of a vector as a set: the abstraction the other theories reason with.\<close>

definition vec_ports :: "ubr_vec \<Rightarrow> nat set" where
  "vec_ports v = {i. ubr_vec_test v i}"

section \<open>The interface: a set of ports\<close>

locale port_set =
  fixes test :: "'v \<Rightarrow> nat \<Rightarrow> bool"
    and setb :: "nat \<Rightarrow> 'v \<Rightarrow> 'v"
    and clearb :: "nat \<Rightarrow> 'v \<Rightarrow> 'v"
    and meet :: "'v \<Rightarrow> 'v \<Rightarrow> 'v"
    and none :: 'v
    and full :: 'v
    and cap :: nat
  assumes test_none: "\<not> test none i"
    and test_full: "test full i \<longleftrightarrow> i < cap"
    and test_setb: "test (setb i v) j \<longleftrightarrow> (i = j \<and> i < cap) \<or> test v j"
    and test_clearb: "test (clearb i v) j \<longleftrightarrow> i \<noteq> j \<and> test v j"
    and test_meet: "test (meet v w) j \<longleftrightarrow> test v j \<and> test w j"
    and test_cap: "test v i \<Longrightarrow> i < cap"
    and test_ext: "(\<And>i. test v i = test w i) \<Longrightarrow> v = w"
begin

text \<open>The mask a port starts with: everything but itself.\<close>

lemma all_but: "test (clearb i full) j \<longleftrightarrow> j < cap \<and> j \<noteq> i"
  by (auto simp: test_clearb test_full)

text \<open>Narrowing by a mask never adds a port, so what a mask lacks stays out.\<close>

lemma meet_lower: "test (meet v w) j \<Longrightarrow> test v j" "test (meet v w) j \<Longrightarrow> test w j"
  by (auto simp: test_meet)

lemma meet_chain: "test (meet (meet v w) u) j \<longleftrightarrow> test v j \<and> test w j \<and> test u j"
  by (auto simp: test_meet)

lemma meet_full: "meet v full = v"
  by (rule test_ext) (auto simp: test_meet test_full dest: test_cap)

lemma meet_none: "meet v none = none"
  by (rule test_ext) (auto simp: test_meet test_none)

text \<open>The vector of a station: one port only, replaced when the station moves.\<close>

lemma singleton: "i < cap \<Longrightarrow> test (setb i none) j \<longleftrightarrow> j = i"
  by (auto simp: test_setb test_none)

lemma set_then_clear: "\<not> test v i \<Longrightarrow> clearb i (setb i v) = v"
  by (rule test_ext) (auto simp: test_setb test_clearb)

lemma clear_absent: "\<not> test v i \<Longrightarrow> clearb i v = v"
  by (rule test_ext) (auto simp: test_clearb)

lemma clear_then_set: "test v i \<Longrightarrow> setb i (clearb i v) = v"
  by (rule test_ext) (auto simp: test_setb test_clearb dest: test_cap)

end

section \<open>The bitmap provides it\<close>

lemma UBR_MAX_PORTS_256: "UBR_MAX_PORTS = 256"
  by (simp add: UBR_MAX_PORTS_def UBR_MAX_PORTS_SHIFT_def)

lemma test_bound: "ubr_vec_test v i \<Longrightarrow> i < 256"
  by (drule bit_imp_le_length [of v i, unfolded ubr_vec_test_def [symmetric]]) simp

lemma test_zero [simp, vec_simps]: "\<not> ubr_vec_test ubr_vec_zero i"
  by (simp add: ubr_vec_test_def ubr_vec_zero_def)

lemma test_zero_word [simp]: "\<not> ubr_vec_test 0 i"
  by (simp add: ubr_vec_test_def)

lemma test_fill [vec_simps]: "ubr_vec_test ubr_vec_fill i \<longleftrightarrow> i < 256"
  by (simp add: ubr_vec_test_def ubr_vec_fill_def UBR_MAX_PORTS_256 bit_mask_iff
      possible_bit_word)

lemma test_set [vec_simps]:
  "ubr_vec_test (ubr_vec_set i v) j \<longleftrightarrow> (i = j \<and> i < 256) \<or> ubr_vec_test v j"
  by (auto simp: ubr_vec_test_def ubr_vec_set_def bit_set_bit_iff possible_bit_word)

lemma test_clear [vec_simps]:
  "ubr_vec_test (ubr_vec_clear i v) j \<longleftrightarrow> i \<noteq> j \<and> ubr_vec_test v j"
  by (auto simp: ubr_vec_test_def ubr_vec_clear_def bit_unset_bit_iff)

lemma test_and [vec_simps]:
  "ubr_vec_test (ubr_vec_and v w) j \<longleftrightarrow> ubr_vec_test v j \<and> ubr_vec_test w j"
  by (simp add: ubr_vec_test_def ubr_vec_and_def bit_and_iff)

lemma test_or [vec_simps]:
  "ubr_vec_test (ubr_vec_or v w) j \<longleftrightarrow> ubr_vec_test v j \<or> ubr_vec_test w j"
  by (simp add: ubr_vec_test_def ubr_vec_or_def bit_or_iff)

lemma vec_eqI: "(\<And>i. ubr_vec_test v i = ubr_vec_test w i) \<Longrightarrow> v = w"
  by (rule bit_word_eqI) (simp add: ubr_vec_test_def)

interpretation pv: port_set ubr_vec_test ubr_vec_set ubr_vec_clear ubr_vec_and
    ubr_vec_zero ubr_vec_fill UBR_MAX_PORTS
  by unfold_locales
    (auto simp: vec_simps UBR_MAX_PORTS_256 dest: test_bound intro: vec_eqI)

section \<open>Iteration and search\<close>

lemma set_vec_bits_from: "set (vec_bits_from i v) = {j. i \<le> j \<and> ubr_vec_test v j}"
  by (auto simp: vec_bits_from_def UBR_MAX_PORTS_256 dest: test_bound)

lemma set_foreach [simp]: "set (ubr_vec_foreach v) = {j. ubr_vec_test v j}"
  by (simp add: ubr_vec_foreach_def set_vec_bits_from)

lemma distinct_vec_bits_from [simp]: "distinct (vec_bits_from i v)"
  by (simp add: vec_bits_from_def)

lemma distinct_foreach [simp]: "distinct (ubr_vec_foreach v)"
  by (simp add: ubr_vec_foreach_def)

lemma sorted_foreach: "sorted (ubr_vec_foreach v)"
  by (simp add: ubr_vec_foreach_def vec_bits_from_def sorted_wrt_filter)

lemma find_first_bit_found:
  "find_first_bit v < UBR_MAX_PORTS \<Longrightarrow> ubr_vec_test v (find_first_bit v)"
  unfolding find_first_bit_def by (rule search_found)

lemma find_first_bit_before: "j < find_first_bit v \<Longrightarrow> \<not> ubr_vec_test v j"
  unfolding find_first_bit_def by (rule search_before)

lemma find_first_bit_none:
  "find_first_bit v = UBR_MAX_PORTS \<longleftrightarrow> (\<forall>i. \<not> ubr_vec_test v i)"
  unfolding find_first_bit_def search_none
  by (auto simp: UBR_MAX_PORTS_256 dest: test_bound)

lemma find_first_bit_le: "find_first_bit v \<le> UBR_MAX_PORTS"
  unfolding find_first_bit_def by (rule search_le)

lemma find_first_zero_bit_found:
  "find_first_zero_bit v < UBR_MAX_PORTS \<Longrightarrow> \<not> ubr_vec_test v (find_first_zero_bit v)"
  unfolding find_first_zero_bit_def by (rule search_found)

lemma find_first_zero_bit_before: "j < find_first_zero_bit v \<Longrightarrow> ubr_vec_test v j"
  unfolding find_first_zero_bit_def using search_before by blast

lemma find_first_zero_bit_none:
  "find_first_zero_bit v = UBR_MAX_PORTS \<longleftrightarrow> (\<forall>i<256. ubr_vec_test v i)"
  unfolding find_first_zero_bit_def search_none by (simp add: UBR_MAX_PORTS_256)

lemma find_first_zero_bit_le: "find_first_zero_bit v \<le> UBR_MAX_PORTS"
  unfolding find_first_zero_bit_def by (rule search_le)

text \<open>The first set bit followed by the set bits after it are all the set bits.\<close>

lemma foreach_split_first:
  assumes "find_first_bit v < UBR_MAX_PORTS"
  shows "ubr_vec_foreach v = find_first_bit v # vec_bits_from (Suc (find_first_bit v)) v"
proof -
  let ?i = "find_first_bit v"
  note t = find_first_bit_found [OF assms]
  have "[0..<UBR_MAX_PORTS] = [0..<?i] @ ?i # [Suc ?i..<UBR_MAX_PORTS]"
    using assms upt_add_eq_append [of 0 ?i "UBR_MAX_PORTS - ?i"]
    by (simp add: upt_conv_Cons)
  moreover have "filter (ubr_vec_test v) [0..<?i] = []"
    by (simp add: filter_empty_conv find_first_bit_before)
  ultimately show ?thesis
    using t by (simp add: ubr_vec_foreach_def vec_bits_from_def)
qed

end
