(* ===== verification/Ubr_Types.thy ===== *)
theory Ubr_Types
  imports Ubr_Vec
begin

unbundle bit_operations_syntax

text \<open>
  The data of the kernel module (kernel/ubr-private.h): the control buffer of a frame, the
  VLAN, FDB, port and bridge structures, and what the module uses of a socket buffer.
  Everything the Linux kernel provides and the repository does not contain is a field of the
  record \<open>kernel\<close> (fixed for a machine) or of \<open>frame_env\<close> (what the kernel answers while
  one frame is processed); both are arguments of the definitions that use them.
\<close>

section \<open>Control buffer\<close>

text \<open>\<open>cb_vlan\<close> is a pointer into the bridge's VLAN heap, \<open>None\<close> for NULL.\<close>

record ubr_cb =
  cb_pidx :: u8
  cb_vlan_filtering :: bool
  cb_sa_filterning :: bool
  cb_sa_learning :: bool
  cb_ctrl :: bool
  cb_vlan :: "addr option"
  cb_vec :: ubr_vec

definition zero_cb :: ubr_cb where
  "zero_cb = \<lparr>cb_pidx = 0, cb_vlan_filtering = False, cb_sa_filterning = False,
     cb_sa_learning = False, cb_ctrl = False, cb_vlan = None, cb_vec = 0\<rparr>"

section \<open>Socket buffers\<close>

text \<open>
  The part of \<^verbatim>\<open>struct sk_buff\<close> the module reads or writes. Positions are relative to the
  MAC header: \<open>skb_data\<close> is where \<^verbatim>\<open>skb->data\<close> points. \<open>skb_protocol\<close> and
  \<open>skb_vlan_proto\<close> hold the 16 bits as the CPU loads them (network order in memory).
\<close>

datatype pkt_type = PACKET_HOST | PACKET_BROADCAST | PACKET_MULTICAST | PACKET_OTHERHOST

record sk_buff =
  skb_dev :: "netdev option"
  skb_protocol :: u16
  skb_vlan_tag_present :: bool
  skb_vlan_proto :: u16
  skb_vlan_tci :: u16
  skb_h_dest :: mac
  skb_h_source :: mac
  skb_ip_daddr :: u32
  skb_ip6_daddr :: u128
  skb_pkt_type :: pkt_type
  skb_data :: int
  skb_mac_len :: int
  skb_network_header :: int
  skb_payload :: "u8 list"
  skb_cb :: ubr_cb

definition ETH_HLEN :: int where "ETH_HLEN = 14"
definition VLAN_VID_MASK :: u16 where "VLAN_VID_MASK = 0x0fff"
definition ETH_P_IP :: u16 where "ETH_P_IP = 0x0800"
definition ETH_P_IPV6 :: u16 where "ETH_P_IPV6 = 0x86DD"
definition ETH_P_8021Q :: u16 where "ETH_P_8021Q = 0x8100"

definition skb_vlan_tag_get_id :: "sk_buff \<Rightarrow> u16" where
  "skb_vlan_tag_get_id s = skb_vlan_tci s AND VLAN_VID_MASK"

definition vlan_hwaccel_put_tag :: "sk_buff \<Rightarrow> u16 \<Rightarrow> u16 \<Rightarrow> sk_buff" where
  "vlan_hwaccel_put_tag s proto tci =
     s\<lparr>skb_vlan_tag_present := True, skb_vlan_proto := proto, skb_vlan_tci := tci\<rparr>"

definition vlan_hwaccel_clear_tag :: "sk_buff \<Rightarrow> sk_buff" where
  "vlan_hwaccel_clear_tag s = s\<lparr>skb_vlan_tag_present := False\<rparr>"

definition skb_push :: "sk_buff \<Rightarrow> int \<Rightarrow> sk_buff" where
  "skb_push s n = s\<lparr>skb_data := skb_data s - n\<rparr>"

definition skb_pull :: "sk_buff \<Rightarrow> int \<Rightarrow> sk_buff" where
  "skb_pull s n = s\<lparr>skb_data := skb_data s + n\<rparr>"

definition skb_reset_mac_len :: "sk_buff \<Rightarrow> sk_buff" where
  "skb_reset_mac_len s = s\<lparr>skb_mac_len := skb_network_header s\<rparr>"

definition skb_set_network_header :: "sk_buff \<Rightarrow> int \<Rightarrow> sk_buff" where
  "skb_set_network_header s off = s\<lparr>skb_network_header := skb_data s + off\<rparr>"

text \<open>Ethernet addresses: the group bit is the low bit of the first byte.\<close>

definition is_multicast_ether_addr :: "mac \<Rightarrow> bool" where
  "is_multicast_ether_addr a = bit a 40"

definition is_broadcast_ether_addr :: "mac \<Rightarrow> bool" where
  "is_broadcast_ether_addr a = (a = 0xFFFFFFFFFFFF)"

definition is_valid_ether_addr :: "mac \<Rightarrow> bool" where
  "is_valid_ether_addr a = (\<not> is_multicast_ether_addr a \<and> a \<noteq> 0)"

section \<open>Kernel services that are parameters\<close>

text \<open>
  \<^verbatim>\<open>skb_vlan_untag\<close> returns the buffer it was given with the tag moved to the offload
  fields, a different buffer (it unshares a shared one and drops the caller's), or NULL after
  freeing it.
\<close>

datatype skb_result = SkbSame sk_buff | SkbNew sk_buff | SkbGone

record kernel =
  k_big_endian :: bool
  k_config_ipv6 :: bool
  k_hash_min :: "u16 \<Rightarrow> nat"
  k_msecs_to_jiffies :: "u32 \<Rightarrow> u64"
  k_skb_vlan_untag :: "sk_buff \<Rightarrow> skb_result"
  k_vlan_insert_tag_set_proto :: "sk_buff \<Rightarrow> u16 \<Rightarrow> u16 \<Rightarrow> sk_buff option"
  k_skb_vlan_push :: "sk_buff \<Rightarrow> u16 \<Rightarrow> u16 \<Rightarrow> sk_buff"
  k_vlan_get_protocol :: "sk_buff \<Rightarrow> u16 \<Rightarrow> u16 \<times> int"

text \<open>
  Per frame: the clock, whether the FDB's slab allocation succeeds, the result of the hash
  table insertion, for which egress port cloning the frame succeeds, and the Ethernet
  address of the bridge's own device.
\<close>

record frame_env =
  fe_jiffies :: u64
  fe_node_alloc :: bool
  fe_insert_err :: int
  fe_clone :: "nat \<Rightarrow> bool"
  fe_dev_addr :: mac

text \<open>
  What the module relies on of the tag helpers: they change the tag, the protocol and the
  payload of a buffer and leave its control buffer, its addresses and its device alone.
\<close>

definition keeps_frame :: "sk_buff \<Rightarrow> sk_buff \<Rightarrow> bool" where
  "keeps_frame s s' \<longleftrightarrow>
     skb_cb s' = skb_cb s \<and> skb_dev s' = skb_dev s \<and>
     skb_h_dest s' = skb_h_dest s \<and> skb_h_source s' = skb_h_source s"

definition helpers_ok :: "kernel \<Rightarrow> bool" where
  "helpers_ok K \<longleftrightarrow>
     (\<forall>s s'. k_skb_vlan_untag K s = SkbSame s' \<longrightarrow> keeps_frame s s') \<and>
     (\<forall>s p t s'. k_vlan_insert_tag_set_proto K s p t = Some s' \<longrightarrow> keeps_frame s s') \<and>
     (\<forall>s p t. keeps_frame s (k_skb_vlan_push K s p t))"

definition htons :: "kernel \<Rightarrow> u16 \<Rightarrow> u16" where
  "htons K x = (if k_big_endian K then x else push_bit 8 x OR drop_bit 8 x)"

section \<open>Forwarding database\<close>

text \<open>
  \<^verbatim>\<open>struct ubr_fdb_addr\<close>: the address type selects the union's member, so the pair of
  them is a datatype with the source's enumeration constants as constructors. The hash table
  compares whole keys.
\<close>

datatype ubr_addr = UBR_ADDR_MAC mac | UBR_ADDR_IP4 u32 | UBR_ADDR_IP6 u128

record ubr_fdb_addr =
  a_addr :: ubr_addr
  a_vid :: u16

datatype ubr_fdb_proto = UBR_FDB_DYNAMIC | UBR_FDB_EXTERNAL | UBR_FDB_USER

record ubr_fdb_node =
  n_addr :: ubr_fdb_addr
  n_vec :: ubr_vec
  n_proto :: ubr_fdb_proto
  n_offloaded :: bool
  n_tstamp :: u64

text \<open>\<open>f_age_work\<close> is when the ageing work runs next, \<open>None\<close> when it is not queued.\<close>

record ubr_fdb =
  f_nodes :: "ubr_fdb_addr \<Rightarrow> ubr_fdb_node option"
  f_ageing_timeout :: u64
  f_age_work :: "u64 option"

record ubr_fdb_flush_op =
  op_per_port :: bool
  op_pidx :: u8
  op_per_vlan :: bool
  op_vid :: u16
  op_per_proto :: bool
  op_proto :: ubr_fdb_proto
  op_old :: bool

section \<open>VLANs, ports, the bridge\<close>

record ubr_vlan =
  vl_ubr :: netdev
  vl_vid :: u16
  vl_sa_learning :: bool
  vl_members :: ubr_vec
  vl_tagged :: ubr_vec
  vl_mcflood :: ubr_vec
  vl_bcflood :: ubr_vec
  vl_ucflood :: ubr_vec

record ubr_port =
  p_dev :: "netdev option"
  p_ingress_cb :: ubr_cb
  p_pvid :: u16

definition zero_port :: ubr_port where
  "zero_port = \<lparr>p_dev = None, p_ingress_cb = zero_cb, p_pvid = 0\<rparr>"

text \<open>
  RCU callbacks the bridge has queued with \<^verbatim>\<open>call_rcu\<close> and that have not run yet: the
  free of a VLAN (\<^verbatim>\<open>ubr_vlan_del_rcu\<close>) and the clearing of a port slot
  (\<^verbatim>\<open>__ubr_port_cleanup\<close>).
\<close>

datatype rcu_cb = Vlan_Del_Rcu addr | Port_Cleanup_Rcu nat

text \<open>
  \<^verbatim>\<open>struct ubr\<close>. \<open>br_vlans\<close> gives each bucket of the VLAN hash table as the list of the
  VLANs on it, the newest first. \<open>br_heap\<close> holds the VLAN objects (\<open>None\<close>: not allocated,
  or freed), \<open>br_rcu\<close> the pending callbacks in the order they were queued.
\<close>

record ubr =
  br_dev :: netdev
  br_active :: ubr_vec
  br_vlan_proto :: u16
  br_vlans :: "nat \<Rightarrow> addr list"
  br_fdb :: ubr_fdb
  br_busy :: ubr_vec
  br_ports :: "nat \<Rightarrow> ubr_port"
  br_heap :: "addr \<Rightarrow> ubr_vlan option"
  br_rcu :: "rcu_cb list"

text \<open>Dereferencing a VLAN pointer: freed memory is a fault, NULL is another.\<close>

definition vlan_at :: "ubr \<Rightarrow> addr \<Rightarrow> ubr_vlan res" where
  "vlan_at br a = (case br_heap br a of None \<Rightarrow> Inl UseAfterFree | Some v \<Rightarrow> Inr v)"

definition vlan_deref :: "ubr \<Rightarrow> addr option \<Rightarrow> ubr_vlan res" where
  "vlan_deref br p = andthen (nonnull p) (vlan_at br)"

definition vlan_write :: "addr \<Rightarrow> ubr_vlan \<Rightarrow> ubr \<Rightarrow> ubr" where
  "vlan_write a v br = br\<lparr>br_heap := (br_heap br)(a := Some v)\<rparr>"

definition port_write :: "nat \<Rightarrow> ubr_port \<Rightarrow> ubr \<Rightarrow> ubr" where
  "port_write i p br = br\<lparr>br_ports := (br_ports br)(i := p)\<rparr>"

section \<open>Lemmas\<close>

lemma vlan_at_simps [simp]:
  "br_heap br a = Some v \<Longrightarrow> vlan_at br a = Inr v"
  "br_heap br a = None \<Longrightarrow> vlan_at br a = Inl UseAfterFree"
  by (simp_all add: vlan_at_def)

lemma vlan_at_Inr_iff [res_simps]: "vlan_at br a = Inr v \<longleftrightarrow> br_heap br a = Some v"
  by (auto simp: vlan_at_def split: option.splits)

lemma vlan_deref_simps [simp]:
  "vlan_deref br None = Inl NullDeref" "vlan_deref br (Some a) = vlan_at br a"
  by (simp_all add: vlan_deref_def)

lemma vlan_deref_Inr_iff [res_simps]:
  "vlan_deref br p = Inr v \<longleftrightarrow> (\<exists>a. p = Some a \<and> br_heap br a = Some v)"
  by (cases p) (auto simp: res_simps)

lemma vlan_write_frame [simp, frame_simps]:
  "br_ports (vlan_write a v br) = br_ports br" "br_busy (vlan_write a v br) = br_busy br"
  "br_fdb (vlan_write a v br) = br_fdb br" "br_vlans (vlan_write a v br) = br_vlans br"
  "br_rcu (vlan_write a v br) = br_rcu br" "br_dev (vlan_write a v br) = br_dev br"
  "br_vlan_proto (vlan_write a v br) = br_vlan_proto br"
  "br_heap (vlan_write a v br) = (br_heap br)(a := Some v)"
  by (simp_all add: vlan_write_def)

lemma port_write_frame [simp, frame_simps]:
  "br_ports (port_write i p br) = (br_ports br)(i := p)"
  "br_busy (port_write i p br) = br_busy br"
  "br_fdb (port_write i p br) = br_fdb br" "br_vlans (port_write i p br) = br_vlans br"
  "br_rcu (port_write i p br) = br_rcu br" "br_dev (port_write i p br) = br_dev br"
  "br_vlan_proto (port_write i p br) = br_vlan_proto br"
  "br_heap (port_write i p br) = br_heap br"
  by (simp_all add: port_write_def)

lemma htons_involutive: "htons K (htons K x) = x"
proof (cases "k_big_endian K")
  case True
  then show ?thesis by (simp add: htons_def)
next
  case False
  have "push_bit 8 (push_bit 8 x OR drop_bit 8 x) OR drop_bit 8 (push_bit 8 x OR drop_bit 8 x) = x"
    for x :: u16
    by (rule bit_word_eqI)
      (auto simp: bit_or_iff bit_push_bit_iff bit_drop_bit_eq possible_bit_word
        dest: bit_imp_le_length)
  with False show ?thesis by (simp add: htons_def)
qed

lemma htons_inj: "htons K x = htons K y \<longleftrightarrow> x = y"
  by (metis htons_involutive)

lemma broadcast_is_multicast:
  "is_broadcast_ether_addr a \<Longrightarrow> is_multicast_ether_addr a"
  by (simp add: is_broadcast_ether_addr_def is_multicast_ether_addr_def)

lemma valid_not_multicast: "is_valid_ether_addr a \<Longrightarrow> \<not> is_multicast_ether_addr a"
  by (simp add: is_valid_ether_addr_def)

lemma pidx_bound [simp]: "unat (x :: u8) < 256"
  using unsigned_less [of x, where ?'a = nat] by simp


lemma keeps_frame_trans: "keeps_frame s t \<Longrightarrow> keeps_frame t u \<Longrightarrow> keeps_frame s u"
  by (simp add: keeps_frame_def)

lemma helpers_okD:
  assumes "helpers_ok K"
  shows "k_skb_vlan_untag K s = SkbSame s' \<Longrightarrow> keeps_frame s s'"
    and "k_vlan_insert_tag_set_proto K s p t = Some s' \<Longrightarrow> keeps_frame s s'"
    and "keeps_frame s (k_skb_vlan_push K s p t)"
  using assms by (simp_all add: helpers_ok_def)

lemma tag_ops_simps [simp]:
  "skb_cb (vlan_hwaccel_put_tag s p t) = skb_cb s"
  "skb_h_dest (vlan_hwaccel_put_tag s p t) = skb_h_dest s"
  "skb_h_source (vlan_hwaccel_put_tag s p t) = skb_h_source s"
  "skb_dev (vlan_hwaccel_put_tag s p t) = skb_dev s"
  "skb_vlan_tag_present (vlan_hwaccel_put_tag s p t)"
  "skb_vlan_proto (vlan_hwaccel_put_tag s p t) = p"
  "skb_vlan_tci (vlan_hwaccel_put_tag s p t) = t"
  "skb_cb (vlan_hwaccel_clear_tag s) = skb_cb s"
  "skb_dev (vlan_hwaccel_clear_tag s) = skb_dev s"
  "skb_h_dest (vlan_hwaccel_clear_tag s) = skb_h_dest s"
  "skb_h_source (vlan_hwaccel_clear_tag s) = skb_h_source s"
  "\<not> skb_vlan_tag_present (vlan_hwaccel_clear_tag s)"
  by (simp_all add: vlan_hwaccel_put_tag_def vlan_hwaccel_clear_tag_def)

lemma skb_move_simps [simp]:
  "skb_cb (skb_push s n) = skb_cb s" "skb_cb (skb_pull s n) = skb_cb s"
  "skb_h_dest (skb_push s n) = skb_h_dest s" "skb_h_dest (skb_pull s n) = skb_h_dest s"
  "skb_h_source (skb_push s n) = skb_h_source s" "skb_h_source (skb_pull s n) = skb_h_source s"
  "skb_vlan_tci (skb_push s n) = skb_vlan_tci s" "skb_dev (skb_pull s n) = skb_dev s"
  "skb_cb (skb_reset_mac_len s) = skb_cb s" "skb_dev (skb_reset_mac_len s) = skb_dev s"
  "skb_h_dest (skb_reset_mac_len s) = skb_h_dest s"
  "skb_h_source (skb_reset_mac_len s) = skb_h_source s"
  "skb_cb (skb_set_network_header s i) = skb_cb s"
  "skb_dev (skb_set_network_header s i) = skb_dev s"
  "skb_h_dest (skb_set_network_header s i) = skb_h_dest s"
  "skb_h_source (skb_set_network_header s i) = skb_h_source s"
  "skb_vlan_tag_present (skb_set_network_header s i) = skb_vlan_tag_present s"
  by (simp_all add: skb_push_def skb_pull_def skb_reset_mac_len_def skb_set_network_header_def)

lemma get_id_mod: "unat (skb_vlan_tag_get_id s) = unat (skb_vlan_tci s) mod 4096"
proof -
  have "VLAN_VID_MASK = (mask 12 :: u16)" by (simp add: VLAN_VID_MASK_def mask_eq_exp_minus_1)
  then have "skb_vlan_tag_get_id s = take_bit 12 (skb_vlan_tci s)"
    by (simp only: skb_vlan_tag_get_id_def take_bit_eq_mask)
  then show ?thesis by (simp add: take_bit_eq_mod unat_mod)
qed

end
