(* ===== verification/Ubr_Vlan.thy ===== *)
theory Ubr_Vlan
  imports Ubr_Types
begin

text \<open>
  VLANs of a bridge (kernel/ubr-vlan.c, lines 14 to 177 and 283 to 299): the VLAN hash table,
  membership of ports, and the ingress stage that fixes a frame's VLAN. The netlink handlers
  of the same file are in the theory Ubr_Netlink.
\<close>

section \<open>The VLAN table\<close>

text \<open>
  \<^verbatim>\<open>hash_for_each_possible\<close> walks one bucket and reads every object on it, so an object
  that was freed but is still on the bucket is a use after free.
\<close>

fun vlan_scan :: "ubr \<Rightarrow> addr list \<Rightarrow> u16 \<Rightarrow> addr option res" where
  "vlan_scan br [] vid = Inr None"
| "vlan_scan br (a # as) vid =
     andthen (vlan_at br a)
       (\<lambda>v. if vl_vid v = vid then Inr (Some a) else vlan_scan br as vid)"

definition ubr_vlan_find :: "kernel \<Rightarrow> ubr \<Rightarrow> u16 \<Rightarrow> addr option res" where
  "ubr_vlan_find K br vid = vlan_scan br (br_vlans br (k_hash_min K vid)) vid"

text \<open>
  \<open>mem\<close> is what \<^verbatim>\<open>kzalloc\<close> returns. The pointer result is an error (\<open>Inl\<close>, as
  \<^verbatim>\<open>ERR_PTR\<close>) or the new VLAN. \<^verbatim>\<open>hash_add\<close> puts it at the head of its bucket.
\<close>

definition new_vlan :: "netdev \<Rightarrow> u16 \<Rightarrow> ubr_vlan" where
  "new_vlan d vid = \<lparr>vl_ubr = d, vl_vid = vid, vl_sa_learning = True,
     vl_members = 0, vl_tagged = 0,
     vl_mcflood = ubr_vec_fill, vl_bcflood = ubr_vec_fill, vl_ucflood = ubr_vec_fill\<rparr>"

definition hash_add :: "kernel \<Rightarrow> addr \<Rightarrow> u16 \<Rightarrow> ubr \<Rightarrow> ubr" where
  "hash_add K a vid br =
     br\<lparr>br_vlans := (br_vlans br)(k_hash_min K vid := a # br_vlans br (k_hash_min K vid))\<rparr>"

definition ubr_vlan_new ::
  "kernel \<Rightarrow> addr option \<Rightarrow> u16 \<Rightarrow> u16 \<Rightarrow> u16 \<Rightarrow> ubr \<Rightarrow> ((int + addr) \<times> ubr) res" where
  "ubr_vlan_new K mem vid fid sid br =
     andthen (ubr_vlan_find K br vid) (\<lambda>found.
       case found of
         Some _ \<Rightarrow> Inr (Inl (- EBUSY), br)
       | None \<Rightarrow>
           (case mem of
              None \<Rightarrow> Inr (Inl (- ENOMEM), br)
            | Some a \<Rightarrow>
                Inr (Inr a, hash_add K a vid (vlan_write a (new_vlan (br_dev br) vid) br))))"

text \<open>
  \<^verbatim>\<open>ubr_vlan_del\<close> empties the member vector and queues the free. It does not take the
  VLAN off the hash table.
\<close>

definition ubr_vlan_del :: "addr \<Rightarrow> ubr \<Rightarrow> (int \<times> ubr) res" where
  "ubr_vlan_del a br =
     andthen (vlan_at br a) (\<lambda>v.
       Inr (0, (vlan_write a (v\<lparr>vl_members := ubr_vec_zero\<rparr>) br)
                 \<lparr>br_rcu := br_rcu br @ [Vlan_Del_Rcu a]\<rparr>))"

definition ubr_vlan_del_rcu :: "addr \<Rightarrow> ubr \<Rightarrow> ubr res" where
  "ubr_vlan_del_rcu a br =
     (case br_heap br a of
        None \<Rightarrow> Inl DoubleFree
      | Some _ \<Rightarrow> Inr (br\<lparr>br_heap := (br_heap br)(a := None)\<rparr>))"

section \<open>Membership\<close>

definition ubr_vlan_port_add :: "addr option \<Rightarrow> nat \<Rightarrow> bool \<Rightarrow> ubr \<Rightarrow> (int \<times> ubr) res" where
  "ubr_vlan_port_add p pidx tagged br =
     andthen (nonnull p) (\<lambda>a. andthen (vlan_at br a) (\<lambda>v.
       let v' = (if tagged then v\<lparr>vl_tagged := ubr_vec_set pidx (vl_tagged v)\<rparr> else v)
       in Inr (0, vlan_write a (v'\<lparr>vl_members := ubr_vec_set pidx (vl_members v')\<rparr>) br)))"

definition ubr_vlan_port_del :: "addr option \<Rightarrow> nat \<Rightarrow> ubr \<Rightarrow> (int \<times> ubr) res" where
  "ubr_vlan_port_del p pidx br =
     andthen (nonnull p) (\<lambda>a. andthen (vlan_at br a) (\<lambda>v.
       let v' = v\<lparr>vl_members := ubr_vec_clear pidx (vl_members v)\<rparr>
       in Inr (0, vlan_write a (v'\<lparr>vl_tagged := ubr_vec_clear pidx (vl_tagged v')\<rparr>) br)))"

text \<open>
  \<^verbatim>\<open>__update_port_vlan\<close>: every port whose PVID is this VLAN's points to it, or to no
  VLAN.
\<close>

definition update_port_vlan_step :: "addr \<Rightarrow> u16 \<Rightarrow> bool \<Rightarrow> nat \<Rightarrow> ubr \<Rightarrow> ubr" where
  "update_port_vlan_step a vid add pidx br =
     (let p = br_ports br pidx in
      if p_pvid p \<noteq> vid then br
      else port_write pidx
             (p\<lparr>p_ingress_cb := (p_ingress_cb p)\<lparr>cb_vlan := (if add then Some a else None)\<rparr>\<rparr>) br)"

definition update_port_vlan :: "addr \<Rightarrow> u16 \<Rightarrow> bool \<Rightarrow> ubr \<Rightarrow> ubr" where
  "update_port_vlan a vid add br =
     fold (update_port_vlan_step a vid add) (ubr_vec_foreach (br_busy br)) br"

section \<open>Creation with the bridge\<close>

definition ubr_vlan_newlink :: "kernel \<Rightarrow> addr option \<Rightarrow> ubr \<Rightarrow> (int \<times> ubr) res" where
  "ubr_vlan_newlink K mem br =
     andthen (ubr_vlan_new K mem 0 0 0 br) (\<lambda>(r, br').
       case r of Inl err \<Rightarrow> Inr (err, br') | Inr _ \<Rightarrow> Inr (0, br'))"

definition ubr_vlan_dellink :: "ubr \<Rightarrow> ubr" where
  "ubr_vlan_dellink br = br"

section \<open>Ingress\<close>

text \<open>
  The stage returns whether the frame may go on and the buffer, \<open>None\<close> when a helper freed
  it. The control buffer is part of the frame's buffer: when \<^verbatim>\<open>skb_vlan_untag\<close> hands back
  another one, everything after it still writes through the old control buffer, which is
  gone, on every path that is left (here or in the caller).
\<close>

definition ingress_out :: "ubr \<Rightarrow> sk_buff \<Rightarrow> (bool \<times> sk_buff option) res" where
  "ingress_out br s =
     andthen (vlan_deref br (cb_vlan (skb_cb s))) (\<lambda>v.
       let cb = skb_cb s
       in Inr (True, Some (s\<lparr>skb_cb := cb\<lparr>cb_vec := ubr_vec_and (cb_vec cb) (vl_members v)\<rparr>\<rparr>)))"

text \<open>Lines 57 to 76, with the VID found in the frame's tag (0: untagged or priority tagged).\<close>

definition ingress_resolve ::
  "kernel \<Rightarrow> ubr \<Rightarrow> sk_buff \<Rightarrow> u16 \<Rightarrow> (bool \<times> sk_buff option) res" where
  "ingress_resolve K br s vid =
     (let tagged = (vid \<noteq> 0) in
      andthen (if tagged then ubr_vlan_find K br vid else Inr (cb_vlan (skb_cb s))) (\<lambda>vl.
        let s1 = s\<lparr>skb_cb := (skb_cb s)\<lparr>cb_vlan := vl\<rparr>\<rparr> in
        case vl of
          None \<Rightarrow> Inr (False, Some s1)
        | Some a \<Rightarrow>
            andthen (vlan_at br a) (\<lambda>v.
              let s2 = (if tagged then s1
                        else vlan_hwaccel_put_tag s1 (htons K (br_vlan_proto br)) (vl_vid v))
              in if ubr_vec_test (vl_members v) (unat (cb_pidx (skb_cb s2)))
                 then ingress_out br s2
                 else Inr (False, Some s2))))"

text \<open>Lines 29 to 34: a tag still in the frame is taken out of it.\<close>

definition ingress_untag :: "kernel \<Rightarrow> ubr \<Rightarrow> sk_buff \<Rightarrow> sk_buff option res" where
  "ingress_untag K br s =
     (if \<not> skb_vlan_tag_present s \<and> skb_protocol s = br_vlan_proto br then
        (case k_skb_vlan_untag K s of
           SkbGone \<Rightarrow> Inr None
         | SkbNew _ \<Rightarrow> Inl UseAfterFree
         | SkbSame s' \<Rightarrow> Inr (Some s'))
      else Inr (Some s))"

text \<open>Lines 43 to 55: another tag protocol is pushed into the frame, ours gives the VID.\<close>

definition ingress_classify :: "kernel \<Rightarrow> ubr \<Rightarrow> sk_buff \<Rightarrow> (sk_buff \<times> u16) option" where
  "ingress_classify K br s =
     (if skb_vlan_tag_present s then
        if htons K (skb_vlan_proto s) \<noteq> br_vlan_proto br then
          (case k_vlan_insert_tag_set_proto K s (skb_vlan_proto s) (skb_vlan_tci s) of
             None \<Rightarrow> None
           | Some s' \<Rightarrow> Some (skb_reset_mac_len s', 0))
        else Some (s, skb_vlan_tag_get_id s)
      else Some (s, 0))"

definition ubr_vlan_ingress ::
  "kernel \<Rightarrow> ubr \<Rightarrow> sk_buff \<Rightarrow> (bool \<times> sk_buff option) res" where
  "ubr_vlan_ingress K br s =
     (if \<not> cb_vlan_filtering (skb_cb s) then ingress_out br s
      else andthen (ingress_untag K br s) (\<lambda>so.
        case so of
          None \<Rightarrow> Inr (False, None)
        | Some s1 \<Rightarrow>
            (case ingress_classify K br s1 of
               None \<Rightarrow> Inr (False, None)
             | Some (s2, vid) \<Rightarrow> ingress_resolve K br s2 vid)))"

section \<open>The interface: a table of VLANs\<close>

text \<open>
  What the ports and the netlink handlers rely on: a VLAN that is found has the VID it was
  looked up with, adding one changes the result for its VID only, and writing back an object
  with the same VID changes no lookup.
\<close>

locale vlan_table =
  fixes ok :: "'s \<Rightarrow> bool"
    and find :: "'s \<Rightarrow> u16 \<Rightarrow> addr option"
    and obj :: "'s \<Rightarrow> addr \<Rightarrow> 'v option"
    and vid_of :: "'v \<Rightarrow> u16"
    and add :: "addr \<Rightarrow> u16 \<Rightarrow> 's \<Rightarrow> 's"
    and put :: "addr \<Rightarrow> 'v \<Rightarrow> 's \<Rightarrow> 's"
  assumes find_obj: "ok s \<Longrightarrow> find s vid = Some a \<Longrightarrow> \<exists>v. obj s a = Some v \<and> vid_of v = vid"
    and ok_add: "ok s \<Longrightarrow> find s vid = None \<Longrightarrow> obj s a = None \<Longrightarrow> ok (add a vid s)"
    and find_add: "ok s \<Longrightarrow> find s vid = None \<Longrightarrow> obj s a = None \<Longrightarrow>
      find (add a vid s) x = (if x = vid then Some a else find s x)"
    and obj_add: "ok s \<Longrightarrow> find s vid = None \<Longrightarrow> obj s a = None \<Longrightarrow> b \<noteq> a \<Longrightarrow>
      obj (add a vid s) b = obj s b"
    and ok_put: "ok s \<Longrightarrow> obj s a = Some u \<Longrightarrow> vid_of v = vid_of u \<Longrightarrow> ok (put a v s)"
    and find_put: "ok s \<Longrightarrow> obj s a = Some u \<Longrightarrow> vid_of v = vid_of u \<Longrightarrow>
      find (put a v s) = find s"
begin

text \<open>One object is not found under two VIDs.\<close>

lemma find_inj: "ok s \<Longrightarrow> find s x = Some a \<Longrightarrow> find s y = Some a \<Longrightarrow> x = y"
  using find_obj [of s x a] find_obj [of s y a] by auto

lemma find_fresh: "ok s \<Longrightarrow> obj s a = None \<Longrightarrow> find s x \<noteq> Some a"
  using find_obj [of s x a] by auto

text \<open>Adding never takes a VLAN away.\<close>

lemma add_keeps:
  "ok s \<Longrightarrow> find s vid = None \<Longrightarrow> obj s a = None \<Longrightarrow> find s x = Some b \<Longrightarrow>
     find (add a vid s) x = Some b \<and> b \<noteq> a"
  using find_add [of s vid a x] find_fresh [of s a x] by auto

text \<open>Two additions under different VIDs commute as far as lookup can tell.\<close>

lemma add_add_find:
  assumes "ok s" "find s x = None" "find s y = None" "x \<noteq> y"
    and "obj s a = None" "obj s b = None" "a \<noteq> b"
  shows "find (add b y (add a x s)) = find (add a x (add b y s))"
proof
  fix z
  have 1: "ok (add a x s)" "ok (add b y s)"
    using assms by (auto intro: ok_add)
  have 2: "find (add a x s) y = None" "find (add b y s) x = None"
    using assms by (auto simp: find_add)
  have 3: "obj (add a x s) b = None" "obj (add b y s) a = None"
    using assms by (auto simp: obj_add)
  show "find (add b y (add a x s)) z = find (add a x (add b y s)) z"
    using 1 2 3 assms by (simp add: find_add)
qed

end

section \<open>The hash table provides it\<close>

text \<open>
  Every VLAN on a bucket is allocated and hashes to it, and a bucket holds no VID twice.
\<close>

definition vid_at :: "ubr \<Rightarrow> addr \<Rightarrow> u16" where
  "vid_at br a = (case br_heap br a of None \<Rightarrow> 0 | Some v \<Rightarrow> vl_vid v)"

definition vlan_table_ok :: "kernel \<Rightarrow> ubr \<Rightarrow> bool" where
  "vlan_table_ok K br \<longleftrightarrow>
     (\<forall>h. (\<forall>a \<in> set (br_vlans br h).
              \<exists>v. br_heap br a = Some v \<and> k_hash_min K (vl_vid v) = h) \<and>
          distinct (map (vid_at br) (br_vlans br h)))"

definition vlan_of :: "kernel \<Rightarrow> ubr \<Rightarrow> u16 \<Rightarrow> addr option" where
  "vlan_of K br vid = (case ubr_vlan_find K br vid of Inl _ \<Rightarrow> None | Inr r \<Rightarrow> r)"

definition vlan_add :: "kernel \<Rightarrow> addr \<Rightarrow> u16 \<Rightarrow> ubr \<Rightarrow> ubr" where
  "vlan_add K a vid br = hash_add K a vid (vlan_write a (new_vlan (br_dev br) vid) br)"

lemma vid_at_simp [simp]: "br_heap br a = Some v \<Longrightarrow> vid_at br a = vl_vid v"
  by (simp add: vid_at_def)

lemma new_vlan_simps [simp]:
  "vl_vid (new_vlan d vid) = vid" "vl_members (new_vlan d vid) = 0"
  "vl_tagged (new_vlan d vid) = 0" "vl_sa_learning (new_vlan d vid)"
  "vl_ucflood (new_vlan d vid) = ubr_vec_fill" "vl_mcflood (new_vlan d vid) = ubr_vec_fill"
  "vl_bcflood (new_vlan d vid) = ubr_vec_fill"
  by (simp_all add: new_vlan_def)

lemma hash_add_frame [simp, frame_simps]:
  "br_ports (hash_add K a vid br) = br_ports br" "br_busy (hash_add K a vid br) = br_busy br"
  "br_fdb (hash_add K a vid br) = br_fdb br" "br_heap (hash_add K a vid br) = br_heap br"
  "br_rcu (hash_add K a vid br) = br_rcu br" "br_dev (hash_add K a vid br) = br_dev br"
  "br_vlan_proto (hash_add K a vid br) = br_vlan_proto br"
  by (simp_all add: hash_add_def)

text \<open>The scan depends on the heap only, and on live objects it is a search by VID.\<close>

lemma vlan_scan_cong:
  "br_heap br = br_heap br' \<Longrightarrow> vlan_scan br as vid = vlan_scan br' as vid"
  by (induction as) (auto simp: vlan_at_def split: option.split)

lemma vlan_scan_live:
  "\<forall>a \<in> set as. br_heap br a \<noteq> None \<Longrightarrow>
     vlan_scan br as vid = Inr (List.find (\<lambda>a. vid_at br a = vid) as)"
  by (induction as) auto

lemma vlan_table_live:
  "vlan_table_ok K br \<Longrightarrow> a \<in> set (br_vlans br h) \<Longrightarrow>
     \<exists>v. br_heap br a = Some v \<and> k_hash_min K (vl_vid v) = h"
  by (simp add: vlan_table_ok_def)

lemma vlan_find_total:
  assumes "vlan_table_ok K br"
  shows "ubr_vlan_find K br vid = Inr (vlan_of K br vid)"
    and "vlan_of K br vid = List.find (\<lambda>a. vid_at br a = vid) (br_vlans br (k_hash_min K vid))"
proof -
  let ?b = "br_vlans br (k_hash_min K vid)"
  have "\<forall>a \<in> set ?b. br_heap br a \<noteq> None"
    using vlan_table_live [OF assms] by blast
  then have "ubr_vlan_find K br vid = Inr (List.find (\<lambda>a. vid_at br a = vid) ?b)"
    by (simp add: ubr_vlan_find_def vlan_scan_live)
  then show "ubr_vlan_find K br vid = Inr (vlan_of K br vid)"
    and "vlan_of K br vid = List.find (\<lambda>a. vid_at br a = vid) ?b"
    by (simp_all add: vlan_of_def)
qed

lemma vlan_of_SomeD:
  assumes "vlan_table_ok K br" "vlan_of K br vid = Some a"
  shows "\<exists>v. br_heap br a = Some v \<and> vl_vid v = vid"
    and "a \<in> set (br_vlans br (k_hash_min K vid))"
proof -
  have *: "List.find (\<lambda>a. vid_at br a = vid) (br_vlans br (k_hash_min K vid)) = Some a"
    using assms by (simp add: vlan_find_total)
  then show in_bucket: "a \<in> set (br_vlans br (k_hash_min K vid))"
    by (auto simp: find_Some_iff)
  from * have "vid_at br a = vid" by (auto simp: find_Some_iff)
  with vlan_table_live [OF assms(1) in_bucket]
  show "\<exists>v. br_heap br a = Some v \<and> vl_vid v = vid" by auto
qed

lemma vlan_of_NoneD:
  assumes "vlan_table_ok K br" "vlan_of K br vid = None" "a \<in> set (br_vlans br h)"
  shows "vid_at br a \<noteq> vid"
proof
  assume vid: "vid_at br a = vid"
  from vlan_table_live [OF assms(1,3)] obtain v
    where "br_heap br a = Some v" "k_hash_min K (vl_vid v) = h" by auto
  with vid have "h = k_hash_min K vid" by simp
  with assms vid show False by (auto simp: vlan_find_total find_None_iff)
qed

text \<open>Conversely a VLAN on the table is the one its VID finds.\<close>

lemma vlan_of_eqI:
  assumes ok: "vlan_table_ok K br" and a: "a \<in> set (br_vlans br h)" and v: "br_heap br a = Some v"
  shows "vlan_of K br (vl_vid v) = Some a"
proof -
  have h: "h = k_hash_min K (vl_vid v)"
    using vlan_table_live [OF ok a] v by auto
  obtain b where b: "vlan_of K br (vl_vid v) = Some b"
    using vlan_of_NoneD [OF ok _ a] v by (cases "vlan_of K br (vl_vid v)") auto
  from vlan_of_SomeD [OF ok b] have "vid_at br b = vl_vid v"
    and "b \<in> set (br_vlans br h)" by (auto simp: h)
  moreover have "distinct (map (vid_at br) (br_vlans br h))"
    using ok by (simp add: vlan_table_ok_def)
  ultimately have "b = a"
    using a v by (auto simp: distinct_map inj_on_def)
  with b show ?thesis by simp
qed

lemma vlan_add_frame [simp, frame_simps]:
  "br_ports (vlan_add K a vid br) = br_ports br" "br_busy (vlan_add K a vid br) = br_busy br"
  "br_fdb (vlan_add K a vid br) = br_fdb br" "br_rcu (vlan_add K a vid br) = br_rcu br"
  "br_dev (vlan_add K a vid br) = br_dev br"
  "br_vlan_proto (vlan_add K a vid br) = br_vlan_proto br"
  "br_heap (vlan_add K a vid br) = (br_heap br)(a := Some (new_vlan (br_dev br) vid))"
  by (simp_all add: vlan_add_def)

lemma vlan_add_vlans:
  "br_vlans (vlan_add K a vid br) h =
     (if h = k_hash_min K vid then a # br_vlans br h else br_vlans br h)"
  by (simp add: vlan_add_def hash_add_def)

lemma vid_at_add: "vid_at (vlan_add K a vid br) b = (if b = a then vid else vid_at br b)"
  by (simp add: vid_at_def)

lemma fresh_not_hashed:
  "vlan_table_ok K br \<Longrightarrow> br_heap br a = None \<Longrightarrow> a \<notin> set (br_vlans br h)"
  using vlan_table_live by fastforce

lemma find_old_buckets:
  assumes "vlan_table_ok K br" "br_heap br a = None"
  shows "List.find (\<lambda>b. vid_at (vlan_add K a vid br) b = x) (br_vlans br h) =
    List.find (\<lambda>b. vid_at br b = x) (br_vlans br h)"
  by (rule find_cong) (use fresh_not_hashed [OF assms] in \<open>auto simp: vid_at_add\<close>)

lemma vlan_add_ok:
  assumes ok: "vlan_table_ok K br" and new: "vlan_of K br vid = None"
    and fresh: "br_heap br a = None"
  shows "vlan_table_ok K (vlan_add K a vid br)"
proof -
  note off = fresh_not_hashed [OF ok fresh]
  have "map (vid_at (vlan_add K a vid br)) (br_vlans br h) = map (vid_at br) (br_vlans br h)" for h
    using off by (auto simp: vid_at_add)
  moreover have "vid \<notin> vid_at br ` set (br_vlans br h)" for h
    using vlan_of_NoneD [OF ok new] by blast
  moreover have "distinct (map (vid_at br) (br_vlans br h))" for h
    using ok by (simp add: vlan_table_ok_def)
  ultimately have "distinct (map (vid_at (vlan_add K a vid br))
      (br_vlans (vlan_add K a vid br) h))" for h
    by (simp del: map_eq_conv add: vlan_add_vlans vid_at_add)
  moreover have "\<exists>v. br_heap (vlan_add K a vid br) b = Some v \<and> k_hash_min K (vl_vid v) = h"
    if "b \<in> set (br_vlans (vlan_add K a vid br) h)" for b h
    using that off vlan_table_live [OF ok, of b h] by (auto simp: vlan_add_vlans split: if_splits)
  ultimately show ?thesis by (simp add: vlan_table_ok_def)
qed

lemma vlan_add_find:
  assumes ok: "vlan_table_ok K br" and new: "vlan_of K br vid = None"
    and fresh: "br_heap br a = None"
  shows "vlan_of K (vlan_add K a vid br) x = (if x = vid then Some a else vlan_of K br x)"
  using find_old_buckets [OF ok fresh]
  by (simp add: vlan_find_total(2) [OF vlan_add_ok [OF assms]] vlan_find_total(2) [OF ok]
      vlan_add_vlans vid_at_add)

lemma vid_at_write:
  "br_heap br a = Some u \<Longrightarrow> vl_vid v = vl_vid u \<Longrightarrow> vid_at (vlan_write a v br) = vid_at br"
  by (auto simp: vid_at_def fun_eq_iff)

lemma vlan_write_ok:
  assumes "vlan_table_ok K br" "br_heap br a = Some u" "vl_vid v = vl_vid u"
  shows "vlan_table_ok K (vlan_write a v br)"
proof -
  have "\<exists>w. br_heap (vlan_write a v br) b = Some w \<and> k_hash_min K (vl_vid w) = h"
    if "b \<in> set (br_vlans br h)" for b h
    using vlan_table_live [OF assms(1) that] assms(2,3) by (cases "b = a") auto
  then show ?thesis
    using assms(1) by (simp add: vlan_table_ok_def vid_at_write [OF assms(2,3)])
qed

lemma vlan_write_find:
  assumes "vlan_table_ok K br" "br_heap br a = Some u" "vl_vid v = vl_vid u"
  shows "vlan_of K (vlan_write a v br) = vlan_of K br"
  using vlan_find_total(2) [OF assms(1)] vlan_find_total(2) [OF vlan_write_ok [OF assms]]
  by (simp add: fun_eq_iff vid_at_write [OF assms(2,3)])

interpretation vt: vlan_table "vlan_table_ok K" "vlan_of K" br_heap vl_vid "vlan_add K" vlan_write
  for K
proof unfold_locales
  fix s :: ubr and vid a
  assume "vlan_table_ok K s" "vlan_of K s vid = Some a"
  then show "\<exists>v. br_heap s a = Some v \<and> vl_vid v = vid" by (rule vlan_of_SomeD)
qed (auto simp: vlan_add_ok vlan_add_find vlan_write_ok vlan_write_find)

text \<open>Both sides of the table depend on the buckets and the heap alone.\<close>

lemma vlan_table_cong:
  assumes "br_vlans br' = br_vlans br" "br_heap br' = br_heap br"
  shows "vlan_table_ok K br' = vlan_table_ok K br" and "vlan_of K br' = vlan_of K br"
    and "ubr_vlan_find K br' = ubr_vlan_find K br"
proof -
  have "vid_at br' = vid_at br" using assms by (simp add: vid_at_def fun_eq_iff)
  then show "vlan_table_ok K br' = vlan_table_ok K br"
    using assms by (simp add: vlan_table_ok_def)
  show *: "ubr_vlan_find K br' = ubr_vlan_find K br"
    using assms vlan_scan_cong [of br' br] by (simp add: ubr_vlan_find_def fun_eq_iff)
  then show "vlan_of K br' = vlan_of K br"
    by (simp add: vlan_of_def fun_eq_iff)
qed

section \<open>Operations on VLANs\<close>

text \<open>Creation, on every branch.\<close>

lemma vlan_new_exists:
  "vlan_table_ok K br \<Longrightarrow> vlan_of K br vid = Some a \<Longrightarrow>
     ubr_vlan_new K mem vid f s br = Inr (Inl (- EBUSY), br)"
  by (simp add: ubr_vlan_new_def vlan_find_total(1))

lemma vlan_new_nomem:
  "vlan_table_ok K br \<Longrightarrow> vlan_of K br vid = None \<Longrightarrow>
     ubr_vlan_new K None vid f s br = Inr (Inl (- ENOMEM), br)"
  by (simp add: ubr_vlan_new_def vlan_find_total(1))

lemma vlan_new_adds:
  "vlan_table_ok K br \<Longrightarrow> vlan_of K br vid = None \<Longrightarrow>
     ubr_vlan_new K (Some a) vid f s br = Inr (Inr a, vlan_add K a vid br)"
  by (simp add: ubr_vlan_new_def vlan_find_total(1) vlan_add_def)

lemma vlan_new_cases:
  assumes "vlan_table_ok K br" "ubr_vlan_new K mem vid f s br = Inr (r, br')"
  obtains "r = Inl (- EBUSY)" "br' = br" "vlan_of K br vid \<noteq> None"
  | "r = Inl (- ENOMEM)" "br' = br" "vlan_of K br vid = None" "mem = None"
  | a where "r = Inr a" "mem = Some a" "br' = vlan_add K a vid br" "vlan_of K br vid = None"
  using assms by (cases "vlan_of K br vid"; cases mem)
    (auto simp: vlan_new_exists vlan_new_nomem vlan_new_adds)

text \<open>Membership: the vectors after each operation, and what stays.\<close>

definition add_member :: "nat \<Rightarrow> bool \<Rightarrow> ubr_vlan \<Rightarrow> ubr_vlan" where
  "add_member pidx tagged v =
     v\<lparr>vl_tagged := (if tagged then ubr_vec_set pidx (vl_tagged v) else vl_tagged v),
       vl_members := ubr_vec_set pidx (vl_members v)\<rparr>"

definition del_member :: "nat \<Rightarrow> ubr_vlan \<Rightarrow> ubr_vlan" where
  "del_member pidx v =
     v\<lparr>vl_members := ubr_vec_clear pidx (vl_members v),
       vl_tagged := ubr_vec_clear pidx (vl_tagged v)\<rparr>"

lemma member_simps [simp]:
  "vl_vid (add_member i t v) = vl_vid v" "vl_vid (del_member i v) = vl_vid v"
  "vl_sa_learning (add_member i t v) = vl_sa_learning v"
  "vl_sa_learning (del_member i v) = vl_sa_learning v"
  by (simp_all add: add_member_def del_member_def)

lemma vlan_port_add_eq:
  "br_heap br a = Some v \<Longrightarrow>
     ubr_vlan_port_add (Some a) pidx tagged br = Inr (0, vlan_write a (add_member pidx tagged v) br)"
  by (simp add: ubr_vlan_port_add_def add_member_def Let_def)

lemma vlan_port_del_eq:
  "br_heap br a = Some v \<Longrightarrow>
     ubr_vlan_port_del (Some a) pidx br = Inr (0, vlan_write a (del_member pidx v) br)"
  by (simp add: ubr_vlan_port_del_def del_member_def Let_def)

lemma vlan_port_add_live:
  "ubr_vlan_port_add p pidx tagged br = Inr x \<Longrightarrow> \<exists>a v. p = Some a \<and> br_heap br a = Some v"
  by (auto simp: ubr_vlan_port_add_def res_simps)

lemma vlan_port_add_InrD:
  "ubr_vlan_port_add p pidx tagged br = Inr (r, br') \<Longrightarrow>
     \<exists>a v. p = Some a \<and> br_heap br a = Some v \<and> r = 0 \<and>
       br' = vlan_write a (add_member pidx tagged v) br"
  using vlan_port_add_live [of p pidx tagged br "(r, br')"] by (auto simp: vlan_port_add_eq)

lemma vlan_port_del_InrD:
  "ubr_vlan_port_del p pidx br = Inr (r, br') \<Longrightarrow>
     \<exists>a v. p = Some a \<and> br_heap br a = Some v \<and> r = 0 \<and>
       br' = vlan_write a (del_member pidx v) br"
  by (auto simp: ubr_vlan_port_del_def del_member_def res_simps Let_def)

text \<open>Pointing the ports of a PVID at its VLAN.\<close>

definition set_port_vlan :: "addr option \<Rightarrow> ubr_port \<Rightarrow> ubr_port" where
  "set_port_vlan vl p = p\<lparr>p_ingress_cb := (p_ingress_cb p)\<lparr>cb_vlan := vl\<rparr>\<rparr>"

lemma update_step_ports:
  "br_ports (update_port_vlan_step a vid add j br) i =
     (if i = j \<and> p_pvid (br_ports br i) = vid
      then set_port_vlan (if add then Some a else None) (br_ports br i) else br_ports br i)"
  by (cases "i = j") (simp_all add: update_port_vlan_step_def set_port_vlan_def Let_def)

lemma update_step_frame [frame_simps]:
  "br_busy (update_port_vlan_step a vid add j br) = br_busy br"
  "br_fdb (update_port_vlan_step a vid add j br) = br_fdb br"
  "br_vlans (update_port_vlan_step a vid add j br) = br_vlans br"
  "br_heap (update_port_vlan_step a vid add j br) = br_heap br"
  "br_rcu (update_port_vlan_step a vid add j br) = br_rcu br"
  "br_dev (update_port_vlan_step a vid add j br) = br_dev br"
  "br_vlan_proto (update_port_vlan_step a vid add j br) = br_vlan_proto br"
  by (simp_all add: update_port_vlan_step_def Let_def)

lemma set_port_vlan_simps [simp]:
  "p_pvid (set_port_vlan vl p) = p_pvid p" "p_dev (set_port_vlan vl p) = p_dev p"
  "cb_vlan (p_ingress_cb (set_port_vlan vl p)) = vl"
  "cb_vec (p_ingress_cb (set_port_vlan vl p)) = cb_vec (p_ingress_cb p)"
  "cb_pidx (p_ingress_cb (set_port_vlan vl p)) = cb_pidx (p_ingress_cb p)"
  "cb_ctrl (p_ingress_cb (set_port_vlan vl p)) = cb_ctrl (p_ingress_cb p)"
  "cb_sa_learning (p_ingress_cb (set_port_vlan vl p)) = cb_sa_learning (p_ingress_cb p)"
  "cb_vlan_filtering (p_ingress_cb (set_port_vlan vl p)) = cb_vlan_filtering (p_ingress_cb p)"
  by (simp_all add: set_port_vlan_def)

lemma update_fold_ports:
  "distinct is \<Longrightarrow>
     br_ports (fold (update_port_vlan_step a vid add) is br) i =
       (if i \<in> set is \<and> p_pvid (br_ports br i) = vid
        then set_port_vlan (if add then Some a else None) (br_ports br i) else br_ports br i)"
  by (induction "is" arbitrary: br) (auto simp: update_step_ports)

lemma update_port_vlan_ports:
  "br_ports (update_port_vlan a vid add br) i =
     (if ubr_vec_test (br_busy br) i \<and> p_pvid (br_ports br i) = vid
      then set_port_vlan (if add then Some a else None) (br_ports br i) else br_ports br i)"
  by (simp add: update_port_vlan_def update_fold_ports)

lemma update_port_vlan_frame [simp, frame_simps]:
  "br_busy (update_port_vlan a vid add br) = br_busy br"
  "br_fdb (update_port_vlan a vid add br) = br_fdb br"
  "br_vlans (update_port_vlan a vid add br) = br_vlans br"
  "br_heap (update_port_vlan a vid add br) = br_heap br"
  "br_rcu (update_port_vlan a vid add br) = br_rcu br"
  "br_dev (update_port_vlan a vid add br) = br_dev br"
  "br_vlan_proto (update_port_vlan a vid add br) = br_vlan_proto br"
  unfolding update_port_vlan_def by (rule fold_frame, simp add: frame_simps)+


section \<open>The ingress stage\<close>

text \<open>
  The VLAN a frame belongs to once its tag is known: the one its VID names, or for VID 0 the
  one its control buffer brought from the port.
\<close>

definition frame_vlan :: "kernel \<Rightarrow> ubr \<Rightarrow> sk_buff \<Rightarrow> u16 \<Rightarrow> addr option" where
  "frame_vlan K br s vid = (if vid = 0 then cb_vlan (skb_cb s) else vlan_of K br vid)"

definition narrow :: "ubr_vec \<Rightarrow> sk_buff \<Rightarrow> sk_buff" where
  "narrow m s = s\<lparr>skb_cb := (skb_cb s)\<lparr>cb_vec := ubr_vec_and (cb_vec (skb_cb s)) m\<rparr>\<rparr>"

definition set_frame_vlan :: "addr option \<Rightarrow> sk_buff \<Rightarrow> sk_buff" where
  "set_frame_vlan vl s = s\<lparr>skb_cb := (skb_cb s)\<lparr>cb_vlan := vl\<rparr>\<rparr>"

text \<open>The frame with its VLAN and, when it came without a VID, that VLAN's tag.\<close>

definition resolved :: "kernel \<Rightarrow> ubr \<Rightarrow> sk_buff \<Rightarrow> u16 \<Rightarrow> addr \<Rightarrow> ubr_vlan \<Rightarrow> sk_buff" where
  "resolved K br s vid a v =
     (let s1 = set_frame_vlan (Some a) s in
      if vid \<noteq> 0 then s1 else vlan_hwaccel_put_tag s1 (htons K (br_vlan_proto br)) (vl_vid v))"

lemma frame_update_simps [simp]:
  "skb_cb (narrow m s) = (skb_cb s)\<lparr>cb_vec := ubr_vec_and (cb_vec (skb_cb s)) m\<rparr>"
  "skb_h_dest (narrow m s) = skb_h_dest s" "skb_h_source (narrow m s) = skb_h_source s"
  "skb_vlan_tci (narrow m s) = skb_vlan_tci s" "skb_vlan_proto (narrow m s) = skb_vlan_proto s"
  "skb_vlan_tag_present (narrow m s) = skb_vlan_tag_present s"
  "skb_dev (narrow m s) = skb_dev s" "skb_protocol (narrow m s) = skb_protocol s"
  "skb_cb (set_frame_vlan vl s) = (skb_cb s)\<lparr>cb_vlan := vl\<rparr>"
  "skb_h_dest (set_frame_vlan vl s) = skb_h_dest s"
  "skb_h_source (set_frame_vlan vl s) = skb_h_source s"
  "skb_vlan_tci (set_frame_vlan vl s) = skb_vlan_tci s"
  "skb_vlan_proto (set_frame_vlan vl s) = skb_vlan_proto s"
  "skb_vlan_tag_present (set_frame_vlan vl s) = skb_vlan_tag_present s"
  "skb_dev (set_frame_vlan vl s) = skb_dev s"
  by (simp_all add: narrow_def set_frame_vlan_def)

lemma resolved_simps [simp]:
  "skb_cb (resolved K br s vid a v) = (skb_cb s)\<lparr>cb_vlan := Some a\<rparr>"
  "skb_h_dest (resolved K br s vid a v) = skb_h_dest s"
  "skb_h_source (resolved K br s vid a v) = skb_h_source s"
  "skb_dev (resolved K br s vid a v) = skb_dev s"
  by (simp_all add: resolved_def Let_def)

lemma resolve_none:
  "vlan_table_ok K br \<Longrightarrow> frame_vlan K br s vid = None \<Longrightarrow>
     ingress_resolve K br s vid = Inr (False, Some (set_frame_vlan None s))"
  by (cases "vid = 0")
    (simp_all add: ingress_resolve_def frame_vlan_def vlan_find_total(1) set_frame_vlan_def Let_def)

lemma ingress_out_eq:
  "cb_vlan (skb_cb s) = Some a \<Longrightarrow> br_heap br a = Some v \<Longrightarrow>
     ingress_out br s = Inr (True, Some (narrow (vl_members v) s))"
  by (simp add: ingress_out_def narrow_def Let_def)

lemma resolve_some:
  assumes "vlan_table_ok K br" "frame_vlan K br s vid = Some a" "br_heap br a = Some v"
  shows "ingress_resolve K br s vid =
    (if ubr_vec_test (vl_members v) (unat (cb_pidx (skb_cb s)))
     then Inr (True, Some (narrow (vl_members v) (resolved K br s vid a v)))
     else Inr (False, Some (resolved K br s vid a v)))"
proof -
  have "ingress_resolve K br s vid =
    (if ubr_vec_test (vl_members v) (unat (cb_pidx (skb_cb (resolved K br s vid a v))))
     then ingress_out br (resolved K br s vid a v)
     else Inr (False, Some (resolved K br s vid a v)))"
    using assms by (cases "vid = 0")
      (simp_all add: ingress_resolve_def frame_vlan_def vlan_find_total(1) resolved_def
        set_frame_vlan_def Let_def)
  then show ?thesis using assms(3) by (simp add: ingress_out_eq)
qed

lemma classify_Some:
  assumes "helpers_ok K" "ingress_classify K br s = Some (s', vid)"
  shows "keeps_frame s s'"
    and "vid \<noteq> 0 \<Longrightarrow> s' = s \<and> skb_vlan_tag_present s \<and> vid = skb_vlan_tag_get_id s \<and>
          htons K (skb_vlan_proto s) = br_vlan_proto br"
  using assms helpers_okD(2) [OF assms(1), of s]
  by (auto simp: ingress_classify_def keeps_frame_def split: if_splits option.splits)

lemma untag_Some:
  "helpers_ok K \<Longrightarrow> ingress_untag K br s = Inr (Some s') \<Longrightarrow> keeps_frame s s'"
  using helpers_okD(1) [of K s s']
  by (auto simp: ingress_untag_def keeps_frame_def split: if_splits skb_result.splits)

text \<open>A frame the stage lets through has its VLAN, and its vector is narrowed to the members.\<close>

lemma ingress_accepts:
  assumes K: "helpers_ok K" and ok: "vlan_table_ok K br"
    and live: "\<And>a. cb_vlan (skb_cb s) = Some a \<Longrightarrow> br_heap br a \<noteq> None"
    and acc: "ubr_vlan_ingress K br s = Inr (True, so)"
  obtains s' a v where "so = Some s'" "br_heap br a = Some v"
    "skb_cb s' = (skb_cb s)\<lparr>cb_vlan := Some a,
        cb_vec := ubr_vec_and (cb_vec (skb_cb s)) (vl_members v)\<rparr>"
    "skb_h_dest s' = skb_h_dest s" "skb_h_source s' = skb_h_source s" "skb_dev s' = skb_dev s"
    "\<not> cb_vlan_filtering (skb_cb s) \<Longrightarrow> cb_vlan (skb_cb s) = Some a \<and> s' = narrow (vl_members v) s"
    "cb_vlan_filtering (skb_cb s) \<Longrightarrow>
       ubr_vec_test (vl_members v) (unat (cb_pidx (skb_cb s))) \<and>
       skb_vlan_tag_present s' \<and> skb_vlan_proto s' = htons K (br_vlan_proto br) \<and>
       (skb_vlan_tci s' = vl_vid v \<and> cb_vlan (skb_cb s) = Some a \<or>
        skb_vlan_tag_get_id s' = vl_vid v \<and> vlan_of K br (vl_vid v) = Some a)"
proof (cases "cb_vlan_filtering (skb_cb s)")
  case False
  then obtain a v where "cb_vlan (skb_cb s) = Some a" "br_heap br a = Some v"
    "so = Some (narrow (vl_members v) s)"
    using acc by (auto simp: ubr_vlan_ingress_def ingress_out_def narrow_def res_simps Let_def)
  then show thesis using False by (intro that [of "narrow (vl_members v) s" a v]) auto
next
  case True
  with acc obtain s1 s2 vid where 1: "ingress_untag K br s = Inr (Some s1)"
    and 2: "ingress_classify K br s1 = Some (s2, vid)"
    and 3: "ingress_resolve K br s2 vid = Inr (True, so)"
    by (auto simp: ubr_vlan_ingress_def res_simps split: option.splits)
  have keep: "keeps_frame s s2"
    using untag_Some [OF K 1] classify_Some(1) [OF K 2] by (rule keeps_frame_trans)
  then have cb: "skb_cb s2 = skb_cb s" by (simp add: keeps_frame_def)
  obtain a where a: "frame_vlan K br s2 vid = Some a"
    using resolve_none [OF ok, of s2 vid] 3 by (cases "frame_vlan K br s2 vid") auto
  obtain v where v: "br_heap br a = Some v" and vid: "vid \<noteq> 0 \<Longrightarrow> vl_vid v = vid"
    using a live [of a] vlan_of_SomeD(1) [OF ok, of vid a]
    by (cases "br_heap br a") (auto simp: frame_vlan_def cb split: if_splits)
  from resolve_some [OF ok a v] 3
  have so: "so = Some (narrow (vl_members v) (resolved K br s2 vid a v))"
    and mem: "ubr_vec_test (vl_members v) (unat (cb_pidx (skb_cb s)))"
    by (auto simp: cb split: if_splits)
  show thesis
  proof (rule that [OF so v])
    show "cb_vlan_filtering (skb_cb s) \<Longrightarrow>
       ubr_vec_test (vl_members v) (unat (cb_pidx (skb_cb s))) \<and>
       skb_vlan_tag_present (narrow (vl_members v) (resolved K br s2 vid a v)) \<and>
       skb_vlan_proto (narrow (vl_members v) (resolved K br s2 vid a v)) = htons K (br_vlan_proto br) \<and>
       (skb_vlan_tci (narrow (vl_members v) (resolved K br s2 vid a v)) = vl_vid v \<and>
          cb_vlan (skb_cb s) = Some a \<or>
        skb_vlan_tag_get_id (narrow (vl_members v) (resolved K br s2 vid a v)) = vl_vid v \<and>
          vlan_of K br (vl_vid v) = Some a)"
    proof (cases "vid = 0")
      case True
      then show ?thesis using mem a by (simp add: resolved_def Let_def frame_vlan_def cb)
    next
      case False
      with classify_Some(2) [OF K 2] htons_involutive [of K "skb_vlan_proto s2"] vid a mem
      show ?thesis
        by (auto simp: resolved_def Let_def frame_vlan_def skb_vlan_tag_get_id_def)
    qed
  qed (use keep True in \<open>auto simp: keeps_frame_def\<close>)
qed


text \<open>Accepted or not, the stage writes the VLAN and the vector of the control buffer only.\<close>

definition same_but_vlan :: "sk_buff \<Rightarrow> sk_buff \<Rightarrow> bool" where
  "same_but_vlan s s' \<longleftrightarrow>
     (\<exists>vl vec. skb_cb s' = (skb_cb s)\<lparr>cb_vlan := vl, cb_vec := vec\<rparr>) \<and>
     skb_h_dest s' = skb_h_dest s \<and> skb_h_source s' = skb_h_source s \<and> skb_dev s' = skb_dev s"

lemma same_but_vlan_refl: "same_but_vlan s s"
  unfolding same_but_vlan_def
  by (intro conjI exI [of _ "cb_vlan (skb_cb s)"] exI [of _ "cb_vec (skb_cb s)"]) simp_all

lemma out_same: "ingress_out br s = Inr (b, Some s') \<Longrightarrow> same_but_vlan s s'"
  unfolding same_but_vlan_def
  by (auto simp: ingress_out_def res_simps Let_def
      intro!: exI [of _ "cb_vlan (skb_cb s)"] exI [of _ "cb_vec (skb_cb s')"])

lemma resolve_same:
  assumes "ingress_resolve K br s vid = Inr (b, Some s')" shows "same_but_vlan s s'"
proof -
  obtain vl where vl: "(let s1 = s\<lparr>skb_cb := (skb_cb s)\<lparr>cb_vlan := vl\<rparr>\<rparr> in
      case vl of None \<Rightarrow> Inr (False, Some s1)
      | Some a \<Rightarrow> andthen (vlan_at br a) (\<lambda>v.
          let s2 = (if vid \<noteq> 0 then s1
                    else vlan_hwaccel_put_tag s1 (htons K (br_vlan_proto br)) (vl_vid v))
          in if ubr_vec_test (vl_members v) (unat (cb_pidx (skb_cb s2)))
             then ingress_out br s2 else Inr (False, Some s2))) = Inr (b, Some s')"
    using assms unfolding ingress_resolve_def Let_def andthen_Inr_iff by blast
  show ?thesis
  proof (cases vl)
    case None
    with vl show ?thesis
      by (auto simp: same_but_vlan_def Let_def
          intro!: exI [of _ None] exI [of _ "cb_vec (skb_cb s)"])
  next
    case (Some a)
    then obtain v where "(let s2 = resolved K br s vid a v in
        if ubr_vec_test (vl_members v) (unat (cb_pidx (skb_cb s2)))
        then ingress_out br s2 else Inr (False, Some s2)) = Inr (b, Some s')"
      using vl by (auto simp: Let_def res_simps resolved_def set_frame_vlan_def)
    then have "same_but_vlan (resolved K br s vid a v) s'"
      using out_same [of br "resolved K br s vid a v" b s']
        same_but_vlan_refl [of "resolved K br s vid a v"]
      by (auto simp: Let_def split: if_splits)
    then show ?thesis by (auto simp: same_but_vlan_def)
  qed
qed

lemma ingress_same:
  assumes K: "helpers_ok K" and r: "ubr_vlan_ingress K br s = Inr (b, Some s')"
  shows "same_but_vlan s s'"
proof (cases "cb_vlan_filtering (skb_cb s)")
  case False
  with r show ?thesis by (simp add: ubr_vlan_ingress_def out_same)
next
  case True
  with r obtain s1 s2 vid where 1: "ingress_untag K br s = Inr (Some s1)"
    and 2: "ingress_classify K br s1 = Some (s2, vid)"
    and 3: "ingress_resolve K br s2 vid = Inr (b, Some s')"
    by (auto simp: ubr_vlan_ingress_def res_simps split: option.splits)
  have "keeps_frame s s2"
    using untag_Some [OF K 1] classify_Some(1) [OF K 2] by (rule keeps_frame_trans)
  with resolve_same [OF 3] show ?thesis by (auto simp: same_but_vlan_def keeps_frame_def)
qed

text \<open>
  The VLAN a frame with a given control buffer ends up in, \<open>None\<close> when there is none or the
  frame is lost on the way, and the stage in terms of it.
\<close>

definition ingress_vlan :: "kernel \<Rightarrow> ubr \<Rightarrow> sk_buff \<Rightarrow> addr option" where
  "ingress_vlan K br s =
     (if \<not> cb_vlan_filtering (skb_cb s) then cb_vlan (skb_cb s)
      else case ingress_untag K br s of
        Inr (Some s1) \<Rightarrow>
          (case ingress_classify K br s1 of
             Some (s2, vid) \<Rightarrow> frame_vlan K br s2 vid
           | None \<Rightarrow> None)
      | _ \<Rightarrow> None)"

lemma ingress_known:
  assumes K: "helpers_ok K" and ok: "vlan_table_ok K br"
    and a: "ingress_vlan K br s = Some a" and v: "br_heap br a = Some v"
  obtains allow s0 where "ubr_vlan_ingress K br s = Inr (allow, Some s0)"
    "cb_vlan (skb_cb s0) = Some a" "cb_ctrl (skb_cb s0) = cb_ctrl (skb_cb s)"
    "allow \<longleftrightarrow> (cb_vlan_filtering (skb_cb s) \<longrightarrow>
                ubr_vec_test (vl_members v) (unat (cb_pidx (skb_cb s))))"
    "allow \<Longrightarrow> cb_vec (skb_cb s0) = ubr_vec_and (cb_vec (skb_cb s)) (vl_members v)"
proof (cases "cb_vlan_filtering (skb_cb s)")
  case False
  with a v show thesis
    by (intro that [of True "narrow (vl_members v) s"])
      (simp_all add: ubr_vlan_ingress_def ingress_vlan_def ingress_out_eq)
next
  case True
  with a obtain s1 s2 vid where 1: "ingress_untag K br s = Inr (Some s1)"
    and 2: "ingress_classify K br s1 = Some (s2, vid)" and 3: "frame_vlan K br s2 vid = Some a"
    by (auto simp: ingress_vlan_def split: sum.splits option.splits prod.splits)
  have "keeps_frame s s2"
    using untag_Some [OF K 1] classify_Some(1) [OF K 2] by (rule keeps_frame_trans)
  then have cb: "skb_cb s2 = skb_cb s" by (simp add: keeps_frame_def)
  let ?r = "resolved K br s2 vid a v"
  let ?in = "ubr_vec_test (vl_members v) (unat (cb_pidx (skb_cb s)))"
  have "ubr_vlan_ingress K br s = Inr (?in, Some (if ?in then narrow (vl_members v) ?r else ?r))"
    using True resolve_some [OF ok 3 v] by (simp add: ubr_vlan_ingress_def 1 2 cb)
  then show thesis
    by (rule that) (simp_all add: cb True)
qed

lemma ingress_lost:
  assumes K: "helpers_ok K" and ok: "vlan_table_ok K br"
    and filt: "cb_vlan_filtering (skb_cb s)" and none: "ingress_vlan K br s = None"
  shows "(\<exists>e. ubr_vlan_ingress K br s = Inl e) \<or> ubr_vlan_ingress K br s = Inr (False, None) \<or>
    (\<exists>s0. ubr_vlan_ingress K br s = Inr (False, Some s0) \<and> cb_vlan (skb_cb s0) = None \<and>
          cb_ctrl (skb_cb s0) = cb_ctrl (skb_cb s))"
proof (cases "ingress_untag K br s")
  case (Inl e)
  with filt show ?thesis by (simp add: ubr_vlan_ingress_def)
next
  case (Inr so)
  show ?thesis
  proof (cases so)
    case None
    with Inr filt show ?thesis by (simp add: ubr_vlan_ingress_def)
  next
    case (Some s1)
    with Inr have 1: "ingress_untag K br s = Inr (Some s1)" by simp
    show ?thesis
    proof (cases "ingress_classify K br s1")
      case None
      with 1 filt show ?thesis by (simp add: ubr_vlan_ingress_def)
    next
      case 2: (Some x)
      obtain s2 vid where x: "x = (s2, vid)" by (cases x)
      have "keeps_frame s s2"
        using untag_Some [OF K 1] classify_Some(1) [OF K 2 [unfolded x]]
        by (rule keeps_frame_trans)
      moreover have "frame_vlan K br s2 vid = None"
        using none filt 1 2 x by (simp add: ingress_vlan_def)
      ultimately show ?thesis
        using filt 1 2 x by (simp add: ubr_vlan_ingress_def resolve_none [OF ok] keeps_frame_def)
    qed
  qed
qed

end
