(* ===== verification/Ubr_Fdb.thy ===== *)
theory Ubr_Fdb
  imports Ubr_Types
begin

unbundle bit_operations_syntax

text \<open>
  The forwarding database (kernel/ubr-fdb.c): learning of source addresses, lookup of
  destinations with the flood fallback, flushing and ageing. The hash table is a partial map
  from addresses to nodes; a walk over it is the list of what the walker hands out.
\<close>

section \<open>Ageing\<close>

text \<open>
  \<^verbatim>\<open>time_is_before_jiffies(t)\<close> is \<open>(long)(t - jiffies) < 0\<close>: right as long as the two are
  less than half the counter's range apart.
\<close>

definition time_is_before_jiffies :: "u64 \<Rightarrow> u64 \<Rightarrow> bool" where
  "time_is_before_jiffies jiffies t = (sint (t - jiffies) < 0)"

definition ubr_fdb_node_is_old :: "u64 \<Rightarrow> ubr_fdb \<Rightarrow> ubr_fdb_node \<Rightarrow> bool" where
  "ubr_fdb_node_is_old jiffies fdb node =
     (n_proto node = UBR_FDB_DYNAMIC \<and>
      time_is_before_jiffies jiffies (n_tstamp node + f_ageing_timeout fdb))"

section \<open>Flushing\<close>

text \<open>
  What \<^verbatim>\<open>rhashtable_walk_next\<close> returns: a node (named by its key), \<open>-EAGAIN\<close> while the
  table is being resized, or another error. The end of the list is the NULL that ends a walk.
\<close>

datatype walk_item = WalkNode ubr_fdb_addr | WalkAgain | WalkErr int

definition flush_match :: "u64 \<Rightarrow> ubr_fdb \<Rightarrow> ubr_fdb_flush_op \<Rightarrow> ubr_fdb_node \<Rightarrow> bool" where
  "flush_match jiffies fdb opn node =
     (if op_per_port opn \<and> \<not> ubr_vec_test (n_vec node) (unat (op_pidx opn)) then False
      else if op_per_vlan opn \<and> a_vid (n_addr node) \<noteq> op_vid opn then False
      else if op_per_proto opn \<and> n_proto node \<noteq> op_proto opn then False
      else if op_per_proto opn \<and> op_proto opn = UBR_FDB_DYNAMIC \<and> op_old opn \<and>
              \<not> ubr_fdb_node_is_old jiffies fdb node then False
      else True)"

definition fdb_remove :: "ubr_fdb_addr \<Rightarrow> ubr_fdb \<Rightarrow> ubr_fdb" where
  "fdb_remove k fdb = fdb\<lparr>f_nodes := (f_nodes fdb)(k := None)\<rparr>"

fun ubr_fdb_flush ::
  "u64 \<Rightarrow> ubr_fdb_flush_op \<Rightarrow> walk_item list \<Rightarrow> ubr_fdb \<Rightarrow> int \<times> ubr_fdb" where
  "ubr_fdb_flush jiffies opn [] fdb = (0, fdb)"
| "ubr_fdb_flush jiffies opn (WalkAgain # ws) fdb = ubr_fdb_flush jiffies opn ws fdb"
| "ubr_fdb_flush jiffies opn (WalkErr e # ws) fdb = (e, fdb)"
| "ubr_fdb_flush jiffies opn (WalkNode k # ws) fdb =
     (case f_nodes fdb k of
        None \<Rightarrow> ubr_fdb_flush jiffies opn ws fdb
      | Some node \<Rightarrow>
          ubr_fdb_flush jiffies opn ws
            (if flush_match jiffies fdb opn node then fdb_remove k fdb else fdb))"

definition flush_all_op :: ubr_fdb_flush_op where
  "flush_all_op = \<lparr>op_per_port = False, op_pidx = 0, op_per_vlan = False, op_vid = 0,
     op_per_proto = False, op_proto = UBR_FDB_DYNAMIC, op_old = False\<rparr>"

definition age_op :: ubr_fdb_flush_op where
  "age_op = flush_all_op\<lparr>op_per_proto := True, op_proto := UBR_FDB_DYNAMIC, op_old := True\<rparr>"

text \<open>The ageing work: flush the old dynamic nodes and queue itself again.\<close>

definition ubr_fdb_age :: "u64 \<Rightarrow> walk_item list \<Rightarrow> ubr_fdb \<Rightarrow> ubr_fdb" where
  "ubr_fdb_age jiffies walk fdb =
     (let fdb' = snd (ubr_fdb_flush jiffies age_op walk fdb)
      in fdb'\<lparr>f_age_work := Some (jiffies + f_ageing_timeout fdb' div 2)\<rparr>)"

section \<open>Learning and lookup\<close>

definition src_key :: "u16 \<Rightarrow> sk_buff \<Rightarrow> ubr_fdb_addr" where
  "src_key vid s = \<lparr>a_addr = UBR_ADDR_MAC (skb_h_source s), a_vid = vid\<rparr>"

definition ubr_fdb_learn :: "frame_env \<Rightarrow> ubr_vlan \<Rightarrow> sk_buff \<Rightarrow> ubr_fdb \<Rightarrow> ubr_fdb" where
  "ubr_fdb_learn E v s fdb =
     (let cb = skb_cb s; key = src_key (vl_vid v) s; pidx = unat (cb_pidx cb) in
      if \<not> is_valid_ether_addr (skb_h_source s) then fdb
      else case f_nodes fdb key of
        Some node \<Rightarrow>
          if n_proto node \<noteq> UBR_FDB_DYNAMIC then fdb
          else
            let node1 = (if \<not> ubr_vec_test (n_vec node) pidx
                         then node\<lparr>n_vec := ubr_vec_set pidx ubr_vec_zero\<rparr> else node)
            in fdb\<lparr>f_nodes := (f_nodes fdb)(key := Some (node1\<lparr>n_tstamp := fe_jiffies E\<rparr>))\<rparr>
      | None \<Rightarrow>
          if \<not> fe_node_alloc E then fdb
          else
            let node = \<lparr>n_addr = key, n_vec = ubr_vec_set pidx 0, n_proto = UBR_FDB_DYNAMIC,
                        n_offloaded = False, n_tstamp = fe_jiffies E\<rparr>
            in if fe_insert_err E \<noteq> 0 then fdb
               else fdb\<lparr>f_nodes := (f_nodes fdb)(key := Some node)\<rparr>)"

text \<open>
  The key a destination is looked up with: a group address of an IP packet by the IP group,
  everything else by the MAC address.
\<close>

definition dst_key :: "kernel \<Rightarrow> u16 \<Rightarrow> sk_buff \<Rightarrow> ubr_fdb_addr" where
  "dst_key K vid s =
     \<lparr>a_addr =
        (if is_multicast_ether_addr (skb_h_dest s) \<and> skb_protocol s = htons K ETH_P_IP
         then UBR_ADDR_IP4 (skb_ip_daddr s)
         else if is_multicast_ether_addr (skb_h_dest s) \<and> k_config_ipv6 K \<and>
                 skb_protocol s = htons K ETH_P_IPV6
         then UBR_ADDR_IP6 (skb_ip6_daddr s)
         else UBR_ADDR_MAC (skb_h_dest s)),
      a_vid = vid\<rparr>"

definition flood_filter :: "ubr_vlan \<Rightarrow> sk_buff \<Rightarrow> ubr_vec" where
  "flood_filter v s =
     (if is_multicast_ether_addr (skb_h_dest s)
      then if is_broadcast_ether_addr (skb_h_dest s) then vl_bcflood v else vl_mcflood v
      else vl_ucflood v)"

definition fdb_filter :: "kernel \<Rightarrow> frame_env \<Rightarrow> ubr_vlan \<Rightarrow> sk_buff \<Rightarrow> ubr_fdb \<Rightarrow> ubr_vec" where
  "fdb_filter K E v s fdb =
     (case f_nodes fdb (dst_key K (vl_vid v) s) of
        Some node \<Rightarrow> if ubr_fdb_node_is_old (fe_jiffies E) fdb node then flood_filter v s
                     else n_vec node
      | None \<Rightarrow> flood_filter v s)"

text \<open>
  The stage learns, then narrows the egress vector. It dereferences the frame's VLAN first
  of all, on every path.
\<close>

definition ubr_fdb_forward ::
  "kernel \<Rightarrow> frame_env \<Rightarrow> ubr \<Rightarrow> sk_buff \<Rightarrow> (bool \<times> ubr \<times> sk_buff) res" where
  "ubr_fdb_forward K E br s =
     andthen (vlan_deref br (cb_vlan (skb_cb s))) (\<lambda>v.
       let cb = skb_cb s;
           fdb = (if cb_sa_learning cb \<and> vl_sa_learning v
                  then ubr_fdb_learn E v s (br_fdb br) else br_fdb br)
       in Inr (True, br\<lparr>br_fdb := fdb\<rparr>,
            s\<lparr>skb_cb := cb\<lparr>cb_vec := ubr_vec_and (cb_vec cb) (fdb_filter K E v s fdb)\<rparr>\<rparr>))"

section \<open>Creation and removal\<close>

definition ubr_fdb_newlink :: "kernel \<Rightarrow> u64 \<Rightarrow> int \<Rightarrow> ubr_fdb \<Rightarrow> int \<times> ubr_fdb" where
  "ubr_fdb_newlink K jiffies rht_err fdb =
     (let fdb1 = fdb\<lparr>f_ageing_timeout := k_msecs_to_jiffies K (300 * 1000)\<rparr> in
      if rht_err \<noteq> 0 then (rht_err, fdb1)
      else (0, fdb1\<lparr>f_nodes := (\<lambda>_. None),
                    f_age_work := Some (jiffies + f_ageing_timeout fdb1 div 2)\<rparr>))"

text \<open>
  \<^verbatim>\<open>rhashtable_destroy\<close> frees the table and not the nodes on it, so the flush before it
  has to leave none: the model keeps what the flush left.
\<close>

definition ubr_fdb_dellink :: "u64 \<Rightarrow> walk_item list \<Rightarrow> ubr_fdb \<Rightarrow> ubr_fdb" where
  "ubr_fdb_dellink jiffies walk fdb =
     snd (ubr_fdb_flush jiffies flush_all_op walk (fdb\<lparr>f_age_work := None\<rparr>))"

section \<open>The interface: a table of stations\<close>

text \<open>
  What forwarding relies on: learning a station affects its own entry only, leaves an entry
  that is not dynamic alone, and otherwise leaves a dynamic entry that has the port in it and,
  if the station was not known there before, no other port.
\<close>

locale station_table =
  fixes node :: "'db \<Rightarrow> 'k \<Rightarrow> 'n option"
    and dyn :: "'n \<Rightarrow> bool"
    and on_port :: "'n \<Rightarrow> nat \<Rightarrow> bool"
    and learn :: "'k \<Rightarrow> nat \<Rightarrow> 'db \<Rightarrow> 'db"
    and cap :: nat
  assumes learn_other: "k' \<noteq> k \<Longrightarrow> node (learn k i db) k' = node db k'"
    and learn_fixed: "node db k = Some n \<Longrightarrow> \<not> dyn n \<Longrightarrow> learn k i db = db"
    and learn_dyn: "(\<And>n. node db k = Some n \<Longrightarrow> dyn n) \<Longrightarrow> i < cap \<Longrightarrow>
      \<exists>n. node (learn k i db) k = Some n \<and> dyn n \<and> on_port n i"
    and learn_moves: "(\<And>n. node db k = Some n \<Longrightarrow> dyn n \<and> \<not> on_port n i) \<Longrightarrow> i < cap \<Longrightarrow>
      node (learn k i db) k = Some n' \<Longrightarrow> on_port n' j \<longleftrightarrow> j = i"
begin

text \<open>An entry that is not dynamic survives any sequence of learning.\<close>

lemma fixed_survives:
  "node db k = Some n \<Longrightarrow> \<not> dyn n \<Longrightarrow> node (fold (\<lambda>(k', i). learn k' i) ks db) k = Some n"
proof (induction ks arbitrary: db)
  case Nil
  then show ?case by simp
next
  case (Cons x ks)
  obtain k' i where x: "x = (k', i)" by (cases x)
  have "node (learn k' i db) k = Some n"
    using Cons.prems learn_other learn_fixed by (cases "k' = k") auto
  with Cons.IH [of "learn k' i db"] Cons.prems(2) show ?case by (simp add: x)
qed

text \<open>A dynamic entry stays dynamic, so the station can always be learned again.\<close>

lemma dyn_stays:
  assumes "\<And>n. node db k = Some n \<Longrightarrow> dyn n" "i < cap" "node (learn k' i db) k = Some n"
  shows "dyn n"
proof (cases "k' = k")
  case True
  from learn_dyn [OF assms(1,2)] obtain m where "node (learn k i db) k = Some m" "dyn m" by blast
  with assms(3) True show ?thesis by simp
next
  case False
  with assms(3) have "node db k = Some n" by (simp add: learn_other)
  then show ?thesis by (rule assms(1))
qed

text \<open>The station is where it was last heard, whatever other stations do in between.\<close>

lemma last_heard:
  assumes "\<And>n. node db k = Some n \<Longrightarrow> dyn n" "i < cap" and "\<forall>(k', j) \<in> set ks. k' \<noteq> k"
  shows "\<exists>n. node (fold (\<lambda>(k', i). learn k' i) ks (learn k i db)) k = Some n \<and> on_port n i"
proof -
  have "node (fold (\<lambda>(k', i). learn k' i) ks d) k = node d k"
    if "\<forall>(k', j) \<in> set ks. k' \<noteq> k" for d
    using that by (induction ks arbitrary: d) (auto simp: learn_other)
  with learn_dyn [of db k i] assms show ?thesis by auto
qed

lemma learn_two_ports:
  assumes "\<And>n. node db k = Some n \<Longrightarrow> dyn n \<and> \<not> on_port n i" "i < cap" "j < cap" "i \<noteq> j"
    and "node (learn k j (learn k i db)) k = Some n"
  shows "on_port n x \<longleftrightarrow> x = j"
proof (rule learn_moves [OF _ assms(3,5)])
  fix m assume m: "node (learn k i db) k = Some m"
  have "dyn m" using dyn_stays [OF _ assms(2) m] assms(1) by blast
  moreover have "\<not> on_port m j"
    using learn_moves [OF assms(1,2) m] assms(4) by auto
  ultimately show "dyn m \<and> \<not> on_port m j" ..
qed

end

section \<open>The hash table provides it\<close>

text \<open>Learning when the node can be allocated and inserted.\<close>

definition learn_key :: "u64 \<Rightarrow> ubr_fdb_addr \<Rightarrow> nat \<Rightarrow> ubr_fdb \<Rightarrow> ubr_fdb" where
  "learn_key jiffies key pidx fdb =
     (case f_nodes fdb key of
        Some node \<Rightarrow>
          if n_proto node \<noteq> UBR_FDB_DYNAMIC then fdb
          else fdb\<lparr>f_nodes := (f_nodes fdb)(key := Some
                 (node\<lparr>n_vec := (if ubr_vec_test (n_vec node) pidx then n_vec node
                                else ubr_vec_set pidx ubr_vec_zero),
                       n_tstamp := jiffies\<rparr>))\<rparr>
      | None \<Rightarrow> fdb\<lparr>f_nodes := (f_nodes fdb)(key := Some
          \<lparr>n_addr = key, n_vec = ubr_vec_set pidx 0, n_proto = UBR_FDB_DYNAMIC,
           n_offloaded = False, n_tstamp = jiffies\<rparr>)\<rparr>)"

lemma fdb_learn_eq:
  assumes "fe_node_alloc E" "fe_insert_err E = 0" "is_valid_ether_addr (skb_h_source s)"
  shows "ubr_fdb_learn E v s fdb =
    learn_key (fe_jiffies E) (src_key (vl_vid v) s) (unat (cb_pidx (skb_cb s))) fdb"
  using assms
  by (auto simp: ubr_fdb_learn_def learn_key_def Let_def split: option.split)

text \<open>On every other outcome of the two calls the table is as before or as learned.\<close>

lemma fdb_learn_cases:
  "ubr_fdb_learn E v s fdb = fdb \<or>
   is_valid_ether_addr (skb_h_source s) \<and>
   ubr_fdb_learn E v s fdb =
     learn_key (fe_jiffies E) (src_key (vl_vid v) s) (unat (cb_pidx (skb_cb s))) fdb"
  by (auto simp: ubr_fdb_learn_def learn_key_def Let_def split: option.split)

lemma learn_key_other: "k' \<noteq> k \<Longrightarrow> f_nodes (learn_key j k i fdb) k' = f_nodes fdb k'"
  by (auto simp: learn_key_def split: option.split)

lemma learn_key_fixed:
  "f_nodes fdb k = Some n \<Longrightarrow> n_proto n \<noteq> UBR_FDB_DYNAMIC \<Longrightarrow> learn_key j k i fdb = fdb"
  by (simp add: learn_key_def)

lemma set_zero_test: "i < 256 \<Longrightarrow> ubr_vec_test (ubr_vec_set i ubr_vec_zero) j \<longleftrightarrow> j = i"
  using pv.singleton [of i j] by (simp add: UBR_MAX_PORTS_256)

lemma zero_vec: "ubr_vec_zero = 0"
  by (simp add: ubr_vec_zero_def)

lemma learn_key_node:
  assumes "\<And>n. f_nodes fdb k = Some n \<Longrightarrow> n_proto n = UBR_FDB_DYNAMIC" "i < 256"
  shows "\<exists>n. f_nodes (learn_key j k i fdb) k = Some n \<and> n_proto n = UBR_FDB_DYNAMIC \<and>
    ubr_vec_test (n_vec n) i \<and> n_tstamp n = j"
  using assms set_zero_test [of i]
  by (auto simp: learn_key_def zero_vec split: option.split)

interpretation fdb: station_table "f_nodes :: ubr_fdb \<Rightarrow> _" "\<lambda>n. n_proto n = UBR_FDB_DYNAMIC"
    "\<lambda>n. ubr_vec_test (n_vec n)" "learn_key j" UBR_MAX_PORTS
  for j
proof unfold_locales
  fix db :: ubr_fdb and k i
  assume "\<And>n. f_nodes db k = Some n \<Longrightarrow> n_proto n = UBR_FDB_DYNAMIC" "i < UBR_MAX_PORTS"
  then show "\<exists>n. f_nodes (learn_key j k i db) k = Some n \<and> n_proto n = UBR_FDB_DYNAMIC \<and>
      ubr_vec_test (n_vec n) i"
    using learn_key_node [of db k i j] by (auto simp: UBR_MAX_PORTS_256)
next
  fix db :: ubr_fdb and k i n' x
  assume "\<And>n. f_nodes db k = Some n \<Longrightarrow>
      n_proto n = UBR_FDB_DYNAMIC \<and> \<not> ubr_vec_test (n_vec n) i"
    and "i < UBR_MAX_PORTS" and "f_nodes (learn_key j k i db) k = Some n'"
  then show "ubr_vec_test (n_vec n') x \<longleftrightarrow> x = i"
    using set_zero_test [of i x]
    by (auto simp: learn_key_def UBR_MAX_PORTS_256 zero_vec split: option.splits)
qed (auto simp: learn_key_other learn_key_fixed)

section \<open>The table's invariant\<close>

text \<open>
  A node sits under its own address, and a learned one has exactly one port.
\<close>

definition fdb_ok :: "ubr_fdb \<Rightarrow> bool" where
  "fdb_ok fdb \<longleftrightarrow>
     (\<forall>k n. f_nodes fdb k = Some n \<longrightarrow>
        n_addr n = k \<and>
        (n_proto n = UBR_FDB_DYNAMIC \<longrightarrow> (\<exists>i<256. n_vec n = ubr_vec_set i ubr_vec_zero)))"

lemma learn_key_ok: "fdb_ok fdb \<Longrightarrow> i < 256 \<Longrightarrow> fdb_ok (learn_key j k i fdb)"
  by (auto simp: fdb_ok_def learn_key_def zero_vec split: option.split)

lemma fdb_learn_ok: "fdb_ok fdb \<Longrightarrow> fdb_ok (ubr_fdb_learn E v s fdb)"
  using fdb_learn_cases [of E v s fdb] learn_key_ok [of fdb] by force

lemma fdb_learn_timeout [simp]:
  "f_ageing_timeout (ubr_fdb_learn E v s fdb) = f_ageing_timeout fdb"
  by (auto simp: ubr_fdb_learn_def Let_def split: option.split)

text \<open>After learning under the invariant the station is on the port and nowhere else.\<close>

lemma learn_key_exact:
  assumes "fdb_ok fdb" "i < 256" "\<And>n. f_nodes fdb k = Some n \<Longrightarrow> n_proto n = UBR_FDB_DYNAMIC"
  obtains n where "f_nodes (learn_key j k i fdb) k = Some n" "n_proto n = UBR_FDB_DYNAMIC"
    "n_tstamp n = j" "n_vec n = ubr_vec_set i ubr_vec_zero"
proof -
  obtain n where n: "f_nodes (learn_key j k i fdb) k = Some n" "n_proto n = UBR_FDB_DYNAMIC"
    "ubr_vec_test (n_vec n) i" "n_tstamp n = j"
    using learn_key_node [of fdb k i j] assms(2,3) by blast
  moreover have "\<exists>i'<256. n_vec n = ubr_vec_set i' ubr_vec_zero"
    using learn_key_ok [OF assms(1,2), of j k] n(1,2) unfolding fdb_ok_def by blast
  then obtain i' where "i' < 256" "n_vec n = ubr_vec_set i' ubr_vec_zero" by blast
  ultimately show thesis
    using set_zero_test [of i' i] that by auto
qed

section \<open>Flushing\<close>

lemma flush_match_cong:
  "f_ageing_timeout fdb' = f_ageing_timeout fdb \<Longrightarrow>
     flush_match j fdb' opn n = flush_match j fdb opn n"
  by (simp add: flush_match_def ubr_fdb_node_is_old_def)

lemma flush_match_remove [simp]:
  "flush_match j (fdb_remove k fdb) opn n = flush_match j fdb opn n"
  by (rule flush_match_cong) (simp add: fdb_remove_def)

lemma fdb_remove_simps [simp]:
  "f_nodes (fdb_remove k fdb) = (f_nodes fdb)(k := None)"
  "f_ageing_timeout (fdb_remove k fdb) = f_ageing_timeout fdb"
  "f_age_work (fdb_remove k fdb) = f_age_work fdb"
  by (simp_all add: fdb_remove_def)

text \<open>The nodes a flush is to remove, and the table without them.\<close>

definition flush_spec :: "u64 \<Rightarrow> ubr_fdb_flush_op \<Rightarrow> ubr_fdb \<Rightarrow> ubr_fdb_addr set \<Rightarrow>
    ubr_fdb_addr \<Rightarrow> ubr_fdb_node option" where
  "flush_spec j opn fdb seen k =
     (case f_nodes fdb k of
        None \<Rightarrow> None
      | Some n \<Rightarrow> if k \<in> seen \<and> flush_match j fdb opn n then None else Some n)"

definition walked :: "walk_item list \<Rightarrow> ubr_fdb_addr set" where
  "walked ws = {k. WalkNode k \<in> set ws}"

lemma walked_simps [simp]:
  "walked [] = {}" "walked (WalkNode k # ws) = insert k (walked ws)"
  "walked (WalkAgain # ws) = walked ws"
  by (auto simp: walked_def)

lemma flush_frame [simp]:
  "f_ageing_timeout (snd (ubr_fdb_flush j opn ws fdb)) = f_ageing_timeout fdb"
  "f_age_work (snd (ubr_fdb_flush j opn ws fdb)) = f_age_work fdb"
  by (induction j opn ws fdb rule: ubr_fdb_flush.induct) (auto split: option.split)

lemma flush_result:
  assumes "\<forall>w \<in> set ws. \<forall>e. w \<noteq> WalkErr e"
  shows "fst (ubr_fdb_flush j opn ws fdb) = 0"
    and "f_nodes (snd (ubr_fdb_flush j opn ws fdb)) = flush_spec j opn fdb (walked ws)"
  using assms
proof (induction j opn ws fdb rule: ubr_fdb_flush.induct)
  case (4 j opn k ws fdb)
  {
    case 1
    with 4 show ?case by (auto split: option.split)
  next
    case 2
    with "4.IH"(2,4) show ?case
      by (auto simp: flush_spec_def fun_eq_iff split: option.split)
  }
qed (auto simp: flush_spec_def fun_eq_iff split: option.split)

text \<open>A walk that hands out every node: all the matching ones go, all the others stay.\<close>

lemma flush_complete:
  assumes "\<forall>w \<in> set ws. \<forall>e. w \<noteq> WalkErr e" "dom (f_nodes fdb) \<subseteq> walked ws"
  shows "f_nodes (snd (ubr_fdb_flush j opn ws fdb)) k =
    (case f_nodes fdb k of None \<Rightarrow> None
     | Some n \<Rightarrow> if flush_match j fdb opn n then None else Some n)"
  using assms(2) by (auto simp: flush_result(2) [OF assms(1)] flush_spec_def split: option.split)

text \<open>Whatever the walk returns, nothing is added and nothing that does not match is removed.\<close>

lemma flush_sound:
  "f_nodes (snd (ubr_fdb_flush j opn ws fdb)) k = Some n \<Longrightarrow> f_nodes fdb k = Some n"
  by (induction j opn ws fdb rule: ubr_fdb_flush.induct)
    (auto split: option.splits if_splits)

lemma flush_keeps:
  "f_nodes fdb k = Some n \<Longrightarrow> \<not> flush_match j fdb opn n \<Longrightarrow>
     f_nodes (snd (ubr_fdb_flush j opn ws fdb)) k = Some n"
proof (induction j opn ws fdb rule: ubr_fdb_flush.induct)
  case (4 j opn k' ws fdb)
  then show ?case by (cases "k' = k") (auto split: option.split)
qed auto

lemma flush_ok: "fdb_ok fdb \<Longrightarrow> fdb_ok (snd (ubr_fdb_flush j opn ws fdb))"
  using flush_sound [of j opn ws fdb] by (simp add: fdb_ok_def) blast

lemma flush_match_all: "flush_match j fdb flush_all_op n"
  by (simp add: flush_match_def flush_all_op_def)

lemma flush_match_age:
  "flush_match j fdb age_op n \<longleftrightarrow> ubr_fdb_node_is_old j fdb n"
  by (auto simp: flush_match_def age_op_def flush_all_op_def ubr_fdb_node_is_old_def)

lemma fdb_age_ok: "fdb_ok fdb \<Longrightarrow> fdb_ok (ubr_fdb_age j ws fdb)"
  using flush_ok [of fdb j age_op ws] by (simp add: ubr_fdb_age_def Let_def fdb_ok_def)

section \<open>Time\<close>

text \<open>
  With less than half the counter's range between learning and now, and such a timeout, a
  dynamic node is old exactly when more than the timeout has passed, also across a
  wrap-around of the clock.
\<close>

lemma sint_small_diff:
  fixes a b :: u64
  assumes "unat a < 2 ^ 63" "unat b < 2 ^ 63"
  shows "sint (a - b) < 0 \<longleftrightarrow> unat a < unat b"
proof -
  have below: "int (unat x) < 2 ^ 63" if "unat x < 2 ^ 63" for x :: u64
  proof -
    have "int (unat x) < int (2 ^ 63)" using that by (simp only: of_nat_less_iff)
    then show ?thesis by simp
  qed
  have s: "sint x = int (unat x)" if "unat x < 2 ^ 63" for x :: u64
  proof -
    have "- (2 ^ 63) \<le> int (unat x)" by (rule order_trans [of _ 0]) simp_all
    with below [OF that] have "signed_take_bit 63 (int (unat x)) = int (unat x)"
      by (intro signed_take_bit_int_eq_self)
    then show ?thesis by (simp add: sint_uint)
  qed
  have "sint (a - b) = signed_take_bit 63 (int (unat a) - int (unat b))"
    by (simp add: sint_word_diff s [OF assms(1)] s [OF assms(2)])
  also have "\<dots> = int (unat a) - int (unat b)"
    using below [OF assms(1)] below [OF assms(2)] of_nat_0_le_iff [of "unat a", where ?'a = int]
      of_nat_0_le_iff [of "unat b", where ?'a = int]
    by (intro signed_take_bit_int_eq_self) linarith+
  finally have "sint (a - b) = int (unat a) - int (unat b)" .
  then show ?thesis by linarith
qed

lemma node_old_iff:
  assumes "n_proto n = UBR_FDB_DYNAMIC" "unat (j - n_tstamp n) < 2 ^ 63"
    and "unat (f_ageing_timeout fdb) < 2 ^ 63"
  shows "ubr_fdb_node_is_old j fdb n \<longleftrightarrow> unat (f_ageing_timeout fdb) < unat (j - n_tstamp n)"
proof -
  have "n_tstamp n + f_ageing_timeout fdb - j = f_ageing_timeout fdb - (j - n_tstamp n)"
    by simp
  then have "time_is_before_jiffies j (n_tstamp n + f_ageing_timeout fdb) \<longleftrightarrow>
      unat (f_ageing_timeout fdb) < unat (j - n_tstamp n)"
    using sint_small_diff [OF assms(3,2)] by (simp only: time_is_before_jiffies_def)
  with assms(1) show ?thesis by (simp add: ubr_fdb_node_is_old_def)
qed

end
