(* ===== verification/Ubr_Forward.thy ===== *)
theory Ubr_Forward
  imports Ubr_Vlan Ubr_Fdb
begin

text \<open>
  The forwarding pipeline (kernel/ubr-forward.c): VLAN ingress, the FDB stage, the stages
  that are still stubs, and delivery to the ports left in the egress vector. What leaves the
  pipeline is the list of calls into the network stack, in the order they are made.
\<close>

section \<open>Egress\<close>

datatype tx =
    NetifReceive sk_buff
  | DevQueueXmit sk_buff
  | KfreeSkb sk_buff
  | DevForwardSkb sk_buff

text \<open>\<open>None\<close>: the egress stage freed the buffer.\<close>

definition egress_tag :: "kernel \<Rightarrow> ubr \<Rightarrow> sk_buff \<Rightarrow> nat \<Rightarrow> sk_buff res" where
  "egress_tag K br s pidx =
     (if cb_vlan_filtering (skb_cb s) then
        andthen (vlan_deref br (cb_vlan (skb_cb s))) (\<lambda>v.
          Inr (if ubr_vec_test (vl_tagged v) pidx
               then k_skb_vlan_push K s (htons K (br_vlan_proto br)) (skb_vlan_tci s)
               else vlan_hwaccel_clear_tag s))
      else Inr s)"

definition ubr_common_egress :: "kernel \<Rightarrow> ubr \<Rightarrow> sk_buff \<Rightarrow> nat \<Rightarrow> sk_buff option res" where
  "ubr_common_egress K br s pidx =
     andthen (egress_tag K br s pidx) (\<lambda>s1.
       let (proto, depth) = k_vlan_get_protocol K s1 (skb_protocol s1) in
       if proto = 0 then Inr None else Inr (Some (skb_set_network_header s1 depth)))"

text \<open>
  Both callers go on with the buffer after the egress stage, whether it freed it or not.
  \<^verbatim>\<open>dev_queue_xmit\<close> dereferences the device of the buffer.
\<close>

definition ubr_deliver_up :: "kernel \<Rightarrow> frame_env \<Rightarrow> ubr \<Rightarrow> sk_buff \<Rightarrow> tx res" where
  "ubr_deliver_up K E br s =
     andthen (ubr_common_egress K br (s\<lparr>skb_dev := Some (br_dev br)\<rparr>) 0) (\<lambda>so.
       case so of
         None \<Rightarrow> Inl UseAfterFree
       | Some s1 \<Rightarrow>
           Inr (NetifReceive
             (if fe_dev_addr E = skb_h_dest s1 then s1\<lparr>skb_pkt_type := PACKET_HOST\<rparr> else s1)))"

definition ubr_deliver_down :: "kernel \<Rightarrow> ubr \<Rightarrow> sk_buff \<Rightarrow> nat \<Rightarrow> tx res" where
  "ubr_deliver_down K br s pidx =
     andthen
       (ubr_common_egress K br
          ((skb_push s ETH_HLEN)\<lparr>skb_dev := p_dev (br_ports br pidx)\<rparr>) pidx) (\<lambda>so.
       case so of
         None \<Rightarrow> Inl UseAfterFree
       | Some s1 \<Rightarrow> andthen (nonnull (skb_dev s1)) (\<lambda>_. Inr (DevQueueXmit s1)))"

section \<open>Delivery\<close>

text \<open>
  A clone for each port but the first; \<open>False\<close>: cloning failed and the loop was left.
\<close>

fun deliver_clones ::
  "kernel \<Rightarrow> frame_env \<Rightarrow> ubr \<Rightarrow> sk_buff \<Rightarrow> nat list \<Rightarrow> (bool \<times> tx list) res" where
  "deliver_clones K E br s [] = Inr (True, [])"
| "deliver_clones K E br s (pidx # ps) =
     (if \<not> fe_clone E pidx then Inr (False, [])
      else andthen (ubr_deliver_down K br s pidx) (\<lambda>t.
        andthen (deliver_clones K E br s ps) (\<lambda>(ok, ts). Inr (ok, t # ts))))"

definition ubr_deliver :: "kernel \<Rightarrow> frame_env \<Rightarrow> ubr \<Rightarrow> sk_buff \<Rightarrow> tx list res" where
  "ubr_deliver K E br s =
     (let vec = cb_vec (skb_cb s); first = find_first_bit vec in
      if first = UBR_MAX_PORTS then Inr [KfreeSkb s]
      else andthen (deliver_clones K E br s (vec_bits_from (first + 1) vec)) (\<lambda>(ok, ts).
        if \<not> ok then Inr (ts @ [KfreeSkb s])
        else andthen
          (if first = 0 then ubr_deliver_up K E br s else ubr_deliver_down K br s first)
          (\<lambda>t. Inr (ts @ [t]))))"

section \<open>The pipeline\<close>

definition ubr_ctrl_ingress :: "ubr \<Rightarrow> sk_buff \<Rightarrow> bool" where
  "ubr_ctrl_ingress br s = True"

definition ubr_stp_ingress :: "ubr \<Rightarrow> sk_buff \<Rightarrow> bool" where
  "ubr_stp_ingress br s = True"

definition ubr_fdb_ingress :: "ubr \<Rightarrow> sk_buff \<Rightarrow> bool" where
  "ubr_fdb_ingress br s = True"

text \<open>
  The result: whether the frame is handed back to the caller as control traffic, the bridge
  after the frame, the buffer, and the calls made. \<open>allow &= ...\<close> is not short-circuit: the
  FDB stage runs for a frame that VLAN ingress has already refused, and the control buffer is
  read even when VLAN ingress has lost the buffer.
\<close>

definition ubr_forward ::
  "kernel \<Rightarrow> frame_env \<Rightarrow> ubr \<Rightarrow> sk_buff \<Rightarrow> (bool \<times> ubr \<times> sk_buff \<times> tx list) res" where
  "ubr_forward K E br s =
     andthen (ubr_vlan_ingress K br s) (\<lambda>(allow0, so).
     case so of
       None \<Rightarrow> Inl UseAfterFree
     | Some s0 \<Rightarrow>
         andthen
           (if \<not> cb_ctrl (skb_cb s0)
            then andthen (ubr_fdb_forward K E br s0)
                   (\<lambda>(ok, br1, s1). Inr (allow0 \<and> ok, br1, s1))
            else Inr (False, br, s0)) (\<lambda>(allow1, br1, s1).
         let allow2 = (allow1 \<and> \<not> cb_ctrl (skb_cb s1) \<and> ubr_ctrl_ingress br1 s1) in
         if cb_ctrl (skb_cb s1)
         then Inr (True, br1, s1\<lparr>skb_dev := Some (br_dev br1)\<rparr>, [])
         else if allow2 \<and> ubr_stp_ingress br1 s1 \<and> ubr_fdb_ingress br1 s1
         then andthen (ubr_deliver K E br1 s1) (\<lambda>ts. Inr (False, br1, s1, ts))
         else Inr (False, br1, s1, [KfreeSkb s1])))"

section \<open>What a call delivers, and where\<close>

fun tx_dev :: "tx \<Rightarrow> netdev option" where
  "tx_dev (NetifReceive s) = skb_dev s"
| "tx_dev (DevQueueXmit s) = skb_dev s"
| "tx_dev (KfreeSkb s) = None"
| "tx_dev (DevForwardSkb s) = skb_dev s"

fun tx_skb :: "tx \<Rightarrow> sk_buff" where
  "tx_skb (NetifReceive s) = s"
| "tx_skb (DevQueueXmit s) = s"
| "tx_skb (KfreeSkb s) = s"
| "tx_skb (DevForwardSkb s) = s"

text \<open>The device behind a port: port 0 is the bridge itself.\<close>

definition port_netdev :: "ubr \<Rightarrow> nat \<Rightarrow> netdev option" where
  "port_netdev br i = (if i = 0 then Some (br_dev br) else p_dev (br_ports br i))"

lemma vlan_at_fdb [simp]: "vlan_at (br\<lparr>br_fdb := f\<rparr>) = vlan_at br"
  by (simp add: vlan_at_def fun_eq_iff)

lemma forward_state_simps [simp]:
  "vlan_deref (br\<lparr>br_fdb := f\<rparr>) = vlan_deref br"
  "port_netdev (br\<lparr>br_fdb := f\<rparr>) = port_netdev br"
  by (simp_all add: vlan_deref_def port_netdev_def fun_eq_iff)

text \<open>Narrowing the vector does not change where the FDB looks.\<close>

lemma dst_key_narrow [simp]: "dst_key K vid (narrow m s) = dst_key K vid s"
proof -
  have "skb_ip_daddr (narrow m s) = skb_ip_daddr s" "skb_ip6_daddr (narrow m s) = skb_ip6_daddr s"
    by (simp_all add: narrow_def)
  then show ?thesis by (simp add: dst_key_def cong del: if_weak_cong)
qed

lemma flood_filter_narrow [simp]: "flood_filter v (narrow m s) = flood_filter v s"
  by (simp add: flood_filter_def)

lemma fdb_filter_narrow [simp]: "fdb_filter K E v (narrow m s) = fdb_filter K E v s"
  by (auto simp: fdb_filter_def fun_eq_iff split: option.split)

text \<open>Egress of a buffer: its tag for the port, the network header set.\<close>

lemma egress_tag_eq:
  "\<not> cb_vlan_filtering (skb_cb s) \<Longrightarrow> egress_tag K br s i = Inr s"
  "cb_vlan (skb_cb s) = Some a \<Longrightarrow> br_heap br a = Some v \<Longrightarrow> cb_vlan_filtering (skb_cb s) \<Longrightarrow>
     egress_tag K br s i = Inr (if ubr_vec_test (vl_tagged v) i
       then k_skb_vlan_push K s (htons K (br_vlan_proto br)) (skb_vlan_tci s)
       else vlan_hwaccel_clear_tag s)"
  by (simp_all add: egress_tag_def)

lemma egress_tag_keeps:
  "helpers_ok K \<Longrightarrow> egress_tag K br s i = Inr s' \<Longrightarrow> keeps_frame s s'"
  using helpers_okD(3) [of K s]
  by (auto simp: egress_tag_def res_simps keeps_frame_def split: if_splits)

lemma common_egress_SomeD:
  assumes "ubr_common_egress K br s i = Inr (Some s')"
  shows "\<exists>s1 proto depth. egress_tag K br s i = Inr s1 \<and>
       k_vlan_get_protocol K s1 (skb_protocol s1) = (proto, depth) \<and> proto \<noteq> 0 \<and>
       s' = skb_set_network_header s1 depth"
proof -
  from assms obtain s1 where "egress_tag K br s i = Inr s1"
    and "(let (proto, depth) = k_vlan_get_protocol K s1 (skb_protocol s1) in
      if proto = 0 then Inr None else Inr (Some (skb_set_network_header s1 depth))) =
      (Inr (Some s') :: sk_buff option res)"
    unfolding ubr_common_egress_def andthen_Inr_iff by blast
  then show ?thesis
    by (cases "k_vlan_get_protocol K s1 (skb_protocol s1)") (auto split: if_splits)
qed

lemma common_egress_keeps:
  "helpers_ok K \<Longrightarrow> ubr_common_egress K br s i = Inr (Some s') \<Longrightarrow> keeps_frame s s'"
  using egress_tag_keeps [of K br s i]
  by (auto dest!: common_egress_SomeD simp: keeps_frame_def)

lemma deliver_down_InrD:
  assumes "helpers_ok K" "ubr_deliver_down K br s i = Inr t"
  obtains s' d where "t = DevQueueXmit s'" "p_dev (br_ports br i) = Some d" "skb_dev s' = Some d"
    "skb_cb s' = skb_cb s" "skb_h_dest s' = skb_h_dest s"
proof -
  let ?s = "(skb_push s ETH_HLEN)\<lparr>skb_dev := p_dev (br_ports br i)\<rparr>"
  from assms(2) obtain s' d where e: "ubr_common_egress K br ?s i = Inr (Some s')"
    and d: "skb_dev s' = Some d" and t: "t = DevQueueXmit s'"
    by (auto simp: ubr_deliver_down_def res_simps split: option.splits)
  from common_egress_keeps [OF assms(1) e] have "keeps_frame ?s s'" .
  with d t show thesis by (intro that [of s' d]) (auto simp: keeps_frame_def)
qed

lemma deliver_up_InrD:
  assumes "helpers_ok K" "ubr_deliver_up K E br s = Inr t"
  obtains s' where "t = NetifReceive s'" "skb_dev s' = Some (br_dev br)"
    "skb_cb s' = skb_cb s" "skb_h_dest s' = skb_h_dest s"
    "skb_h_dest s = fe_dev_addr E \<Longrightarrow> skb_pkt_type s' = PACKET_HOST"
proof -
  let ?s = "s\<lparr>skb_dev := Some (br_dev br)\<rparr>"
  from assms(2) obtain s1 where e: "ubr_common_egress K br ?s 0 = Inr (Some s1)"
    and t: "t = NetifReceive (if fe_dev_addr E = skb_h_dest s1
                              then s1\<lparr>skb_pkt_type := PACKET_HOST\<rparr> else s1)"
    by (auto simp: ubr_deliver_up_def res_simps split: option.splits)
  from common_egress_keeps [OF assms(1) e] have "keeps_frame ?s s1" .
  with t show thesis
    by (intro that [of "if fe_dev_addr E = skb_h_dest s1
                        then s1\<lparr>skb_pkt_type := PACKET_HOST\<rparr> else s1"])
      (auto simp: keeps_frame_def)
qed

section \<open>Delivery\<close>

lemma deliver_clones_devs:
  assumes "helpers_ok K" "deliver_clones K E br s ps = Inr (ok, ts)"
  shows "map tx_dev ts = map (\<lambda>i. p_dev (br_ports br i)) (take (length ts) ps)"
    and "ok \<longleftrightarrow> length ts = length ps"
    and "ok \<longleftrightarrow> (\<forall>i \<in> set ps. fe_clone E i)"
    and "\<forall>t \<in> set ts. tx_dev t \<noteq> None \<and> skb_cb (tx_skb t) = skb_cb s"
  using assms(2)
proof (induction ps arbitrary: ok ts)
  case (Cons i ps)
  {
    case 1 with Cons.IH(1) show ?case
      by (auto simp: res_simps split: if_splits elim!: deliver_down_InrD [OF assms(1)])
  next
    case 2 with Cons.IH(2) show ?case by (auto simp: res_simps split: if_splits)
  next
    case 3 with Cons.IH(3) show ?case by (auto simp: res_simps split: if_splits)
  next
    case 4 with Cons.IH(4) show ?case
      by (fastforce simp: res_simps split: if_splits elim!: deliver_down_InrD [OF assms(1)])
  }
qed auto

text \<open>
  The ports in the order they are served: the first set bit comes last, as it takes the
  original buffer.
\<close>

definition egress_order :: "ubr_vec \<Rightarrow> nat list" where
  "egress_order vec =
     (let first = find_first_bit vec in
      if first = UBR_MAX_PORTS then [] else vec_bits_from (first + 1) vec @ [first])"

lemma set_egress_order: "set (egress_order vec) = vec_ports vec"
proof (cases "find_first_bit vec = UBR_MAX_PORTS")
  case True
  then show ?thesis by (simp add: egress_order_def vec_ports_def find_first_bit_none)
next
  case False
  then have lt: "find_first_bit vec < UBR_MAX_PORTS"
    using find_first_bit_le [of vec] by simp
  have "set (ubr_vec_foreach vec) = set (egress_order vec)"
    using False by (simp add: foreach_split_first [OF lt] egress_order_def Let_def)
  then show ?thesis by (simp add: vec_ports_def)
qed

lemma distinct_egress_order: "distinct (egress_order vec)"
  by (auto simp: egress_order_def Let_def set_vec_bits_from)

text \<open>When every clone succeeds each port of the vector gets the frame exactly once.\<close>

lemma deliver_exact:
  assumes K: "helpers_ok K" and clones: "\<And>i. fe_clone E i"
    and r: "ubr_deliver K E br s = Inr ts" and ne: "vec_ports (cb_vec (skb_cb s)) \<noteq> {}"
  shows "map tx_dev ts = map (port_netdev br) (egress_order (cb_vec (skb_cb s)))"
    and "\<forall>t \<in> set ts. tx_dev t \<noteq> None \<and> skb_cb (tx_skb t) = skb_cb s"
proof -
  let ?vec = "cb_vec (skb_cb s)"
  let ?first = "find_first_bit ?vec"
  let ?rest = "vec_bits_from (?first + 1) ?vec"
  have some: "?first \<noteq> UBR_MAX_PORTS"
    using ne by (auto simp: find_first_bit_none vec_ports_def)
  with r obtain ok ts1 where c: "deliver_clones K E br s ?rest = Inr (ok, ts1)"
    and rest: "(if \<not> ok then Inr (ts1 @ [KfreeSkb s])
      else andthen (if ?first = 0 then ubr_deliver_up K E br s else ubr_deliver_down K br s ?first)
             (\<lambda>t. Inr (ts1 @ [t]))) = Inr ts"
    by (auto simp: ubr_deliver_def Let_def res_simps)
  note cl = deliver_clones_devs [OF K c]
  have ok using cl(3) clones by simp
  with rest obtain t where ts: "ts = ts1 @ [t]"
    and t: "(if ?first = 0 then ubr_deliver_up K E br s
             else ubr_deliver_down K br s ?first) = Inr t"
    by (auto simp: res_simps)
  have dev: "tx_dev t = port_netdev br ?first \<and> tx_dev t \<noteq> None \<and> skb_cb (tx_skb t) = skb_cb s"
  proof (cases "?first = 0")
    case True
    with t have "ubr_deliver_up K E br s = Inr t" by simp
    then show ?thesis
      by (rule deliver_up_InrD [OF K]) (simp add: True port_netdev_def)
  next
    case False
    with t have "ubr_deliver_down K br s ?first = Inr t" by simp
    then show ?thesis
      by (rule deliver_down_InrD [OF K]) (simp add: False port_netdev_def)
  qed
  have "map (\<lambda>i. p_dev (br_ports br i)) ?rest = map (port_netdev br) ?rest"
    by (auto simp: port_netdev_def set_vec_bits_from)
  with cl(1,2) \<open>ok\<close> dev some show "map tx_dev ts = map (port_netdev br) (egress_order ?vec)"
    by (simp add: ts egress_order_def Let_def)
  show "\<forall>t \<in> set ts. tx_dev t \<noteq> None \<and> skb_cb (tx_skb t) = skb_cb s"
    using cl(4) conjunct2 [OF dev] unfolding ts by auto
qed

text \<open>
  Whatever fails, what leaves is what one of the ports of the vector was given.
\<close>

lemma deliver_clones_source:
  "deliver_clones K E br s ps = Inr (ok, ts) \<Longrightarrow> t \<in> set ts \<Longrightarrow>
     \<exists>i \<in> set ps. ubr_deliver_down K br s i = Inr t"
proof (induction ps arbitrary: ok ts)
  case (Cons i ps)
  from Cons.prems show ?case
    by (auto simp: res_simps split: if_splits dest: Cons.IH)
qed auto

definition deliver_to :: "kernel \<Rightarrow> frame_env \<Rightarrow> ubr \<Rightarrow> sk_buff \<Rightarrow> nat \<Rightarrow> tx res" where
  "deliver_to K E br s i = (if i = 0 then ubr_deliver_up K E br s else ubr_deliver_down K br s i)"

lemma deliver_source:
  assumes r: "ubr_deliver K E br s = Inr ts" and t: "t \<in> set ts" "tx_dev t \<noteq> None"
  shows "\<exists>i. ubr_vec_test (cb_vec (skb_cb s)) i \<and> deliver_to K E br s i = Inr t"
proof -
  let ?vec = "cb_vec (skb_cb s)"
  let ?first = "find_first_bit ?vec"
  let ?rest = "vec_bits_from (?first + 1) ?vec"
  have some: "?first \<noteq> UBR_MAX_PORTS" using r t by (auto simp: ubr_deliver_def)
  then have first: "ubr_vec_test ?vec ?first"
    using find_first_bit_le [of ?vec] by (intro find_first_bit_found) simp
  from some r obtain ok ts1 where c: "deliver_clones K E br s ?rest = Inr (ok, ts1)"
    and rest: "(if \<not> ok then Inr (ts1 @ [KfreeSkb s])
      else andthen (if ?first = 0 then ubr_deliver_up K E br s else ubr_deliver_down K br s ?first)
             (\<lambda>t. Inr (ts1 @ [t]))) = Inr ts"
    by (auto simp: ubr_deliver_def Let_def res_simps)
  show ?thesis
  proof (cases "t \<in> set ts1")
    case True
    with deliver_clones_source [OF c] obtain i where "i \<in> set ?rest"
      "ubr_deliver_down K br s i = Inr t" by blast
    moreover from this have "ubr_vec_test ?vec i" "i \<noteq> 0" by (simp_all add: set_vec_bits_from)
    ultimately have "ubr_vec_test ?vec i \<and> deliver_to K E br s i = Inr t"
      by (simp add: deliver_to_def)
    then show ?thesis by (rule exI)
  next
    case False
    from rest have "(if \<not> ok then Inr (ts1 @ [KfreeSkb s])
      else andthen (deliver_to K E br s ?first) (\<lambda>t. Inr (ts1 @ [t]))) = Inr ts"
      unfolding deliver_to_def .
    with False t have "deliver_to K E br s ?first = Inr t"
      by (cases ok; cases "deliver_to K E br s ?first") auto
    with first show ?thesis by blast
  qed
qed

lemma deliver_to_dev:
  assumes K: "helpers_ok K" and t: "deliver_to K E br s i = Inr t"
  shows "tx_dev t = port_netdev br i" "skb_cb (tx_skb t) = skb_cb s" "tx_dev t \<noteq> None"
proof -
  have "tx_dev t = port_netdev br i \<and> skb_cb (tx_skb t) = skb_cb s \<and> tx_dev t \<noteq> None"
  proof (cases "i = 0")
    case True
    with t have "ubr_deliver_up K E br s = Inr t" by (simp add: deliver_to_def)
    then show ?thesis by (rule deliver_up_InrD [OF K]) (simp add: True port_netdev_def)
  next
    case False
    with t have "ubr_deliver_down K br s i = Inr t" by (simp add: deliver_to_def)
    then show ?thesis by (rule deliver_down_InrD [OF K]) (simp add: False port_netdev_def)
  qed
  then show "tx_dev t = port_netdev br i" "skb_cb (tx_skb t) = skb_cb s" "tx_dev t \<noteq> None"
    by blast+
qed

lemma deliver_within:
  assumes "helpers_ok K" "ubr_deliver K E br s = Inr ts" "t \<in> set ts" "tx_dev t = Some d"
  shows "\<exists>i. ubr_vec_test (cb_vec (skb_cb s)) i \<and> port_netdev br i = Some d"
proof -
  have "tx_dev t \<noteq> None" using assms(4) by simp
  from deliver_source [OF assms(2,3) this] deliver_to_dev [OF assms(1)] assms(4)
  show ?thesis by fastforce
qed

text \<open>The tag of what leaves: pushed for a tagged member, cleared for an untagged one.\<close>

definition tag_for :: "kernel \<Rightarrow> ubr \<Rightarrow> ubr_vlan \<Rightarrow> nat \<Rightarrow> sk_buff \<Rightarrow> sk_buff" where
  "tag_for K br v i s =
     (if ubr_vec_test (vl_tagged v) i
      then k_skb_vlan_push K s (htons K (br_vlan_proto br)) (skb_vlan_tci s)
      else vlan_hwaccel_clear_tag s)"

lemma common_egress_tag:
  assumes "cb_vlan_filtering (skb_cb s)" "cb_vlan (skb_cb s) = Some a" "br_heap br a = Some v"
    and "ubr_common_egress K br s i = Inr (Some s')"
  shows "\<exists>depth. s' = skb_set_network_header (tag_for K br v i s) depth"
  using common_egress_SomeD [OF assms(4)] egress_tag_eq(2) [OF assms(2,3,1), of K i]
  by (auto simp: tag_for_def)

lemma deliver_to_tag:
  assumes "cb_vlan_filtering (skb_cb s)" "cb_vlan (skb_cb s) = Some a" "br_heap br a = Some v"
    and "deliver_to K E br s i = Inr t"
  shows "\<exists>s0 depth host. skb_vlan_tci s0 = skb_vlan_tci s \<and> skb_dev s0 = port_netdev br i \<and>
    tx_skb t = (skb_set_network_header (tag_for K br v i s0) depth)
                 \<lparr>skb_pkt_type := host\<rparr>"
proof (cases "i = 0")
  case True
  let ?s = "s\<lparr>skb_dev := Some (br_dev br)\<rparr>"
  from assms(4) True obtain s1 where e: "ubr_common_egress K br ?s 0 = Inr (Some s1)"
    and t: "tx_skb t = (if fe_dev_addr E = skb_h_dest s1
                        then s1\<lparr>skb_pkt_type := PACKET_HOST\<rparr> else s1)"
    by (auto simp: deliver_to_def ubr_deliver_up_def res_simps split: option.splits)
  obtain depth where "s1 = skb_set_network_header (tag_for K br v 0 ?s) depth"
    using common_egress_tag [OF _ _ assms(3) e] assms(1,2) by auto
  with t have "tx_skb t = (skb_set_network_header (tag_for K br v 0 ?s) depth)
      \<lparr>skb_pkt_type := skb_pkt_type (tx_skb t)\<rparr>" by simp
  with True show ?thesis by (intro exI [of _ ?s] exI conjI) (simp_all add: port_netdev_def)
next
  case False
  let ?s = "(skb_push s ETH_HLEN)\<lparr>skb_dev := p_dev (br_ports br i)\<rparr>"
  from assms(4) False obtain s1 where e: "ubr_common_egress K br ?s i = Inr (Some s1)"
    and t: "tx_skb t = s1"
    by (auto simp: deliver_to_def ubr_deliver_down_def res_simps split: option.splits)
  obtain depth where "s1 = skb_set_network_header (tag_for K br v i ?s) depth"
    using common_egress_tag [OF _ _ assms(3) e] assms(1,2) by auto
  with t have "tx_skb t = (skb_set_network_header (tag_for K br v i ?s) depth)
      \<lparr>skb_pkt_type := skb_pkt_type (tx_skb t)\<rparr>" by simp
  with False show ?thesis by (intro exI [of _ ?s] exI conjI) (simp_all add: port_netdev_def)
qed

section \<open>The pipeline\<close>

text \<open>
  The FDB stage in closed form for a frame with a live VLAN, and the pipeline for a frame that
  is not control traffic: it is dropped, or it is delivered by a vector that has passed the
  port's mask, the VLAN's members and the FDB's answer.
\<close>

definition fdb_after :: "frame_env \<Rightarrow> ubr_vlan \<Rightarrow> sk_buff \<Rightarrow> ubr_fdb \<Rightarrow> ubr_fdb" where
  "fdb_after E v s fdb =
     (if cb_sa_learning (skb_cb s) \<and> vl_sa_learning v then ubr_fdb_learn E v s fdb else fdb)"

lemma fdb_forward_eq:
  assumes "cb_vlan (skb_cb s) = Some a" "br_heap br a = Some v"
  shows "ubr_fdb_forward K E br s =
    Inr (True, br\<lparr>br_fdb := fdb_after E v s (br_fdb br)\<rparr>,
         narrow (fdb_filter K E v s (fdb_after E v s (br_fdb br))) s)"
  using assms by (simp add: ubr_fdb_forward_def fdb_after_def narrow_def Let_def)

lemma fdb_forward_null:
  "cb_vlan (skb_cb s) = None \<Longrightarrow> ubr_fdb_forward K E br s = Inl NullDeref"
  by (simp add: ubr_fdb_forward_def)

lemma fdb_forward_InrD:
  assumes "ubr_fdb_forward K E br s = Inr (ok, br', s')"
  obtains a v where "cb_vlan (skb_cb s) = Some a" "br_heap br a = Some v" "ok"
    "br' = br\<lparr>br_fdb := fdb_after E v s (br_fdb br)\<rparr>"
    "s' = narrow (fdb_filter K E v s (fdb_after E v s (br_fdb br))) s"
proof -
  from assms obtain a v where *: "cb_vlan (skb_cb s) = Some a" "br_heap br a = Some v"
    unfolding ubr_fdb_forward_def andthen_Inr_iff vlan_deref_Inr_iff by blast
  from assms fdb_forward_eq [OF *, of K E] * show thesis by (intro that [of a v]) auto
qed

lemma forward_eq:
  assumes "ubr_vlan_ingress K br s = Inr (allow, Some s0)" "\<not> cb_ctrl (skb_cb s0)"
  shows "ubr_forward K E br s =
    andthen (ubr_fdb_forward K E br s0) (\<lambda>(ok, br1, s1).
      if allow \<and> ok then andthen (ubr_deliver K E br1 s1) (\<lambda>ts. Inr (False, br1, s1, ts))
      else Inr (False, br1, s1, [KfreeSkb s1]))"
proof -
  have "cb_ctrl (skb_cb s1) = cb_ctrl (skb_cb s0)"
    if "ubr_fdb_forward K E br s0 = Inr (ok, br1, s1)" for ok br1 s1
    using that by (rule fdb_forward_InrD) simp
  then show ?thesis
    unfolding ubr_forward_def assms(1)
    by (cases "ubr_fdb_forward K E br s0")
      (auto simp: assms(2) ubr_ctrl_ingress_def ubr_stp_ingress_def ubr_fdb_ingress_def
        split: prod.splits)
qed

lemma forward_freed: "ubr_vlan_ingress K br s = Inr (allow, None) \<Longrightarrow>
    ubr_forward K E br s = Inl UseAfterFree"
  by (simp add: ubr_forward_def)

lemma forward_fault: "ubr_vlan_ingress K br s = Inl e \<Longrightarrow> ubr_forward K E br s = Inl e"
  by (simp add: ubr_forward_def)

lemma ingress_ctrl:
  "helpers_ok K \<Longrightarrow> ubr_vlan_ingress K br s = Inr (b, Some s') \<Longrightarrow>
     cb_ctrl (skb_cb s') = cb_ctrl (skb_cb s)"
  using ingress_same [of K br s b s'] by (auto simp: same_but_vlan_def)

lemma forward_passes_ingress:
  assumes "ubr_forward K E br s = Inr y"
  obtains allow s0 where "ubr_vlan_ingress K br s = Inr (allow, Some s0)"
proof (cases "ubr_vlan_ingress K br s")
  case (Inl e)
  with assms forward_fault show thesis by simp
next
  case (Inr x)
  obtain allow so where x: "x = (allow, so)" by (cases x)
  show thesis
  proof (cases so)
    case None
    with Inr x forward_freed assms show thesis by simp
  next
    case (Some s0)
    with Inr x show thesis by (intro that [of allow s0]) simp
  qed
qed

lemma forward_stages:
  assumes "ubr_vlan_ingress K br s = Inr (allow, Some s0)" "\<not> cb_ctrl (skb_cb s0)"
    and "ubr_forward K E br s = Inr (r, br', s', ts)"
  obtains a v where "cb_vlan (skb_cb s0) = Some a" "br_heap br a = Some v" "\<not> r"
    "br' = br\<lparr>br_fdb := fdb_after E v s0 (br_fdb br)\<rparr>"
    "s' = narrow (fdb_filter K E v s0 (br_fdb br')) s0"
    "if allow then ubr_deliver K E br' s' = Inr ts else ts = [KfreeSkb s']"
proof -
  from assms(3) obtain x where f: "ubr_fdb_forward K E br s0 = Inr x"
    and d: "(case x of (ok, br1, s1) \<Rightarrow>
      if allow \<and> ok then andthen (ubr_deliver K E br1 s1) (\<lambda>ts. Inr (False, br1, s1, ts))
      else Inr (False, br1, s1, [KfreeSkb s1])) = Inr (r, br', s', ts)"
    unfolding forward_eq [OF assms(1,2)] andthen_Inr_iff by (rule exE) (erule conjE, rule that)
  obtain ok br1 s1 where x: "x = (ok, br1, s1)" by (cases x)
  from f [unfolded x] obtain a v
    where a: "cb_vlan (skb_cb s0) = Some a" and v: "br_heap br a = Some v" and ok
    and b1: "br1 = br\<lparr>br_fdb := fdb_after E v s0 (br_fdb br)\<rparr>"
    and s1: "s1 = narrow (fdb_filter K E v s0 (fdb_after E v s0 (br_fdb br))) s0"
    by (rule fdb_forward_InrD)
  have "br' = br1" "s' = s1" "\<not> r"
    and "if allow then ubr_deliver K E br' s' = Inr ts else ts = [KfreeSkb s']"
    using d \<open>ok\<close> unfolding x by (cases allow; cases "ubr_deliver K E br1 s1"; simp)+
  with a v b1 s1 show thesis by (intro that [of a v]) simp_all
qed

lemma forward_InrD:
  assumes K: "helpers_ok K" and noctrl: "\<not> cb_ctrl (skb_cb s)"
    and r: "ubr_forward K E br s = Inr (r, br', s', ts)"
  obtains allow s0 a v where "ubr_vlan_ingress K br s = Inr (allow, Some s0)"
    "cb_vlan (skb_cb s0) = Some a" "br_heap br a = Some v" "\<not> r"
    "br' = br\<lparr>br_fdb := fdb_after E v s0 (br_fdb br)\<rparr>"
    "s' = narrow (fdb_filter K E v s0 (br_fdb br')) s0"
    "if allow then ubr_deliver K E br' s' = Inr ts else ts = [KfreeSkb s']"
proof -
  obtain allow s0 where i: "ubr_vlan_ingress K br s = Inr (allow, Some s0)"
    using r by (rule forward_passes_ingress)
  with noctrl have "\<not> cb_ctrl (skb_cb s0)" using ingress_ctrl [OF K i] by simp
  from i this r show thesis
    by (rule forward_stages) (rule that [OF i])
qed

text \<open>Forwarding changes the forwarding database of the bridge and nothing else.\<close>

lemma fdb_after_ok: "fdb_ok fdb \<Longrightarrow> fdb_ok (fdb_after E v s fdb)"
  by (simp add: fdb_after_def fdb_learn_ok)

lemma forward_frame:
  assumes "helpers_ok K" "\<not> cb_ctrl (skb_cb s)" "ubr_forward K E br s = Inr (r, br', s', ts)"
  shows "\<exists>f. br' = br\<lparr>br_fdb := f\<rparr> \<and> (fdb_ok (br_fdb br) \<longrightarrow> fdb_ok f)"
  using assms by (rule forward_InrD) (blast intro: fdb_after_ok)

section \<open>When delivery is free of faults\<close>

text \<open>The protocol of every buffer can be read, so the egress stage frees none.\<close>

definition protocol_ok :: "kernel \<Rightarrow> bool" where
  "protocol_ok K \<longleftrightarrow> (\<forall>s p. fst (k_vlan_get_protocol K s p) \<noteq> 0)"

lemma common_egress_total:
  assumes "protocol_ok K" "cb_vlan_filtering (skb_cb s) \<Longrightarrow>
      \<exists>a v. cb_vlan (skb_cb s) = Some a \<and> br_heap br a = Some v"
  obtains s' where "ubr_common_egress K br s i = Inr (Some s')"
proof -
  have "\<exists>s1. egress_tag K br s i = Inr s1"
    using assms(2) by (auto simp: egress_tag_def)
  then obtain s1 where s1: "egress_tag K br s i = Inr s1" ..
  obtain p d where "k_vlan_get_protocol K s1 (skb_protocol s1) = (p, d)" by fastforce
  moreover from this assms(1) have "p \<noteq> 0" unfolding protocol_ok_def by (metis fst_conv)
  ultimately show thesis using s1 that by (simp add: ubr_common_egress_def)
qed

lemma deliver_down_total:
  assumes K: "helpers_ok K" "protocol_ok K"
    and vlan: "cb_vlan (skb_cb s) = Some a" "br_heap br a = Some v"
    and dev: "p_dev (br_ports br i) \<noteq> None"
  shows "\<exists>t. ubr_deliver_down K br s i = Inr t"
proof -
  let ?s = "(skb_push s ETH_HLEN)\<lparr>skb_dev := p_dev (br_ports br i)\<rparr>"
  obtain s' where e: "ubr_common_egress K br ?s i = Inr (Some s')"
    by (rule common_egress_total [OF K(2), of ?s br i]) (use vlan in auto)
  with common_egress_keeps [OF K(1) e] dev show ?thesis
    by (auto simp: ubr_deliver_down_def keeps_frame_def)
qed

lemma deliver_up_total:
  assumes K: "protocol_ok K" and vlan: "cb_vlan (skb_cb s) = Some a" "br_heap br a = Some v"
  shows "\<exists>t. ubr_deliver_up K E br s = Inr t"
proof -
  let ?s = "s\<lparr>skb_dev := Some (br_dev br)\<rparr>"
  obtain s' where "ubr_common_egress K br ?s 0 = Inr (Some s')"
    by (rule common_egress_total [OF K, of ?s br 0]) (use vlan in auto)
  then show ?thesis by (simp add: ubr_deliver_up_def)
qed

lemma deliver_no_fault:
  assumes K: "helpers_ok K" "protocol_ok K"
    and vlan: "cb_vlan (skb_cb s) = Some a" "br_heap br a = Some v"
    and devs: "\<And>i. ubr_vec_test (cb_vec (skb_cb s)) i \<Longrightarrow> i \<noteq> 0 \<Longrightarrow> p_dev (br_ports br i) \<noteq> None"
  shows "\<exists>ts. ubr_deliver K E br s = Inr ts"
proof -
  note down = deliver_down_total [OF K vlan] and up = deliver_up_total [OF K(2) vlan, of E]
  have clones: "\<exists>ok ts. deliver_clones K E br s ps = Inr (ok, ts)"
    if "\<forall>i \<in> set ps. p_dev (br_ports br i) \<noteq> None" for ps
    using that
  proof (induction ps)
    case (Cons i ps)
    then obtain t ok ts where *: "ubr_deliver_down K br s i = Inr t"
        "deliver_clones K E br s ps = Inr (ok, ts)"
      using down [of i] by auto
    have "deliver_clones K E br s (i # ps) = Inr (if fe_clone E i then (ok, t # ts) else (False, []))"
      by (simp add: *)
    then show ?case by (metis surj_pair)
  qed (simp, blast)
  let ?vec = "cb_vec (skb_cb s)"
  let ?first = "find_first_bit ?vec"
  show ?thesis
  proof (cases "?first = UBR_MAX_PORTS")
    case True
    then show ?thesis by (simp add: ubr_deliver_def)
  next
    case False
    then have "ubr_vec_test ?vec ?first"
      using find_first_bit_le [of ?vec] by (intro find_first_bit_found) simp
    then obtain t where t: "(if ?first = 0 then ubr_deliver_up K E br s
        else ubr_deliver_down K br s ?first) = Inr t"
      using up down [of ?first] devs by (cases "?first = 0") auto
    obtain ok ts where "deliver_clones K E br s (vec_bits_from (?first + 1) ?vec) = Inr (ok, ts)"
      using clones [of "vec_bits_from (?first + 1) ?vec"] devs
      by (auto simp: set_vec_bits_from)
    then show ?thesis
      by (cases ok) (simp_all add: ubr_deliver_def Let_def False t)
  qed
qed

end
