(* ===== verification/Ubr_Port.thy ===== *)
theory Ubr_Port
  imports Ubr_Forward
begin

unbundle bit_operations_syntax

text \<open>
  Ports of a bridge and the network devices behind them (kernel/ubr-port.c, and
  \<^verbatim>\<open>ubr_update_headroom\<close> of kernel/ubr-dev.c): attaching a device to the lowest free slot
  with the roll back of each failing step, detaching it, finding the slot of a device, and
  the receive handler.
\<close>

section \<open>Network devices\<close>

text \<open>
  What the module reads or changes of \<^verbatim>\<open>struct net_device\<close>. \<open>nd_is_ubr\<close>: its operations
  are the module's \<^verbatim>\<open>ubr_dev_ops\<close>. \<open>nd_rx_handler_data\<close>: the port registered as receive
  handler data, as the bridge's device and the slot in its port array. \<open>nd_fwd_headroom\<close> is
  \<^verbatim>\<open>netdev_get_fwd_headroom\<close> of the device.
\<close>

record net_device =
  nd_is_ubr :: bool
  nd_flags :: u32
  nd_type :: u16
  nd_addr_len :: u8
  nd_dev_addr :: mac
  nd_uses_dsa :: bool
  nd_master :: "netdev option"
  nd_priv_flags :: u32
  nd_promiscuity :: int
  nd_allmulti :: int
  nd_rx_handler_data :: "(netdev \<times> nat) option"
  nd_needed_headroom :: u16
  nd_fwd_headroom :: u16
  nd_rx_headroom :: u16
  nd_refcnt :: int

definition IFF_LOOPBACK :: u32 where "IFF_LOOPBACK = 0x8"
definition IFF_DONT_BRIDGE :: u32 where "IFF_DONT_BRIDGE = 0x800"
definition IFF_UBR_PORT :: u32 where "IFF_UBR_PORT = push_bit 31 1"
definition ARPHRD_ETHER :: u16 where "ARPHRD_ETHER = 1"
definition ETH_ALEN :: u8 where "ETH_ALEN = 6"

definition netif_is_ubr_port :: "net_device \<Rightarrow> bool" where
  "netif_is_ubr_port d = (nd_priv_flags d AND IFF_UBR_PORT \<noteq> 0)"

text \<open>
  The machine: its devices, the private data of the bridge devices among them, the clock.
\<close>

record world =
  w_devs :: "netdev \<Rightarrow> net_device option"
  w_bridges :: "netdev \<Rightarrow> ubr option"
  w_jiffies :: u64

definition dev_upd :: "netdev \<Rightarrow> (net_device \<Rightarrow> net_device) \<Rightarrow> world \<Rightarrow> world" where
  "dev_upd d f w = w\<lparr>w_devs := (w_devs w)(d := map_option f (w_devs w d))\<rparr>"

definition br_put :: "netdev \<Rightarrow> ubr \<Rightarrow> world \<Rightarrow> world" where
  "br_put b br w = w\<lparr>w_bridges := (w_bridges w)(b := Some br)\<rparr>"

text \<open>\<^verbatim>\<open>netdev_priv\<close>: a device that is no bridge has other private data behind it.\<close>

definition netdev_priv :: "world \<Rightarrow> netdev \<Rightarrow> ubr res" where
  "netdev_priv w b = (case w_bridges w b of None \<Rightarrow> Inl WildPointer | Some br \<Rightarrow> Inr br)"

definition dev_at :: "world \<Rightarrow> netdev \<Rightarrow> net_device res" where
  "dev_at w d = nonnull (w_devs w d)"

section \<open>Port slots\<close>

text \<open>
  \<^verbatim>\<open>ubr_from_port\<close> computes the bridge from the slot number the port's control buffer
  records, which is right only when it is the slot the port is in.
\<close>

definition ubr_from_port :: "ubr \<Rightarrow> nat \<Rightarrow> ubr res" where
  "ubr_from_port br i =
     (if unat (cb_pidx (p_ingress_cb (br_ports br i))) = i then Inr br else Inl WildPointer)"

definition port_cleanup_rcu :: "nat \<Rightarrow> ubr \<Rightarrow> ubr" where
  "port_cleanup_rcu i br = port_write i zero_port br"

definition ubr_port_cleanup :: "nat \<Rightarrow> ubr \<Rightarrow> ubr res" where
  "ubr_port_cleanup i br =
     andthen (ubr_from_port br i) (\<lambda>br.
       let pidx = unat (cb_pidx (p_ingress_cb (br_ports br i)))
       in Inr (br\<lparr>br_busy := ubr_vec_clear pidx (br_busy br),
                  br_rcu := br_rcu br @ [Port_Cleanup_Rcu i]\<rparr>))"

definition ubr_port_init :: "kernel \<Rightarrow> nat \<Rightarrow> netdev \<Rightarrow> ubr \<Rightarrow> ubr res" where
  "ubr_port_init K pidx dev br =
     (let p = br_ports br pidx;
          cb1 = (p_ingress_cb p)\<lparr>cb_pidx := of_nat pidx, cb_sa_learning := True,
                   cb_vec := ubr_vec_clear pidx ubr_vec_fill\<rparr>
      in andthen (ubr_vlan_find K br 0) (\<lambda>vl.
         let br1 = port_write pidx
                     (p\<lparr>p_dev := Some dev, p_ingress_cb := cb1\<lparr>cb_vlan := vl\<rparr>\<rparr>) br
         in andthen (ubr_vlan_port_add vl pidx False br1) (\<lambda>(_, br2).
              Inr (br2\<lparr>br_busy := ubr_vec_set pidx (br_busy br2)\<rparr>))))"

section \<open>Attaching and detaching\<close>

definition port_add_allowed :: "net_device \<Rightarrow> int" where
  "port_add_allowed d =
     (if nd_flags d AND IFF_LOOPBACK \<noteq> 0 then - EINVAL
      else if nd_type d \<noteq> ARPHRD_ETHER \<or> nd_addr_len d \<noteq> ETH_ALEN \<or>
              \<not> is_valid_ether_addr (nd_dev_addr d) then - EINVAL
      else if nd_uses_dsa d then - EBUSY
      else if nd_master d \<noteq> None then - EBUSY
      else if nd_priv_flags d AND IFF_DONT_BRIDGE \<noteq> 0 then - EOPNOTSUPP
      else 0)"

text \<open>The bridge asks for the largest headroom of its ports, and tells every port.\<close>

definition set_rx_headroom :: "u16 \<Rightarrow> netdev option \<Rightarrow> world \<Rightarrow> world res" where
  "set_rx_headroom h d w =
     andthen (nonnull d) (\<lambda>d. Inr (dev_upd d (\<lambda>n. n\<lparr>nd_rx_headroom := h\<rparr>) w))"

definition ubr_update_headroom :: "ubr \<Rightarrow> netdev \<Rightarrow> world \<Rightarrow> world res" where
  "ubr_update_headroom br new_dev w =
     andthen (dev_at w (br_dev br)) (\<lambda>bd. andthen (dev_at w new_dev) (\<lambda>nd.
       let h = max (nd_needed_headroom bd) (nd_fwd_headroom nd)
       in foldres (\<lambda>i. set_rx_headroom h (p_dev (br_ports br i))) (ubr_vec_foreach (br_busy br))
            (dev_upd (br_dev br) (\<lambda>n. n\<lparr>nd_needed_headroom := h\<rparr>) w)))"

text \<open>What the four fallible kernel calls of \<^verbatim>\<open>ubr_port_add\<close> return (0: success).\<close>

record port_add_env =
  pa_link :: int
  pa_promisc :: int
  pa_allmulti :: int
  pa_rx :: int

definition add_promisc :: "int \<Rightarrow> net_device \<Rightarrow> net_device" where
  "add_promisc n d = d\<lparr>nd_promiscuity := nd_promiscuity d + n\<rparr>"

definition add_allmulti :: "int \<Rightarrow> net_device \<Rightarrow> net_device" where
  "add_allmulti n d = d\<lparr>nd_allmulti := nd_allmulti d + n\<rparr>"

text \<open>The tail of the error path: \<^verbatim>\<open>err_uninit\<close>.\<close>

definition port_add_uninit :: "netdev \<Rightarrow> nat \<Rightarrow> ubr \<Rightarrow> int \<Rightarrow> world \<Rightarrow> int \<times> world" where
  "port_add_uninit b pidx br err w =
     (err, br_put b (port_cleanup_rcu pidx
                       (br\<lparr>br_busy := ubr_vec_clear pidx (br_busy br)\<rparr>)) w)"

text \<open>The four calls on the device, from line 138 on, with their unwinding.\<close>

definition port_add_link ::
  "port_add_env \<Rightarrow> netdev \<Rightarrow> nat \<Rightarrow> netdev \<Rightarrow> ubr \<Rightarrow> world \<Rightarrow> int \<times> world" where
  "port_add_link P b pidx dev br w =
     (if pa_link P \<noteq> 0 then port_add_uninit b pidx br (pa_link P) w
      else
        let w1 = dev_upd dev (\<lambda>d. d\<lparr>nd_master := Some b\<rparr>) w;
            unlink = dev_upd dev (\<lambda>d. d\<lparr>nd_master := None\<rparr>) in
        if pa_promisc P \<noteq> 0 then port_add_uninit b pidx br (pa_promisc P) (unlink w1)
        else
          let w2 = dev_upd dev (add_promisc 1) w1 in
          if pa_allmulti P \<noteq> 0
          then port_add_uninit b pidx br (pa_allmulti P)
                 (unlink (dev_upd dev (add_promisc (- 1)) w2))
          else
            let w3 = dev_upd dev (add_allmulti 1) w2 in
            if pa_rx P \<noteq> 0
            then port_add_uninit b pidx br (pa_rx P)
                   (unlink (dev_upd dev (add_promisc (- 1))
                     (dev_upd dev (add_allmulti (- 1)) w3)))
            else (0, br_put b br
                   (dev_upd dev (\<lambda>d. d\<lparr>nd_rx_handler_data := Some (b, pidx),
                                       nd_priv_flags := nd_priv_flags d OR IFF_UBR_PORT\<rparr>) w3)))"

definition ubr_port_add ::
  "kernel \<Rightarrow> port_add_env \<Rightarrow> netdev \<Rightarrow> netdev \<Rightarrow> world \<Rightarrow> (int \<times> world) res" where
  "ubr_port_add K P b dev w =
     andthen (netdev_priv w b) (\<lambda>br. andthen (dev_at w dev) (\<lambda>d.
       if port_add_allowed d \<noteq> 0 then Inr (port_add_allowed d, w)
       else
         let pidx = find_first_zero_bit (br_busy br) in
         if pidx = UBR_MAX_PORTS then Inr (- EBUSY, w)
         else andthen (ubr_port_init K pidx dev br) (\<lambda>br1.
           andthen (ubr_update_headroom br1 dev (br_put b br1 w)) (\<lambda>w1.
             Inr (port_add_link P b pidx dev br1 w1)))))"

definition ubr_port_del :: "netdev \<Rightarrow> netdev \<Rightarrow> world \<Rightarrow> (int \<times> world) res" where
  "ubr_port_del b dev w =
     andthen (netdev_priv w b) (\<lambda>br. andthen (dev_at w dev) (\<lambda>d.
       let p = nd_rx_handler_data d;
           w1 = dev_upd dev (\<lambda>d. d\<lparr>nd_priv_flags := nd_priv_flags d AND NOT IFF_UBR_PORT,
                                  nd_rx_handler_data := None,
                                  nd_allmulti := nd_allmulti d - 1,
                                  nd_promiscuity := nd_promiscuity d - 1,
                                  nd_master := (if nd_master d = Some b then None
                                                else nd_master d)\<rparr>) w
       in andthen (nonnull p) (\<lambda>(pb, i).
            andthen (netdev_priv w1 pb) (\<lambda>br'.
              andthen (ubr_port_cleanup i br') (\<lambda>br''. Inr (0, br_put pb br'' w1))))))"

section \<open>Lookup and reception\<close>

text \<open>The slot of a device, or an error; a NULL device is refused.\<close>

fun port_scan :: "ubr \<Rightarrow> netdev \<Rightarrow> nat list \<Rightarrow> int" where
  "port_scan br dev [] = - ENOENT"
| "port_scan br dev (i # is) = (if p_dev (br_ports br i) = Some dev then int i else port_scan br dev is)"

definition ubr_port_find :: "ubr \<Rightarrow> netdev option \<Rightarrow> int" where
  "ubr_port_find br dev =
     (case dev of None \<Rightarrow> - EINVAL | Some d \<Rightarrow> port_scan br d (ubr_vec_foreach (br_busy br)))"

datatype rx_handler_result = RX_HANDLER_ANOTHER | RX_HANDLER_CONSUMED

text \<open>
  The receive handler of slot \<open>i\<close>: the frame starts with the port's control buffer.
\<close>

definition ubr_port_rx_handler ::
  "kernel \<Rightarrow> frame_env \<Rightarrow> nat \<Rightarrow> ubr \<Rightarrow> sk_buff \<Rightarrow>
     (rx_handler_result \<times> ubr \<times> sk_buff \<times> tx list) res" where
  "ubr_port_rx_handler K E i br s =
     andthen (ubr_from_port br i) (\<lambda>br.
     andthen (ubr_forward K E br (s\<lparr>skb_cb := p_ingress_cb (br_ports br i)\<rparr>))
       (\<lambda>(r, br', s', ts).
          Inr (if r then RX_HANDLER_ANOTHER else RX_HANDLER_CONSUMED, br', s', ts)))"

section \<open>Worlds\<close>

lemma dev_upd_frame [simp, frame_simps]:
  "w_bridges (dev_upd i f w) = w_bridges w" "w_jiffies (dev_upd i f w) = w_jiffies w"
  "w_devs (dev_upd i f w) = (w_devs w)(i := map_option f (w_devs w i))"
  by (simp_all add: dev_upd_def)

lemma br_put_frame [simp, frame_simps]:
  "w_devs (br_put b br w) = w_devs w" "w_jiffies (br_put b br w) = w_jiffies w"
  "w_bridges (br_put b br w) = (w_bridges w)(b := Some br)"
  by (simp_all add: br_put_def)

lemma dev_upd_br_put: "dev_upd i f (br_put b br w) = br_put b br (dev_upd i f w)"
  by (simp add: dev_upd_def br_put_def)

lemma world_eqI:
  fixes w w' :: world
  assumes "w_devs w = w_devs w'" "w_bridges w = w_bridges w'" "w_jiffies w = w_jiffies w'"
  shows "w = w'"
  using assms by (cases w; cases w') simp

section \<open>What the lookup returns\<close>

lemma port_scan_result:
  "port_scan br dev is = - ENOENT \<and> (\<forall>i \<in> set is. p_dev (br_ports br i) \<noteq> Some dev) \<or>
   (\<exists>i \<in> set is. port_scan br dev is = int i \<and> p_dev (br_ports br i) = Some dev)"
  by (induction "is") auto

text \<open>The slot found is in use and holds the device; there is none only when none holds it.\<close>

lemma port_find_result:
  obtains i where "ubr_port_find br (Some dev) = int i" "ubr_vec_test (br_busy br) i"
    "p_dev (br_ports br i) = Some dev"
  | "ubr_port_find br (Some dev) = - ENOENT"
    "\<And>i. ubr_vec_test (br_busy br) i \<Longrightarrow> p_dev (br_ports br i) \<noteq> Some dev"
  using port_scan_result [of br dev "ubr_vec_foreach (br_busy br)"]
  by (auto simp: ubr_port_find_def)

lemma port_find_null [simp]: "ubr_port_find br None = - EINVAL"
  by (simp add: ubr_port_find_def)

lemma port_find_nonneg:
  assumes "0 \<le> ubr_port_find br dev"
  obtains i d where "dev = Some d" "ubr_port_find br dev = int i" "ubr_vec_test (br_busy br) i"
    "p_dev (br_ports br i) = Some d" "nat (ubr_port_find br dev) = i" "i < UBR_MAX_PORTS"
proof (cases dev)
  case None
  with assms show thesis by simp
next
  case (Some d)
  show thesis
  proof (rule port_find_result [of br d])
    fix i assume "ubr_port_find br (Some d) = int i" "ubr_vec_test (br_busy br) i"
      "p_dev (br_ports br i) = Some d"
    then show thesis
      using that Some test_bound [of "br_busy br" i] by (simp add: UBR_MAX_PORTS_256)
  qed (use assms Some in simp)
qed

end
