(* ===== verification/Ubr_Bridge.thy ===== *)
theory Ubr_Bridge
  imports Ubr_Port
begin

text \<open>
  The invariant of a bridge, part by part, and its preservation by each operation on the
  bridge's own state: adding a VLAN, changing its members, initialising a port slot, setting
  a port's PVID, forwarding a frame, ageing. The parts say what kernel/ubr-private.h writes
  next to the structures: a slot knows its own number and never sends a frame back, the
  control buffer of a port points to the VLAN of its PVID or to none while there is none, and
  a VLAN's members are ports in use.
\<close>

section \<open>The parts of the invariant\<close>

definition slot_ok :: "nat \<Rightarrow> ubr_port \<Rightarrow> bool" where
  "slot_ok i p \<longleftrightarrow>
     unat (cb_pidx (p_ingress_cb p)) = i \<and>
     cb_vec (p_ingress_cb p) = ubr_vec_clear i ubr_vec_fill \<and>
     \<not> cb_ctrl (p_ingress_cb p) \<and> cb_sa_learning (p_ingress_cb p) \<and> p_dev p \<noteq> None"

text \<open>A slot not in use is all zero, unless its clearing is still queued.\<close>

definition slots_ok :: "ubr \<Rightarrow> bool" where
  "slots_ok br \<longleftrightarrow>
     (\<forall>i. if ubr_vec_test (br_busy br) i then slot_ok i (br_ports br i)
          else Port_Cleanup_Rcu i \<in> set (br_rcu br) \<or> br_ports br i = zero_port)"

definition port_vlan_ok :: "kernel \<Rightarrow> ubr \<Rightarrow> ubr_port \<Rightarrow> bool" where
  "port_vlan_ok K br p \<longleftrightarrow>
     cb_vlan (p_ingress_cb p) = vlan_of K br (p_pvid p) \<and>
     cb_vlan_filtering (p_ingress_cb p) = (p_pvid p \<noteq> 0)"

definition pvid_ok :: "kernel \<Rightarrow> ubr \<Rightarrow> bool" where
  "pvid_ok K br \<longleftrightarrow>
     (\<forall>i. ubr_vec_test (br_busy br) i \<longrightarrow> port_vlan_ok K br (br_ports br i))"

definition vlan_members_ok :: "ubr_vec \<Rightarrow> ubr_vlan \<Rightarrow> bool" where
  "vlan_members_ok busy v \<longleftrightarrow>
     (\<forall>i. (ubr_vec_test (vl_members v) i \<longrightarrow> ubr_vec_test busy i) \<and>
          (ubr_vec_test (vl_tagged v) i \<longrightarrow> ubr_vec_test (vl_members v) i))"

definition members_ok :: "kernel \<Rightarrow> ubr \<Rightarrow> bool" where
  "members_ok K br \<longleftrightarrow>
     (\<forall>vid a v. vlan_of K br vid = Some a \<and> br_heap br a = Some v \<longrightarrow>
        vlan_members_ok (br_busy br) v)"

definition bridge_ok :: "kernel \<Rightarrow> ubr \<Rightarrow> bool" where
  "bridge_ok K br \<longleftrightarrow>
     vlan_table_ok K br \<and> vlan_of K br 0 \<noteq> None \<and> slots_ok br \<and> pvid_ok K br \<and>
     members_ok K br \<and> fdb_ok (br_fdb br)"

section \<open>Reading the invariant\<close>

lemma bridge_okD:
  assumes "bridge_ok K br"
  shows "vlan_table_ok K br" "vlan_of K br 0 \<noteq> None" "slots_ok br" "pvid_ok K br"
    "members_ok K br" "fdb_ok (br_fdb br)"
  using assms by (simp_all add: bridge_ok_def)

lemma slots_okD:
  "slots_ok br \<Longrightarrow> ubr_vec_test (br_busy br) i \<Longrightarrow> slot_ok i (br_ports br i)"
  unfolding slots_ok_def by metis

lemma slots_idleD:
  "slots_ok br \<Longrightarrow> \<not> ubr_vec_test (br_busy br) i \<Longrightarrow> Port_Cleanup_Rcu i \<notin> set (br_rcu br) \<Longrightarrow>
     br_ports br i = zero_port"
  unfolding slots_ok_def by metis

lemma port_vlan_okD:
  "pvid_ok K br \<Longrightarrow> ubr_vec_test (br_busy br) i \<Longrightarrow> port_vlan_ok K br (br_ports br i)"
  by (simp add: pvid_ok_def)

lemma members_okD:
  "members_ok K br \<Longrightarrow> vlan_of K br vid = Some a \<Longrightarrow> br_heap br a = Some v \<Longrightarrow>
     vlan_members_ok (br_busy br) v"
  unfolding members_ok_def by blast

lemma port_vlan_live:
  assumes "bridge_ok K br" "ubr_vec_test (br_busy br) i"
    and "cb_vlan (p_ingress_cb (br_ports br i)) = Some a"
  shows "\<exists>v. br_heap br a = Some v \<and> vl_vid v = p_pvid (br_ports br i)"
proof -
  have "vlan_of K br (p_pvid (br_ports br i)) = Some a"
    using port_vlan_okD [OF bridge_okD(4) [OF assms(1)] assms(2)] assms(3)
    by (simp add: port_vlan_ok_def)
  then show ?thesis using vlan_of_SomeD [OF bridge_okD(1) [OF assms(1)]] by blast
qed

lemma from_port_ok: "bridge_ok K br \<Longrightarrow> ubr_vec_test (br_busy br) i \<Longrightarrow> ubr_from_port br i = Inr br"
  using slots_okD [OF bridge_okD(3)] by (simp add: ubr_from_port_def slot_ok_def)

section \<open>Preservation\<close>

lemma vlan_members_new: "vlan_members_ok busy (new_vlan d vid)"
  by (simp add: vlan_members_ok_def)

lemma set_port_vlan_slot [simp]: "slot_ok i (set_port_vlan vl p) = slot_ok i p"
  by (simp add: slot_ok_def)

text \<open>A VLAN is added, and the ports waiting for it find it.\<close>

lemma bridge_ok_add_vlan:
  assumes ok: "bridge_ok K br" and new: "vlan_of K br vid = None" and fresh: "br_heap br a = None"
  shows "bridge_ok K (update_port_vlan a vid True (vlan_add K a vid br))"
proof -
  let ?b = "vlan_add K a vid br"
  let ?u = "update_port_vlan a vid True ?b"
  note table = bridge_okD(1) [OF ok]
  note add = vt.ok_add [OF table new fresh] vt.find_add [OF table new fresh]
  have eq: "vlan_table_ok K ?u = vlan_table_ok K ?b" "vlan_of K ?u = vlan_of K ?b"
    by (rule vlan_table_cong; simp)+
  have "slots_ok ?u"
    using bridge_okD(3) [OF ok]
    by (auto simp: slots_ok_def update_port_vlan_ports split: if_splits)
  moreover have "pvid_ok K ?u"
    using bridge_okD(4) [OF ok]
    by (auto simp: pvid_ok_def port_vlan_ok_def update_port_vlan_ports eq add(2))
  moreover have "members_ok K ?u"
    using bridge_okD(5) [OF ok] vt.find_fresh [OF table fresh]
    by (auto simp: members_ok_def eq add(2) vlan_members_new split: if_splits)
  ultimately show ?thesis
    using add bridge_okD(2,6) [OF ok] eq by (simp add: bridge_ok_def)
qed

text \<open>An object of the table is rewritten, with its VID and its members within the ports in use.\<close>

lemma bridge_ok_write_vlan:
  assumes ok: "bridge_ok K br" and v: "br_heap br a = Some v" and vid: "vl_vid w = vl_vid v"
    and mem: "vlan_members_ok (br_busy br) w"
  shows "bridge_ok K (vlan_write a w br)"
proof -
  note put = vt.ok_put [OF bridge_okD(1) [OF ok] v vid] vt.find_put [OF bridge_okD(1) [OF ok] v vid]
  have "members_ok K (vlan_write a w br)"
    using bridge_okD(5) [OF ok] mem by (auto simp: members_ok_def put)
  then show ?thesis
    using ok put by (simp add: bridge_ok_def slots_ok_def pvid_ok_def port_vlan_ok_def)
qed

lemma add_member_members:
  "ubr_vec_test busy i \<Longrightarrow> vlan_members_ok busy v \<Longrightarrow> vlan_members_ok busy (add_member i t v)"
  by (auto simp: vlan_members_ok_def add_member_def vec_simps dest: test_bound)

lemma del_member_members: "vlan_members_ok busy v \<Longrightarrow> vlan_members_ok busy (del_member i v)"
  by (auto simp: vlan_members_ok_def del_member_def vec_simps)

lemma bridge_ok_add_member:
  assumes "bridge_ok K br" "vlan_of K br vid = Some a" "br_heap br a = Some v"
    and "ubr_vec_test (br_busy br) i"
  shows "bridge_ok K (vlan_write a (add_member i t v) br)"
  using assms members_okD [OF bridge_okD(5) [OF assms(1)] assms(2,3)]
  by (intro bridge_ok_write_vlan [OF assms(1,3)]) (auto intro: add_member_members)

lemma bridge_ok_del_member:
  assumes "bridge_ok K br" "vlan_of K br vid = Some a" "br_heap br a = Some v"
  shows "bridge_ok K (vlan_write a (del_member i v) br)"
  using assms members_okD [OF bridge_okD(5) [OF assms(1)] assms(2,3)]
  by (intro bridge_ok_write_vlan [OF assms(1,3)]) (auto intro: del_member_members)

lemma bridge_ok_fdb: "bridge_ok K br \<Longrightarrow> fdb_ok f \<Longrightarrow> bridge_ok K (br\<lparr>br_fdb := f\<rparr>)"
  using vlan_table_cong [of "br\<lparr>br_fdb := f\<rparr>" br K]
  by (simp add: bridge_ok_def slots_ok_def pvid_ok_def port_vlan_ok_def members_ok_def)

text \<open>A port in use gets another PVID.\<close>

definition with_pvid :: "kernel \<Rightarrow> ubr \<Rightarrow> u16 \<Rightarrow> ubr_port \<Rightarrow> ubr_port" where
  "with_pvid K br pvid p =
     p\<lparr>p_pvid := pvid,
       p_ingress_cb := (p_ingress_cb p)\<lparr>cb_vlan := vlan_of K br pvid, cb_vlan_filtering := (pvid \<noteq> 0)\<rparr>\<rparr>"

lemma with_pvid_simps [simp]:
  "slot_ok i (with_pvid K br pvid p) = slot_ok i p"
  "port_vlan_ok K br (with_pvid K br pvid p)"
  "p_dev (with_pvid K br pvid p) = p_dev p"
  by (simp_all add: with_pvid_def slot_ok_def port_vlan_ok_def)

lemma port_write_table:
  "vlan_table_ok K (port_write i p br) = vlan_table_ok K br"
  "vlan_of K (port_write i p br) = vlan_of K br"
  by (rule vlan_table_cong; simp)+

lemma port_write_vlan_ok [simp]: "port_vlan_ok K (port_write i p br) = port_vlan_ok K br"
  by (simp add: port_vlan_ok_def port_write_table fun_eq_iff)

lemma bridge_ok_port_write:
  assumes ok: "bridge_ok K br" and busy: "ubr_vec_test (br_busy br) i"
    and p: "slot_ok i p" "port_vlan_ok K br p"
  shows "bridge_ok K (port_write i p br)"
  using ok busy p unfolding bridge_ok_def port_write_table
  by (simp add: slots_ok_def pvid_ok_def members_ok_def port_write_table)

lemma bridge_ok_set_pvid:
  assumes "bridge_ok K br" "ubr_vec_test (br_busy br) i"
  shows "bridge_ok K (port_write i (with_pvid K br pvid (br_ports br i)) br)"
  using slots_okD [OF bridge_okD(3) [OF assms(1)] assms(2)]
  by (intro bridge_ok_port_write [OF assms]) simp_all

section \<open>A slot comes into use\<close>

definition init_port :: "nat \<Rightarrow> netdev \<Rightarrow> addr option \<Rightarrow> ubr_port \<Rightarrow> ubr_port" where
  "init_port i dev vl p =
     p\<lparr>p_dev := Some dev,
       p_ingress_cb := (p_ingress_cb p)\<lparr>cb_pidx := of_nat i, cb_sa_learning := True,
         cb_vec := ubr_vec_clear i ubr_vec_fill, cb_vlan := vl\<rparr>\<rparr>"

definition take_slot :: "nat \<Rightarrow> ubr_port \<Rightarrow> addr \<Rightarrow> ubr_vlan \<Rightarrow> ubr \<Rightarrow> ubr" where
  "take_slot i p a v br =
     (vlan_write a v (port_write i p br))\<lparr>br_busy := ubr_vec_set i (br_busy br)\<rparr>"

lemma take_slot_frame [simp, frame_simps]:
  "br_ports (take_slot i p a v br) = (br_ports br)(i := p)"
  "br_busy (take_slot i p a v br) = ubr_vec_set i (br_busy br)"
  "br_heap (take_slot i p a v br) = (br_heap br)(a := Some v)"
  "br_vlans (take_slot i p a v br) = br_vlans br" "br_fdb (take_slot i p a v br) = br_fdb br"
  "br_rcu (take_slot i p a v br) = br_rcu br" "br_dev (take_slot i p a v br) = br_dev br"
  "br_vlan_proto (take_slot i p a v br) = br_vlan_proto br"
  by (simp_all add: take_slot_def)

lemma port_init_eq:
  assumes "vlan_table_ok K br" "vlan_of K br 0 = Some a" "br_heap br a = Some v"
  shows "ubr_port_init K i dev br =
    Inr (take_slot i (init_port i dev (Some a) (br_ports br i)) a (add_member i False v) br)"
  using assms
  by (simp add: ubr_port_init_def init_port_def take_slot_def vlan_find_total(1)
      vlan_port_add_eq Let_def)

lemma take_slot_table:
  "vlan_table_ok K (take_slot i p a v br) = vlan_table_ok K (vlan_write a v br)"
  "vlan_of K (take_slot i p a v br) = vlan_of K (vlan_write a v br)"
  by (rule vlan_table_cong; simp)+

lemma init_port_simps [simp]:
  "p_dev (init_port i dev vl p) = Some dev" "p_pvid (init_port i dev vl p) = p_pvid p"
  "cb_vlan (p_ingress_cb (init_port i dev vl p)) = vl"
  "cb_vlan_filtering (p_ingress_cb (init_port i dev vl p)) = cb_vlan_filtering (p_ingress_cb p)"
  by (simp_all add: init_port_def)

lemma zero_port_simps [simp]:
  "p_dev zero_port = None" "p_pvid zero_port = 0"
  "\<not> cb_vlan_filtering (p_ingress_cb zero_port)" "\<not> cb_ctrl (p_ingress_cb zero_port)"
  by (simp_all add: zero_port_def zero_cb_def)

lemma init_zero_slot:
  assumes "i < 256" shows "slot_ok i (init_port i dev vl zero_port)"
proof -
  have "unat (of_nat i :: u8) = i" using assms by (simp add: unsigned_of_nat take_bit_eq_mod)
  then show ?thesis by (simp add: slot_ok_def init_port_def zero_port_def zero_cb_def)
qed

lemma vlan_members_mono:
  "vlan_members_ok busy v \<Longrightarrow> (\<And>j. ubr_vec_test busy j \<Longrightarrow> ubr_vec_test busy' j) \<Longrightarrow>
     vlan_members_ok busy' v"
  by (auto simp: vlan_members_ok_def)

text \<open>Initialising a slot that is idle and not waiting to be cleared keeps the invariant.\<close>

lemma bridge_ok_port_init:
  assumes ok: "bridge_ok K br" and i: "i < 256" "\<not> ubr_vec_test (br_busy br) i"
    and idle: "Port_Cleanup_Rcu i \<notin> set (br_rcu br)"
  obtains a v where "vlan_of K br 0 = Some a" "br_heap br a = Some v"
    "ubr_port_init K i dev br =
       Inr (take_slot i (init_port i dev (Some a) zero_port) a (add_member i False v) br)"
    "bridge_ok K (take_slot i (init_port i dev (Some a) zero_port) a (add_member i False v) br)"
proof -
  note table = bridge_okD(1) [OF ok]
  from bridge_okD(2) [OF ok] obtain a where a: "vlan_of K br 0 = Some a" by auto
  with vlan_of_SomeD(1) [OF table] obtain v where v: "br_heap br a = Some v" by blast
  have zero: "br_ports br i = zero_port"
    by (rule slots_idleD [OF bridge_okD(3) [OF ok] i(2) idle])
  let ?p = "init_port i dev (Some a) zero_port"
  let ?w = "vlan_write a (add_member i False v) br"
  let ?b = "take_slot i ?p a (add_member i False v) br"
  have w: "vlan_table_ok K ?w" "vlan_of K ?w = vlan_of K br"
    using vt.ok_put [OF table v] vt.find_put [OF table v] by simp_all
  note eq = take_slot_table [of K i ?p a "add_member i False v" br]
  have "slots_ok ?b"
    using bridge_okD(3) [OF ok] init_zero_slot [OF i(1)] i
    by (auto simp: slots_ok_def vec_simps)
  moreover have "pvid_ok K ?b"
    using bridge_okD(4) [OF ok] a
    by (auto simp: pvid_ok_def port_vlan_ok_def eq w vec_simps)
  moreover have "members_ok K ?b"
  proof -
    have old: "vlan_members_ok (br_busy ?b) u" if "vlan_of K br vid = Some b" "br_heap br b = Some u"
      for vid b u
      using members_okD [OF bridge_okD(5) [OF ok] that]
      by (rule vlan_members_mono) (simp add: vec_simps)
    have "vlan_members_ok (br_busy ?b) (add_member i False v)"
      using old [OF a v] i(1) by (intro add_member_members) (auto simp: vec_simps)
    with old show ?thesis by (auto simp: members_ok_def eq w)
  qed
  ultimately have "bridge_ok K ?b"
    using bridge_okD(2,6) [OF ok] by (simp add: bridge_ok_def eq w)
  with a v port_init_eq [OF table a v, of i dev] zero show thesis
    by (intro that [of a v]) simp_all
qed

end
