(* ===== verification/Ubr_Dev.thy ===== *)
theory Ubr_Dev
  imports Ubr_Bridge
begin

text \<open>
  The bridge as a network device (kernel/ubr-dev.c): transmission from the host, creation
  and removal, the device notifier, and the module's own initialisation with the release of
  what it has acquired on each error path.
\<close>

section \<open>Transmission from the host\<close>

text \<open>
  A frame the host sends enters as if received on port 0. Control traffic is looped back
  with \<^verbatim>\<open>dev_forward_skb\<close>.
\<close>

definition ubr_ndo_start_xmit ::
  "kernel \<Rightarrow> frame_env \<Rightarrow> ubr \<Rightarrow> sk_buff \<Rightarrow> (ubr \<times> tx list) res" where
  "ubr_ndo_start_xmit K E br s =
     andthen
       (ubr_forward K E br ((skb_pull s ETH_HLEN)\<lparr>skb_cb := p_ingress_cb (br_ports br 0)\<rparr>))
       (\<lambda>(r, br', s', ts). Inr (br', if r then ts @ [DevForwardSkb s'] else ts))"

definition ubr_ndo_add_slave ::
  "kernel \<Rightarrow> port_add_env \<Rightarrow> netdev \<Rightarrow> netdev \<Rightarrow> world \<Rightarrow> (int \<times> world) res" where
  "ubr_ndo_add_slave K P dev slave_dev w = ubr_port_add K P dev slave_dev w"

definition ubr_ndo_del_slave :: "netdev \<Rightarrow> netdev \<Rightarrow> world \<Rightarrow> (int \<times> world) res" where
  "ubr_ndo_del_slave dev slave_dev w = ubr_port_del dev slave_dev w"

section \<open>Creation\<close>

definition zero_fdb :: ubr_fdb where
  "zero_fdb = \<lparr>f_nodes = (\<lambda>_. None), f_ageing_timeout = 0, f_age_work = None\<rparr>"

text \<open>The private data after the \<^verbatim>\<open>memset\<close> and \<^verbatim>\<open>hash_init\<close> of a new bridge.\<close>

definition zero_ubr :: "netdev \<Rightarrow> ubr" where
  "zero_ubr dev = \<lparr>br_dev = dev, br_active = 0, br_vlan_proto = ETH_P_8021Q,
     br_vlans = (\<lambda>_. []), br_fdb = zero_fdb, br_busy = 0, br_ports = (\<lambda>_. zero_port),
     br_heap = (\<lambda>_. None), br_rcu = []\<rparr>"

text \<open>\<open>random_addr\<close> is what \<^verbatim>\<open>eth_hw_addr_random\<close> draws.\<close>

definition ubr_dev_setup :: "mac \<Rightarrow> net_device \<Rightarrow> net_device" where
  "ubr_dev_setup random_addr d =
     d\<lparr>nd_dev_addr := random_addr, nd_type := ARPHRD_ETHER, nd_addr_len := ETH_ALEN,
       nd_is_ubr := True\<rparr>"

text \<open>
  The results of the fallible calls: the allocation of VLAN 0, \<^verbatim>\<open>rhashtable_init\<close>,
  \<^verbatim>\<open>register_netdevice\<close>, and the walk of the flush on the error path.
\<close>

record newlink_env =
  nl_mem :: "addr option"
  nl_rht_err :: int
  nl_register_err :: int
  nl_walk :: "walk_item list"

definition ubr_dev_newlink ::
  "kernel \<Rightarrow> newlink_env \<Rightarrow> netdev \<Rightarrow> net_device \<Rightarrow> world \<Rightarrow> (int \<times> world) res" where
  "ubr_dev_newlink K L dev nd w =
     andthen (ubr_vlan_newlink K (nl_mem L) (zero_ubr dev)) (\<lambda>(err, br1).
       if err \<noteq> 0 then Inr (err, br_put dev br1 w)
       else
         let (err2, fdb) = ubr_fdb_newlink K (w_jiffies w) (nl_rht_err L) (br_fdb br1);
             br2 = br1\<lparr>br_fdb := fdb\<rparr> in
         if err2 \<noteq> 0 then Inr (err2, br_put dev (ubr_vlan_dellink br2) w)
         else andthen (ubr_port_init K 0 dev br2) (\<lambda>br3.
           if nl_register_err L \<noteq> 0
           then Inr (nl_register_err L,
             br_put dev (ubr_vlan_dellink
               (br3\<lparr>br_fdb := ubr_fdb_dellink (w_jiffies w) (nl_walk L) (br_fdb br3)\<rparr>)) w)
           else Inr (0, (br_put dev br3 w)\<lparr>w_devs := (w_devs w)(dev := Some nd)\<rparr>)))"

section \<open>Removal\<close>

text \<open>
  The loop reads the bitmap again before each bit, as \<^verbatim>\<open>for_each_set_bit\<close> does, since
  detaching a port clears its bit.
\<close>

definition dellink_step :: "netdev \<Rightarrow> nat \<Rightarrow> world \<Rightarrow> world res" where
  "dellink_step b pidx w =
     andthen (netdev_priv w b) (\<lambda>br.
       if \<not> ubr_vec_test (br_busy br) pidx \<or> pidx = 0 then Inr w
       else andthen (nonnull (p_dev (br_ports br pidx))) (\<lambda>d.
         andthen (ubr_port_del b d w) (\<lambda>(_, w'). Inr w')))"

definition ubr_dev_dellink :: "walk_item list \<Rightarrow> netdev \<Rightarrow> world \<Rightarrow> world res" where
  "ubr_dev_dellink walk b w =
     andthen (foldres (dellink_step b) [0..<UBR_MAX_PORTS] w) (\<lambda>w1.
     andthen (netdev_priv w1 b) (\<lambda>br.
       let br1 = ubr_vlan_dellink
                   (br\<lparr>br_fdb := ubr_fdb_dellink (w_jiffies w1) walk (br_fdb br)\<rparr>)
       in Inr ((br_put b br1 w1)\<lparr>w_devs := (w_devs w1)(b := None)\<rparr>)))"

section \<open>Device events\<close>

datatype netdev_event = NETDEV_UNREGISTER | NETDEV_PRE_TYPE_CHANGE | NETDEV_OTHER
datatype notify_result = NOTIFY_DONE | NOTIFY_BAD

definition ubr_device_event ::
  "netdev_event \<Rightarrow> netdev \<Rightarrow> world \<Rightarrow> (notify_result \<times> world) res" where
  "ubr_device_event event dev w =
     andthen (dev_at w dev) (\<lambda>d.
       if \<not> netif_is_ubr_port d then Inr (NOTIFY_DONE, w)
       else case event of
         NETDEV_UNREGISTER \<Rightarrow>
           andthen (nonnull (nd_rx_handler_data d)) (\<lambda>(b, i).
           andthen (netdev_priv w b) (\<lambda>br.
           andthen (ubr_from_port br i) (\<lambda>_.
           andthen (ubr_port_del b dev w) (\<lambda>(_, w'). Inr (NOTIFY_DONE, w')))))
       | NETDEV_PRE_TYPE_CHANGE \<Rightarrow> Inr (NOTIFY_BAD, w)
       | NETDEV_OTHER \<Rightarrow> Inr (NOTIFY_DONE, w))"

section \<open>Module initialisation\<close>

text \<open>What the module has registered with the kernel.\<close>

record module_state =
  ms_fdb_cache :: bool
  ms_notifier :: bool
  ms_rtnl_link :: bool
  ms_genl_family :: bool

definition module_unloaded :: module_state where
  "module_unloaded = \<lparr>ms_fdb_cache = False, ms_notifier = False, ms_rtnl_link = False,
     ms_genl_family = False\<rparr>"

record module_env =
  me_cache_ok :: bool
  me_notifier_err :: int
  me_rtnl_err :: int
  me_genl_err :: int

definition ubr_fdb_cache_init :: "bool \<Rightarrow> module_state \<Rightarrow> int \<times> module_state" where
  "ubr_fdb_cache_init ok m = (if ok then (0, m\<lparr>ms_fdb_cache := True\<rparr>) else (- ENOMEM, m))"

definition ubr_fdb_cache_fini :: "module_state \<Rightarrow> module_state" where
  "ubr_fdb_cache_fini m = m\<lparr>ms_fdb_cache := False\<rparr>"

definition ubr_netlink_init :: "int \<Rightarrow> module_state \<Rightarrow> int \<times> module_state" where
  "ubr_netlink_init err m = (if err \<noteq> 0 then (err, m) else (0, m\<lparr>ms_genl_family := True\<rparr>))"

definition ubr_netlink_exit :: "module_state \<Rightarrow> module_state" where
  "ubr_netlink_exit m = m\<lparr>ms_genl_family := False\<rparr>"

definition ubr_module_init :: "module_env \<Rightarrow> module_state \<Rightarrow> int \<times> module_state" where
  "ubr_module_init M m =
     (let (err, m1) = ubr_fdb_cache_init (me_cache_ok M) m in
      if err \<noteq> 0 then (err, m1)
      else if me_notifier_err M \<noteq> 0 then (me_notifier_err M, ubr_fdb_cache_fini m1)
      else
        let m2 = m1\<lparr>ms_notifier := True\<rparr>;
            err_unreg_notifier = (\<lambda>m. ubr_fdb_cache_fini (m\<lparr>ms_notifier := False\<rparr>)) in
        if me_rtnl_err M \<noteq> 0 then (me_rtnl_err M, err_unreg_notifier m2)
        else
          let m3 = m2\<lparr>ms_rtnl_link := True\<rparr>;
              (err4, m4) = ubr_netlink_init (me_genl_err M) m3 in
          if err4 \<noteq> 0 then (err4, err_unreg_notifier m4)
          else (0, m4))"

definition ubr_module_cleanup :: "module_state \<Rightarrow> module_state" where
  "ubr_module_cleanup m =
     ubr_fdb_cache_fini
       ((ubr_netlink_exit m)\<lparr>ms_rtnl_link := False\<rparr>\<lparr>ms_notifier := False\<rparr>)"

end
