(* ===== verification/Ubr_Netlink.thy ===== *)
theory Ubr_Netlink
  imports Ubr_Dev
begin

text \<open>
  The netlink interface (kernel/ubr-netlink.c, kernel/ubr-netlink.h, and the command handlers
  of ubr-vlan.c, ubr-port.c and ubr-fdb.c): finding the bridge a request names, the handlers
  with every error path and every device reference they take and drop, and the dispatch.
\<close>

section \<open>Requests\<close>

datatype ubr_nl_cmd =
    UBR_NL_FDB_FLUSH
  | UBR_NL_VLAN_ADD
  | UBR_NL_VLAN_DEL
  | UBR_NL_VLAN_SET
  | UBR_NL_VLAN_ATTACH
  | UBR_NL_VLAN_DETACH
  | UBR_NL_PORT_SET

fun nl_cmd_num :: "ubr_nl_cmd \<Rightarrow> nat" where
  "nl_cmd_num UBR_NL_FDB_FLUSH = 1"
| "nl_cmd_num UBR_NL_VLAN_ADD = 2"
| "nl_cmd_num UBR_NL_VLAN_DEL = 3"
| "nl_cmd_num UBR_NL_VLAN_SET = 4"
| "nl_cmd_num UBR_NL_VLAN_ATTACH = 5"
| "nl_cmd_num UBR_NL_VLAN_DETACH = 6"
| "nl_cmd_num UBR_NL_PORT_SET = 7"

definition UBR_NLA_IFINDEX :: nat where "UBR_NLA_IFINDEX = 1"
definition UBR_NLA_FDB :: nat where "UBR_NLA_FDB = 2"
definition UBR_NLA_VLAN :: nat where "UBR_NLA_VLAN = 3"
definition UBR_NLA_PORT :: nat where "UBR_NLA_PORT = 4"

definition UBR_NLA_VLAN_VID :: nat where "UBR_NLA_VLAN_VID = 1"
definition UBR_NLA_VLAN_PORT :: nat where "UBR_NLA_VLAN_PORT = 2"
definition UBR_NLA_VLAN_TAGGED :: nat where "UBR_NLA_VLAN_TAGGED = 3"
definition UBR_NLA_VLAN_LEARNING :: nat where "UBR_NLA_VLAN_LEARNING = 4"

definition UBR_NLA_PORT_IFINDEX :: nat where "UBR_NLA_PORT_IFINDEX = 1"
definition UBR_NLA_PORT_PVID :: nat where "UBR_NLA_PORT_PVID = 2"

text \<open>
  A nested attribute as the list of its attributes. Parsing it against a policy is the netlink
  library's (\<open>nl_parse_vlan\<close>, \<open>nl_parse_port\<close>): an error code, and the table of the
  attributes found, whose entries have the types the policies
  \<^verbatim>\<open>ubr_nl_vlan_policy\<close> and \<^verbatim>\<open>ubr_nl_port_policy\<close> ask for.
\<close>

datatype nlval = NlU16 u16 | NlU32 u32 | NlStr string

type_synonym nested = "(nat \<times> nlval) list"

record vlan_attrs =
  va_vid :: "u16 option"
  va_port :: "u32 option"
  va_tagged :: "u32 option"
  va_learning :: "u32 option"

record port_attrs =
  pa_ifindex :: "u32 option"
  pa_pvid :: "u16 option"

record netlink_lib =
  nl_parse_vlan :: "nested \<Rightarrow> int \<times> vlan_attrs"
  nl_parse_port :: "nested \<Rightarrow> int \<times> port_attrs"

record info_attrs =
  ia_ifindex :: "u32 option"
  ia_fdb :: "nested option"
  ia_vlan :: "nested option"
  ia_port :: "nested option"

text \<open>\<open>gi_attrs\<close> is \<open>None\<close> when \<^verbatim>\<open>info->attrs\<close> is NULL.\<close>

record genl_info =
  gi_attrs :: "info_attrs option"

section \<open>Devices by index, with their reference counts\<close>

definition dev_get_by_index :: "u32 \<Rightarrow> world \<Rightarrow> netdev option \<times> world" where
  "dev_get_by_index i w =
     (case w_devs w i of
        None \<Rightarrow> (None, w)
      | Some _ \<Rightarrow> (Some i, dev_upd i (\<lambda>d. d\<lparr>nd_refcnt := nd_refcnt d + 1\<rparr>) w))"

definition dev_put :: "netdev \<Rightarrow> world \<Rightarrow> world" where
  "dev_put i w = dev_upd i (\<lambda>d. d\<lparr>nd_refcnt := nd_refcnt d - 1\<rparr>) w"

text \<open>The bridge device a request names, with a reference, or NULL.\<close>

definition ubr_netlink_dev :: "genl_info \<Rightarrow> world \<Rightarrow> (netdev option \<times> world) res" where
  "ubr_netlink_dev info w =
     andthen (nonnull (gi_attrs info)) (\<lambda>attrs.
       case ia_ifindex attrs of
         None \<Rightarrow> Inr (None, w)
       | Some i \<Rightarrow>
           (case dev_get_by_index i w of
              (None, w1) \<Rightarrow> Inr (None, w1)
            | (Some dev, w1) \<Rightarrow>
                andthen (dev_at w1 dev) (\<lambda>d.
                  if \<not> nd_is_ubr d then Inr (None, dev_put dev w1) else Inr (Some dev, w1))))"

section \<open>Reading the attributes\<close>

definition get_vid :: "netlink_lib \<Rightarrow> genl_info \<Rightarrow> int + (vlan_attrs \<times> u16)" where
  "get_vid N info =
     (case gi_attrs info of
        None \<Rightarrow> Inl (- EINVAL)
      | Some ia \<Rightarrow>
          (case ia_vlan ia of
             None \<Rightarrow> Inl (- EINVAL)
           | Some nest \<Rightarrow>
               let (err, attrs) = nl_parse_vlan N nest in
               if err \<noteq> 0 then Inl err
               else (case va_vid attrs of
                       None \<Rightarrow> Inl (- EINVAL)
                     | Some vid \<Rightarrow> Inr (attrs, vid))))"

text \<open>The port's index, and the tagged flag, 0 when it is not given.\<close>

definition get_port :: "vlan_attrs \<Rightarrow> int + (u32 \<times> u32)" where
  "get_port attrs =
     (case va_port attrs of
        None \<Rightarrow> Inl (- EINVAL)
      | Some port \<Rightarrow> Inr (port, case va_tagged attrs of None \<Rightarrow> 0 | Some t \<Rightarrow> t))"

definition get_learning :: "vlan_attrs \<Rightarrow> int + u32" where
  "get_learning attrs =
     (case va_learning attrs of None \<Rightarrow> Inl (- EINVAL) | Some learning \<Rightarrow> Inr learning)"

text \<open>\<^verbatim>\<open>__get_port\<close> of ubr-port.c.\<close>

definition get_port_attrs :: "netlink_lib \<Rightarrow> genl_info \<Rightarrow> int + (port_attrs \<times> u32)" where
  "get_port_attrs N info =
     (case gi_attrs info of
        None \<Rightarrow> Inl (- EINVAL)
      | Some ia \<Rightarrow>
          (case ia_port ia of
             None \<Rightarrow> Inl (- EINVAL)
           | Some nest \<Rightarrow>
               let (err, attrs) = nl_parse_port N nest in
               if err \<noteq> 0 then Inl err
               else (case pa_ifindex attrs of
                       None \<Rightarrow> Inl (- EINVAL)
                     | Some port \<Rightarrow> Inr (attrs, port))))"

text \<open>
  \<^verbatim>\<open>__get_bridge_vlan_port\<close>: an error, or the bridge, the VLAN, the port's device (with a
  reference) and the tagged flag. The VLAN may be NULL: the tests after the two lookups are
  on the address of the result, which is never NULL.
\<close>

definition get_bridge_vlan_port ::
  "kernel \<Rightarrow> netlink_lib \<Rightarrow> genl_info \<Rightarrow> world \<Rightarrow>
     ((int + (netdev \<times> addr option \<times> netdev \<times> u32)) \<times> world) res" where
  "get_bridge_vlan_port K N info w =
     andthen (ubr_netlink_dev info w) (\<lambda>(dev, w1).
       case dev of
         None \<Rightarrow> Inr (Inl (- EINVAL), w1)
       | Some b \<Rightarrow>
           (case get_vid N info of
              Inl err \<Rightarrow> Inr (Inl err, dev_put b w1)
            | Inr (attrs, vid) \<Rightarrow>
                (case get_port attrs of
                   Inl err \<Rightarrow> Inr (Inl err, dev_put b w1)
                 | Inr (ifindex, tagged) \<Rightarrow>
                     (case dev_get_by_index ifindex w1 of
                        (None, w2) \<Rightarrow> Inr (Inl (- EINVAL), dev_put b w2)
                      | (Some port, w2) \<Rightarrow>
                          andthen (netdev_priv w2 b) (\<lambda>br.
                          andthen (ubr_vlan_find K br vid) (\<lambda>vl.
                            Inr (Inr (b, vl, port, tagged), dev_put b w2)))))))"

section \<open>The handlers\<close>

type_synonym handler_result = "(int \<times> world) res"

definition ubr_vlan_nl_add_cmd ::
  "kernel \<Rightarrow> netlink_lib \<Rightarrow> addr option \<Rightarrow> genl_info \<Rightarrow> world \<Rightarrow> handler_result" where
  "ubr_vlan_nl_add_cmd K N mem info w =
     (case get_vid N info of
        Inl err \<Rightarrow> Inr (err, w)
      | Inr (_, vid) \<Rightarrow>
          andthen (ubr_netlink_dev info w) (\<lambda>(dev, w1).
            case dev of
              None \<Rightarrow> Inr (- EINVAL, w1)
            | Some b \<Rightarrow>
                andthen (netdev_priv w1 b) (\<lambda>br.
                let w2 = dev_put b w1 in
                andthen (ubr_vlan_new K mem vid 0 0 br) (\<lambda>(r, br1).
                  case r of
                    Inl err \<Rightarrow> Inr (err, br_put b br1 w2)
                  | Inr a \<Rightarrow>
                      andthen (vlan_at br1 a) (\<lambda>v.
                        Inr (0, br_put b (update_port_vlan a (vl_vid v) True br1) w2))))))"

definition ubr_vlan_nl_del_cmd ::
  "kernel \<Rightarrow> netlink_lib \<Rightarrow> genl_info \<Rightarrow> world \<Rightarrow> handler_result" where
  "ubr_vlan_nl_del_cmd K N info w =
     (case get_vid N info of
        Inl err \<Rightarrow> Inr (err, w)
      | Inr (_, vid) \<Rightarrow>
          andthen (ubr_netlink_dev info w) (\<lambda>(dev, w1).
            case dev of
              None \<Rightarrow> Inr (- EINVAL, w1)
            | Some b \<Rightarrow>
                andthen (netdev_priv w1 b) (\<lambda>br.
                let w2 = dev_put b w1 in
                andthen (ubr_vlan_find K br vid) (\<lambda>vl.
                  case vl of
                    None \<Rightarrow> Inr (- ENOENT, w2)
                  | Some a \<Rightarrow>
                      andthen (vlan_at br a) (\<lambda>v.
                      andthen (ubr_vlan_del a (update_port_vlan a (vl_vid v) False br))
                        (\<lambda>(ret, br'). Inr (ret, br_put b br' w2)))))))"

text \<open>
  \<^verbatim>\<open>ubr_vlan_nl_set_cmd\<close> and \<^verbatim>\<open>ubr_fdb_nl_flush_cmd\<close> only log: they read the name of the
  device without testing the pointer and change nothing. The learning attribute of the first
  goes into \<open>flags\<close>, a part of the log line, alone.
\<close>

definition ubr_vlan_nl_set_cmd ::
  "netlink_lib \<Rightarrow> genl_info \<Rightarrow> world \<Rightarrow> handler_result" where
  "ubr_vlan_nl_set_cmd N info w =
     (case get_vid N info of
        Inl err \<Rightarrow> Inr (err, w)
      | Inr (attrs, vid) \<Rightarrow>
          let flags = (case get_learning attrs of
                Inl err \<Rightarrow> ''''
              | Inr learning \<Rightarrow> '' learning '' @ (if learning \<noteq> 0 then ''on'' else ''off'')) in
          andthen (ubr_netlink_dev info w) (\<lambda>(dev, w1).
          andthen (nonnull dev) (\<lambda>b. Inr (0, dev_put b w1))))"

definition ubr_vlan_nl_attach_cmd ::
  "kernel \<Rightarrow> netlink_lib \<Rightarrow> genl_info \<Rightarrow> world \<Rightarrow> handler_result" where
  "ubr_vlan_nl_attach_cmd K N info w =
     andthen (get_bridge_vlan_port K N info w) (\<lambda>(r, w1).
       case r of
         Inl err \<Rightarrow> Inr (err, w1)
       | Inr (b, vl, port, tagged) \<Rightarrow>
           andthen (netdev_priv w1 b) (\<lambda>br.
             let pidx = ubr_port_find br (Some port) in
             if pidx < 0 then Inr (- ENODEV, dev_put port w1)
             else andthen (ubr_vlan_port_add vl (nat pidx) (tagged \<noteq> 0) br) (\<lambda>(ret, br').
               Inr (ret, br_put b br' (dev_put port w1)))))"

definition ubr_vlan_nl_detach_cmd ::
  "kernel \<Rightarrow> netlink_lib \<Rightarrow> genl_info \<Rightarrow> world \<Rightarrow> handler_result" where
  "ubr_vlan_nl_detach_cmd K N info w =
     andthen (get_bridge_vlan_port K N info w) (\<lambda>(r, w1).
       case r of
         Inl err \<Rightarrow> Inr (err, w1)
       | Inr (b, vl, port, _) \<Rightarrow>
           andthen (netdev_priv w1 b) (\<lambda>br.
             let pidx = ubr_port_find br (Some port) in
             if pidx < 0 then Inr (0, dev_put port w1)
             else andthen (vlan_deref br vl) (\<lambda>_.
               andthen (ubr_vlan_port_del vl (nat pidx) br) (\<lambda>(ret, br').
                 Inr (ret, br_put b br' (dev_put port w1))))))"

text \<open>
  The reference on the port's device that \<^verbatim>\<open>dev_get_by_index\<close> takes is not dropped on any
  path.
\<close>

definition ubr_port_nl_set_cmd ::
  "kernel \<Rightarrow> netlink_lib \<Rightarrow> genl_info \<Rightarrow> world \<Rightarrow> handler_result" where
  "ubr_port_nl_set_cmd K N info w =
     (case get_port_attrs N info of
        Inl err \<Rightarrow> Inr (err, w)
      | Inr (attrs, ifindex) \<Rightarrow>
          (case dev_get_by_index ifindex w of (port, w1) \<Rightarrow>
            let pvid = (case pa_pvid attrs of None \<Rightarrow> 0 | Some v \<Rightarrow> v) in
            andthen (ubr_netlink_dev info w1) (\<lambda>(dev, w2).
              case dev of
                None \<Rightarrow> Inr (- EINVAL, w2)
              | Some b \<Rightarrow>
                  andthen (netdev_priv w2 b) (\<lambda>br.
                    let pidx = ubr_port_find br port in
                    if pidx < 0 \<or> pidx \<ge> int UBR_MAX_PORTS then Inr (- EINVAL, dev_put b w2)
                    else
                      let i = nat pidx; p = br_ports br i in
                      andthen (ubr_vlan_find K br pvid) (\<lambda>vl.
                        let cb = (p_ingress_cb p)\<lparr>cb_vlan := vl, cb_vlan_filtering := (pvid \<noteq> 0)\<rparr>
                        in Inr (0, br_put b (port_write i (p\<lparr>p_pvid := pvid, p_ingress_cb := cb\<rparr>) br)
                                     (dev_put b w2)))))))"

definition ubr_fdb_nl_flush_cmd :: "genl_info \<Rightarrow> world \<Rightarrow> handler_result" where
  "ubr_fdb_nl_flush_cmd info w =
     andthen (ubr_netlink_dev info w) (\<lambda>(dev, w1).
     andthen (nonnull dev) (\<lambda>b. Inr (0, dev_put b w1)))"

text \<open>The table \<^verbatim>\<open>ubr_genl_ops\<close>.\<close>

fun ubr_genl_doit ::
  "kernel \<Rightarrow> netlink_lib \<Rightarrow> addr option \<Rightarrow> ubr_nl_cmd \<Rightarrow> genl_info \<Rightarrow> world \<Rightarrow> handler_result" where
  "ubr_genl_doit K N mem UBR_NL_FDB_FLUSH info w = ubr_fdb_nl_flush_cmd info w"
| "ubr_genl_doit K N mem UBR_NL_VLAN_ADD info w = ubr_vlan_nl_add_cmd K N mem info w"
| "ubr_genl_doit K N mem UBR_NL_VLAN_DEL info w = ubr_vlan_nl_del_cmd K N info w"
| "ubr_genl_doit K N mem UBR_NL_VLAN_SET info w = ubr_vlan_nl_set_cmd N info w"
| "ubr_genl_doit K N mem UBR_NL_VLAN_ATTACH info w = ubr_vlan_nl_attach_cmd K N info w"
| "ubr_genl_doit K N mem UBR_NL_VLAN_DETACH info w = ubr_vlan_nl_detach_cmd K N info w"
| "ubr_genl_doit K N mem UBR_NL_PORT_SET info w = ubr_port_nl_set_cmd K N info w"

section \<open>References\<close>

definition hold :: "netdev \<Rightarrow> world \<Rightarrow> world" where
  "hold i w = dev_upd i (\<lambda>d. d\<lparr>nd_refcnt := nd_refcnt d + 1\<rparr>) w"

lemma hold_frame [simp, frame_simps]:
  "w_bridges (hold i w) = w_bridges w" "w_jiffies (hold i w) = w_jiffies w"
  by (simp_all add: hold_def)

lemma dev_put_frame [simp, frame_simps]:
  "w_bridges (dev_put i w) = w_bridges w" "w_jiffies (dev_put i w) = w_jiffies w"
  by (simp_all add: dev_put_def)

lemma hold_br_put: "hold i (br_put b br w) = br_put b br (hold i w)"
  by (simp add: hold_def dev_upd_br_put)

lemma dev_put_br_put: "dev_put i (br_put b br w) = br_put b br (dev_put i w)"
  by (simp add: dev_put_def dev_upd_br_put)

text \<open>A reference taken and dropped leaves no trace, whatever else is held in between.\<close>

lemma put_hold [simp]: "dev_put i (hold i w) = w"
  by (rule world_eqI) (simp_all add: dev_put_def hold_def option.map_comp o_def option.map_ident)

lemma put_hold_between: "dev_put i (hold j (hold i w)) = hold j w"
proof (cases "i = j")
  case False
  then show ?thesis
    by (intro world_eqI)
      (simp_all add: dev_put_def hold_def option.map_comp o_def option.map_ident fun_eq_iff)
qed simp

lemma get_by_index_eq:
  "dev_get_by_index i w = (if w_devs w i = None then (None, w) else (Some i, hold i w))"
  by (auto simp: dev_get_by_index_def hold_def split: option.split)

lemma netdev_priv_frame [simp]:
  "netdev_priv (hold i w) = netdev_priv w" "netdev_priv (dev_put i w) = netdev_priv w"
  by (simp_all add: netdev_priv_def fun_eq_iff)

lemma netdev_priv_Inr_iff [res_simps]: "netdev_priv w b = Inr br \<longleftrightarrow> w_bridges w b = Some br"
  by (auto simp: netdev_priv_def split: option.split)

text \<open>The bridge of a request, with the reference the caller has to drop.\<close>

definition named_bridge :: "genl_info \<Rightarrow> netdev option" where
  "named_bridge info = Option.bind (gi_attrs info) ia_ifindex"

lemma netlink_dev_result:
  "ubr_netlink_dev info w = Inr (r, w1) \<Longrightarrow>
     r = None \<and> w1 = w \<or>
     (\<exists>b. r = Some b \<and> w1 = hold b w \<and> w_devs w b \<noteq> None \<and> named_bridge info = Some b)"
  by (auto simp: named_bridge_def ubr_netlink_dev_def get_by_index_eq res_simps split: option.splits if_splits)

lemma netlink_dev_cases:
  assumes "ubr_netlink_dev info w = Inr (r, w1)"
  obtains "r = None" "w1 = w"
  | b where "r = Some b" "w1 = hold b w" "w_devs w b \<noteq> None" "named_bridge info = Some b"
  using netlink_dev_result [OF assms] by blast

section \<open>The errors a request can end in\<close>

text \<open>
  \<open>parse_error\<close>: what the library reports for the nested attribute the handler parses, when it
  is there. The handlers add errors of their own.
\<close>

definition parse_error :: "(nested \<Rightarrow> int \<times> 'a) \<Rightarrow> nested option \<Rightarrow> int \<Rightarrow> bool" where
  "parse_error parse nest err =
     (err \<noteq> 0 \<and> (case nest of None \<Rightarrow> False | Some n \<Rightarrow> err = fst (parse n)))"

definition vlan_error :: "netlink_lib \<Rightarrow> genl_info \<Rightarrow> int \<Rightarrow> bool" where
  "vlan_error N info err =
     (err = - EINVAL \<or> parse_error (nl_parse_vlan N) (Option.bind (gi_attrs info) ia_vlan) err)"

definition port_error :: "netlink_lib \<Rightarrow> genl_info \<Rightarrow> int \<Rightarrow> bool" where
  "port_error N info err =
     (err = - EINVAL \<or> parse_error (nl_parse_port N) (Option.bind (gi_attrs info) ia_port) err)"

fun request_error :: "netlink_lib \<Rightarrow> genl_info \<Rightarrow> ubr_nl_cmd \<Rightarrow> int \<Rightarrow> bool" where
  "request_error N info UBR_NL_FDB_FLUSH err = False"
| "request_error N info UBR_NL_VLAN_ADD err = (vlan_error N info err \<or> err = - EBUSY \<or> err = - ENOMEM)"
| "request_error N info UBR_NL_VLAN_DEL err = (vlan_error N info err \<or> err = - ENOENT)"
| "request_error N info UBR_NL_VLAN_SET err = vlan_error N info err"
| "request_error N info UBR_NL_VLAN_ATTACH err = (vlan_error N info err \<or> err = - ENODEV)"
| "request_error N info UBR_NL_VLAN_DETACH err = vlan_error N info err"
| "request_error N info UBR_NL_PORT_SET err = port_error N info err"

lemma vlan_error_EINVAL [simp]: "vlan_error N info (- EINVAL)"
  by (simp add: vlan_error_def)

lemma port_error_EINVAL [simp]: "port_error N info (- EINVAL)"
  by (simp add: port_error_def)

lemma get_vid_error: "get_vid N info = Inl err \<Longrightarrow> vlan_error N info err"
  by (auto simp: get_vid_def vlan_error_def parse_error_def Let_def
    split: option.splits prod.splits if_splits)

lemma get_port_attrs_error: "get_port_attrs N info = Inl err \<Longrightarrow> port_error N info err"
  by (auto simp: get_port_attrs_def port_error_def parse_error_def Let_def
    split: option.splits prod.splits if_splits)

lemma get_port_error: "get_port attrs = Inl err \<Longrightarrow> vlan_error N info err"
  by (auto simp: get_port_def split: option.splits)

lemma request_error_nonzero: "request_error N info cmd err \<Longrightarrow> err \<noteq> 0"
  by (cases cmd) (auto simp: vlan_error_def port_error_def parse_error_def)

section \<open>What each handler leaves behind\<close>

lemma bridge_vlan_port_result:
  assumes "get_bridge_vlan_port K N info w = Inr (r, w1)"
  shows "(\<exists>err. r = Inl err \<and> vlan_error N info err) \<and> w1 = w \<or>
    (\<exists>b br vl vid port tagged. r = Inr (b, vl, port, tagged) \<and> w1 = hold port w \<and>
       w_bridges w b = Some br \<and> named_bridge info = Some b \<and>
       ubr_vlan_find K br vid = Inr vl \<and> w_devs w port \<noteq> None \<and>
       (\<exists>attrs. get_vid N info = Inr (attrs, vid) \<and> get_port attrs = Inr (port, tagged)))"
proof -
  from assms obtain dev w0 where n: "ubr_netlink_dev info w = Inr (dev, w0)"
    by (auto simp: get_bridge_vlan_port_def res_simps)
  from n show ?thesis
  proof (cases rule: netlink_dev_cases)
    case 1
    with assms n show ?thesis by (auto simp: get_bridge_vlan_port_def)
  next
    case (2 b)
    show ?thesis
    proof (cases "get_vid N info")
      case (Inl err)
      with assms n 2 get_vid_error [OF Inl] show ?thesis
        by (auto simp: get_bridge_vlan_port_def)
    next
      case (Inr av)
      obtain attrs vid where av: "av = (attrs, vid)" by (cases av)
      show ?thesis
      proof (cases "get_port attrs")
        case (Inl err)
        with assms n 2 Inr av get_port_error [OF Inl] show ?thesis
          by (auto simp: get_bridge_vlan_port_def)
      next
        case p: (Inr it)
        obtain i tagged where it: "it = (i, tagged)" by (cases it)
        show ?thesis
        proof (cases "w_devs w i")
          case None
          then have "w_devs (hold b w) i = None" using 2 by (auto simp: hold_def)
          with assms n 2 Inr av p it show ?thesis
            by (auto simp: get_bridge_vlan_port_def get_by_index_eq)
        next
          case (Some d)
          then have "w_devs (hold b w) i \<noteq> None" by (auto simp: hold_def)
          with assms n 2 Inr av p it Some show ?thesis
            by (simp add: get_bridge_vlan_port_def get_by_index_eq res_simps put_hold_between) blast
        qed
      qed
    qed
  qed
qed

text \<open>
  A handler that returns has dropped the references it took and has changed at most the
  bridge of its request. The handler for a port's PVID keeps one reference.
\<close>

lemma nl_add_result:
  assumes "ubr_vlan_nl_add_cmd K N mem info w = Inr (ret, w')"
  shows "w' = w \<and> request_error N info UBR_NL_VLAN_ADD ret \<or> (\<exists>b br vid r br1 attrs. w_bridges w b = Some br \<and>
    named_bridge info = Some b \<and> get_vid N info = Inr (attrs, vid) \<and>
    ubr_vlan_new K mem vid 0 0 br = Inr (r, br1) \<and>
    (case r of Inl err \<Rightarrow> ret = err \<and> w' = br_put b br1 w
     | Inr a \<Rightarrow> ret = 0 \<and> (\<exists>v. br_heap br1 a = Some v \<and>
         w' = br_put b (update_port_vlan a (vl_vid v) True br1) w)))"
proof (cases "get_vid N info")
  case (Inl err)
  with assms get_vid_error [OF Inl] show ?thesis by (auto simp: ubr_vlan_nl_add_cmd_def)
next
  case (Inr av)
  obtain attrs vid where av: "get_vid N info = Inr (attrs, vid)" using Inr by (cases av) auto
  with assms obtain dev w1 where n: "ubr_netlink_dev info w = Inr (dev, w1)"
    by (auto simp: ubr_vlan_nl_add_cmd_def res_simps)
  from n show ?thesis
  proof (cases rule: netlink_dev_cases)
    case 1
    with assms n av show ?thesis by (simp add: ubr_vlan_nl_add_cmd_def)
  next
    case (2 b)
    with assms n av obtain br r br1 where br: "w_bridges w b = Some br"
      "ubr_vlan_new K mem vid 0 0 br = Inr (r, br1)"
      and rest: "(case r of Inl err \<Rightarrow> Inr (err, br_put b br1 (dev_put b (hold b w)))
        | Inr a \<Rightarrow> andthen (vlan_at br1 a) (\<lambda>v.
            Inr (0, br_put b (update_port_vlan a (vl_vid v) True br1)
                      (dev_put b (hold b w))))) = Inr (ret, w')"
      by (auto simp: ubr_vlan_nl_add_cmd_def res_simps Let_def)
    have "case r of Inl err \<Rightarrow> ret = err \<and> w' = br_put b br1 w
     | Inr a \<Rightarrow> ret = 0 \<and> (\<exists>v. br_heap br1 a = Some v \<and>
         w' = br_put b (update_port_vlan a (vl_vid v) True br1) w)"
      using rest by (auto simp: res_simps split: sum.splits)
    with br av 2(4) show ?thesis by blast
  qed
qed

lemma nl_del_result:
  assumes "ubr_vlan_nl_del_cmd K N info w = Inr (ret, w')"
  shows "w' = w \<and> request_error N info UBR_NL_VLAN_DEL ret \<or> (\<exists>b br vid a v. w_bridges w b = Some br \<and>
    ubr_vlan_find K br vid = Inr (Some a) \<and> br_heap br a = Some v \<and> ret = 0 \<and>
    (\<exists>br'. ubr_vlan_del a (update_port_vlan a (vl_vid v) False br) = Inr (0, br') \<and>
       w' = br_put b br' w))"
proof (cases "get_vid N info")
  case (Inl err)
  with assms get_vid_error [OF Inl] show ?thesis by (auto simp: ubr_vlan_nl_del_cmd_def)
next
  case (Inr av)
  obtain attrs vid where av: "get_vid N info = Inr (attrs, vid)" using Inr by (cases av) auto
  with assms obtain dev w1 where n: "ubr_netlink_dev info w = Inr (dev, w1)"
    by (auto simp: ubr_vlan_nl_del_cmd_def res_simps)
  from n show ?thesis
  proof (cases rule: netlink_dev_cases)
    case 1
    with assms n av show ?thesis by (simp add: ubr_vlan_nl_del_cmd_def)
  next
    case (2 b)
    with assms n av obtain br vl where br: "w_bridges w b = Some br"
      "ubr_vlan_find K br vid = Inr vl"
      and rest: "(case vl of None \<Rightarrow> Inr (- ENOENT, w)
        | Some a \<Rightarrow> andthen (vlan_at br a) (\<lambda>v.
            andthen (ubr_vlan_del a (update_port_vlan a (vl_vid v) False br))
              (\<lambda>(ret, br'). Inr (ret, br_put b br' w)))) = Inr (ret, w')"
      by (auto simp: ubr_vlan_nl_del_cmd_def res_simps Let_def)
    show ?thesis
    proof (cases vl)
      case None
      with rest show ?thesis by simp
    next
      case (Some a)
      with rest obtain v br' where "br_heap br a = Some v"
        "ubr_vlan_del a (update_port_vlan a (vl_vid v) False br) = Inr (ret, br')"
        "w' = br_put b br' w" by (auto simp: res_simps)
      moreover from this have "ret = 0" by (auto simp: ubr_vlan_del_def res_simps)
      ultimately show ?thesis using br Some by blast
    qed
  qed
qed

lemma nl_attach_result:
  assumes "ubr_vlan_nl_attach_cmd K N info w = Inr (ret, w')"
  shows "w' = w \<and> request_error N info UBR_NL_VLAN_ATTACH ret \<or> (\<exists>b br vl vid port br' attrs tagged. w_bridges w b = Some br \<and>
    named_bridge info = Some b \<and> get_vid N info = Inr (attrs, vid) \<and> get_port attrs = Inr (port, tagged) \<and>
    ubr_vlan_find K br vid = Inr vl \<and> 0 \<le> ubr_port_find br (Some port) \<and>
    ubr_vlan_port_add vl (nat (ubr_port_find br (Some port))) (tagged \<noteq> 0) br = Inr (ret, br') \<and>
    w' = br_put b br' w)"
proof -
  from assms obtain r w1 where g: "get_bridge_vlan_port K N info w = Inr (r, w1)"
    by (auto simp: ubr_vlan_nl_attach_cmd_def res_simps)
  from bridge_vlan_port_result [OF g] show ?thesis
  proof (elim disjE exE conjE)
    fix err assume "r = Inl err" "w1 = w" "vlan_error N info err"
    with assms g show ?thesis by (auto simp: ubr_vlan_nl_attach_cmd_def)
  next
    fix b br vl vid port tagged attrs
    assume r: "r = Inr (b, vl, port, tagged)" "w1 = hold port w" "w_bridges w b = Some br"
      "ubr_vlan_find K br vid = Inr vl" "get_vid N info = Inr (attrs, vid)"
      "get_port attrs = Inr (port, tagged)" "named_bridge info = Some b"
    show ?thesis
    proof (cases "ubr_port_find br (Some port) < 0")
      case True
      with assms g r show ?thesis
        by (simp add: ubr_vlan_nl_attach_cmd_def netdev_priv_def)
    next
      case False
      with assms g r obtain br' where
        "ubr_vlan_port_add vl (nat (ubr_port_find br (Some port))) (tagged \<noteq> 0) br = Inr (ret, br')"
        "w' = br_put b br' w"
        by (auto simp: ubr_vlan_nl_attach_cmd_def netdev_priv_def res_simps)
      moreover from False have "0 \<le> ubr_port_find br (Some port)" by simp
      ultimately show ?thesis using r by blast
    qed
  qed
qed

lemma nl_detach_result:
  assumes "ubr_vlan_nl_detach_cmd K N info w = Inr (ret, w')"
  shows "w' = w \<and> (ret = 0 \<or> request_error N info UBR_NL_VLAN_DETACH ret) \<or> 
    (\<exists>b br vl vid port br' attrs tagged. w_bridges w b = Some br \<and> named_bridge info = Some b \<and>
    get_vid N info = Inr (attrs, vid) \<and> get_port attrs = Inr (port, tagged) \<and>
    ubr_vlan_find K br vid = Inr vl \<and> 0 \<le> ubr_port_find br (Some port) \<and>
    ubr_vlan_port_del vl (nat (ubr_port_find br (Some port))) br = Inr (ret, br') \<and>
    w' = br_put b br' w)"
proof -
  from assms obtain r w1 where g: "get_bridge_vlan_port K N info w = Inr (r, w1)"
    by (auto simp: ubr_vlan_nl_detach_cmd_def res_simps)
  from bridge_vlan_port_result [OF g] show ?thesis
  proof (elim disjE exE conjE)
    fix err assume "r = Inl err" "w1 = w" "vlan_error N info err"
    with assms g show ?thesis by (auto simp: ubr_vlan_nl_detach_cmd_def)
  next
    fix b br vl vid port tagged attrs
    assume r: "r = Inr (b, vl, port, tagged)" "w1 = hold port w" "w_bridges w b = Some br"
      "ubr_vlan_find K br vid = Inr vl" "named_bridge info = Some b"
      "get_vid N info = Inr (attrs, vid)" "get_port attrs = Inr (port, tagged)"
    show ?thesis
    proof (cases "ubr_port_find br (Some port) < 0")
      case True
      with assms g r show ?thesis
        by (simp add: ubr_vlan_nl_detach_cmd_def netdev_priv_def)
    next
      case False
      with assms g r obtain br' where
        "ubr_vlan_port_del vl (nat (ubr_port_find br (Some port))) br = Inr (ret, br')"
        "w' = br_put b br' w"
        by (auto simp: ubr_vlan_nl_detach_cmd_def netdev_priv_def res_simps)
      moreover from False have "0 \<le> ubr_port_find br (Some port)" by simp
      ultimately show ?thesis using r by blast
    qed
  qed
qed

lemma nl_set_result:
  "ubr_vlan_nl_set_cmd N info w = Inr (ret, w') \<Longrightarrow>
     w' = w \<and> (ret = 0 \<or> request_error N info UBR_NL_VLAN_SET ret)"
  by (auto simp: ubr_vlan_nl_set_cmd_def res_simps Let_def split: sum.splits
    dest!: netlink_dev_result dest: get_vid_error)

lemma nl_flush_result:
  "ubr_fdb_nl_flush_cmd info w = Inr (ret, w') \<Longrightarrow> w' = w \<and> ret = 0"
  by (auto simp: ubr_fdb_nl_flush_cmd_def res_simps dest!: netlink_dev_result)

text \<open>The world after \<^verbatim>\<open>ubr_port_nl_set_cmd\<close> has looked up the port: one reference more.\<close>

definition hold_port :: "u32 \<Rightarrow> world \<Rightarrow> world" where
  "hold_port i w = (if w_devs w i = None then w else hold i w)"

lemma hold_port_frame [simp, frame_simps]:
  "w_bridges (hold_port i w) = w_bridges w" "w_jiffies (hold_port i w) = w_jiffies w"
  "netdev_priv (hold_port i w) = netdev_priv w"
  by (simp_all add: hold_port_def)

definition set_port_pvid :: "u16 \<Rightarrow> addr option \<Rightarrow> ubr_port \<Rightarrow> ubr_port" where
  "set_port_pvid pvid vl p =
     p\<lparr>p_pvid := pvid,
       p_ingress_cb := (p_ingress_cb p)\<lparr>cb_vlan := vl, cb_vlan_filtering := (pvid \<noteq> 0)\<rparr>\<rparr>"

lemma nl_port_set_result:
  assumes "ubr_port_nl_set_cmd K N info w = Inr (ret, w')"
  shows "w' = w \<and> ret \<noteq> 0 \<and> get_port_attrs N info = Inl ret \<or>
    (\<exists>attrs ifindex. get_port_attrs N info = Inr (attrs, ifindex) \<and>
       (w' = hold_port ifindex w \<and> ret = - EINVAL \<or>
        (\<exists>b br i pvid vl. w_bridges w b = Some br \<and> named_bridge info = Some b \<and>
           ubr_vec_test (br_busy br) i \<and>
           p_dev (br_ports br i) = Some ifindex \<and> ubr_vlan_find K br pvid = Inr vl \<and>
           pvid = (case pa_pvid attrs of None \<Rightarrow> 0 | Some v \<Rightarrow> v) \<and> ret = 0 \<and>
           w' = br_put b (port_write i (set_port_pvid pvid vl (br_ports br i)) br)
                  (hold_port ifindex w))))"
proof (cases "get_port_attrs N info")
  case (Inl err)
  then have "err \<noteq> 0"
    by (auto simp: get_port_attrs_def Let_def split: option.splits if_splits prod.splits)
  with assms Inl show ?thesis by (simp add: ubr_port_nl_set_cmd_def)
next
  case (Inr ai)
  obtain attrs ifindex where ai: "get_port_attrs N info = Inr (attrs, ifindex)"
    using Inr by (cases ai) auto
  define port where "port = (if w_devs w ifindex = None then None else Some ifindex)"
  have get: "dev_get_by_index ifindex w = (port, hold_port ifindex w)"
    by (simp add: get_by_index_eq hold_port_def port_def)
  define pvid where "pvid = (case pa_pvid attrs of None \<Rightarrow> 0 | Some v \<Rightarrow> v)"
  from assms ai get obtain dev w2 where n: "ubr_netlink_dev info (hold_port ifindex w) = Inr (dev, w2)"
    by (auto simp: ubr_port_nl_set_cmd_def res_simps Let_def)
  from n show ?thesis
  proof (cases rule: netlink_dev_cases)
    case 1
    with assms n ai get show ?thesis by (simp add: ubr_port_nl_set_cmd_def Let_def)
  next
    case (2 b)
    with assms n ai get obtain br where br: "w_bridges w b = Some br"
      by (auto simp: ubr_port_nl_set_cmd_def Let_def res_simps)
    show ?thesis
    proof (cases "ubr_port_find br port < 0 \<or> ubr_port_find br port \<ge> int UBR_MAX_PORTS")
      case True
      with assms n ai get 2 br show ?thesis
        by (simp add: ubr_port_nl_set_cmd_def Let_def netdev_priv_def)
    next
      case False
      then have "0 \<le> ubr_port_find br port" by simp
      then obtain i d where i: "port = Some d" "ubr_vec_test (br_busy br) i"
        "p_dev (br_ports br i) = Some d" "nat (ubr_port_find br port) = i"
        by (rule port_find_nonneg)
      then have "d = ifindex" by (simp add: port_def split: if_splits)
      moreover from False assms n ai get 2 br i(4) obtain vl where
        "ubr_vlan_find K br pvid = Inr vl" "ret = 0"
        "w' = br_put b (port_write i (set_port_pvid pvid vl (br_ports br i)) br)
                (hold_port ifindex w)"
        by (auto simp: ubr_port_nl_set_cmd_def Let_def netdev_priv_def res_simps pvid_def
            set_port_pvid_def)
      ultimately show ?thesis using ai br i(2,3) pvid_def 2(4) by blast
    qed
  qed
qed

section \<open>References held\<close>

definition refs :: "world \<Rightarrow> netdev \<Rightarrow> int option" where
  "refs w d = map_option nd_refcnt (w_devs w d)"

lemma nl_add_put:
  "ubr_vlan_nl_add_cmd K N mem info w = Inr (ret, w') \<Longrightarrow> w' = w \<or> (\<exists>b br'. w' = br_put b br' w)"
proof (drule nl_add_result, elim disjE exE conjE)
  fix b br vid r br1
  assume "case r of Inl err \<Rightarrow> ret = err \<and> w' = br_put b br1 w
     | Inr a \<Rightarrow> ret = 0 \<and> (\<exists>v. br_heap br1 a = Some v \<and>
         w' = br_put b (update_port_vlan a (vl_vid v) True br1) w)"
  then show ?thesis by (cases r) auto
qed simp

section \<open>Requests that reach their bridge\<close>

lemma br_put_same: "w_bridges w b = Some br \<Longrightarrow> br_put b br w = w"
  by (rule world_eqI) auto

lemma netlink_dev_br_put:
  assumes "ubr_netlink_dev info w = Inr (Some b, w1)"
  shows "ubr_netlink_dev info (br_put c br w) = Inr (Some b, hold b (br_put c br w))"
proof -
  obtain ia where ia: "gi_attrs info = Some ia" "ia_ifindex ia = Some b"
    and d: "\<exists>d. w_devs w b = Some d \<and> nd_is_ubr d"
    using assms
    by (cases "gi_attrs info")
      (auto simp: ubr_netlink_dev_def get_by_index_eq dev_at_def res_simps hold_def
        split: option.splits if_splits)
  then show ?thesis
    by (auto simp: ubr_netlink_dev_def get_by_index_eq dev_at_def hold_def)
qed

lemma nl_add_eq:
  assumes "get_vid N info = Inr (attrs, vid)" "ubr_netlink_dev info w = Inr (Some b, w1)"
    and "w_bridges w b = Some br" "vlan_table_ok K br"
  shows "ubr_vlan_nl_add_cmd K N mem info w =
    Inr (if vlan_of K br vid \<noteq> None then (- EBUSY, w)
         else case mem of
           None \<Rightarrow> (- ENOMEM, w)
         | Some a \<Rightarrow> (0, br_put b (update_port_vlan a vid True (vlan_add K a vid br)) w))"
proof -
  have "w1 = hold b w" using netlink_dev_result [OF assms(2)] by simp
  then show ?thesis
    using assms br_put_same [OF assms(3)]
    by (cases "vlan_of K br vid"; cases mem)
      (simp_all add: ubr_vlan_nl_add_cmd_def netdev_priv_def vlan_new_exists vlan_new_nomem
        vlan_new_adds Let_def)
qed

lemma nl_del_eq:
  assumes "get_vid N info = Inr (attrs, vid)" "ubr_netlink_dev info w = Inr (Some b, w1)"
    and "w_bridges w b = Some br" "vlan_table_ok K br" "vlan_of K br vid = Some a"
    and "br_heap br a = Some v"
  shows "ubr_vlan_nl_del_cmd K N info w =
    Inr (0, br_put b ((vlan_write a (v\<lparr>vl_members := ubr_vec_zero\<rparr>)
                        (update_port_vlan a (vl_vid v) False br))
                        \<lparr>br_rcu := br_rcu br @ [Vlan_Del_Rcu a]\<rparr>) w)"
proof -
  have "w1 = hold b w" using netlink_dev_result [OF assms(2)] by simp
  then show ?thesis
    using assms
    by (simp add: ubr_vlan_nl_del_cmd_def netdev_priv_def vlan_find_total(1) ubr_vlan_del_def
        Let_def)
qed

text \<open>The device-by-index lookups of attach and detach succeed.\<close>

lemma bridge_vlan_port_eq:
  assumes "get_vid N info = Inr (attrs, vid)" "get_port attrs = Inr (port, tagged)"
    and "ubr_netlink_dev info w = Inr (Some b, w1)" "w_devs w port \<noteq> None"
    and "w_bridges w b = Some br" "vlan_table_ok K br"
  shows "get_bridge_vlan_port K N info w =
    Inr (Inr (b, vlan_of K br vid, port, tagged), hold port w)"
proof -
  have "w1 = hold b w" using netlink_dev_result [OF assms(3)] by simp
  moreover have "w_devs (hold b w) port \<noteq> None" using assms(4) by (auto simp: hold_def)
  ultimately show ?thesis
    using assms
    by (simp add: get_bridge_vlan_port_def get_by_index_eq netdev_priv_def vlan_find_total(1)
        put_hold_between)
qed

lemma nl_attach_eq:
  assumes "get_vid N info = Inr (attrs, vid)" "get_port attrs = Inr (port, tagged)"
    and "ubr_netlink_dev info w = Inr (Some b, w1)" "w_devs w port \<noteq> None"
    and "w_bridges w b = Some br" "vlan_table_ok K br"
  shows "ubr_vlan_nl_attach_cmd K N info w =
    (if ubr_port_find br (Some port) < 0 then Inr (- ENODEV, w)
     else case vlan_of K br vid of
       None \<Rightarrow> Inl NullDeref
     | Some a \<Rightarrow> Inr (0, br_put b (vlan_write a
         (add_member (nat (ubr_port_find br (Some port))) (tagged \<noteq> 0) (the (br_heap br a))) br) w))"
proof -
  have live: "br_heap br a = Some (the (br_heap br a))" if "vlan_of K br vid = Some a" for a
    using vlan_of_SomeD(1) [OF assms(6) that] by auto
  show ?thesis
    using bridge_vlan_port_eq [OF assms] assms(5) live
    by (cases "vlan_of K br vid")
      (simp_all add: ubr_vlan_nl_attach_cmd_def netdev_priv_def ubr_vlan_port_add_def
        add_member_def Let_def)
qed

lemma nl_detach_eq:
  assumes "get_vid N info = Inr (attrs, vid)" "get_port attrs = Inr (port, tagged)"
    and "ubr_netlink_dev info w = Inr (Some b, w1)" "w_devs w port \<noteq> None"
    and "w_bridges w b = Some br" "vlan_table_ok K br"
  shows "ubr_vlan_nl_detach_cmd K N info w =
    (if ubr_port_find br (Some port) < 0 then Inr (0, w)
     else case vlan_of K br vid of
       None \<Rightarrow> Inl NullDeref
     | Some a \<Rightarrow> Inr (0, br_put b (vlan_write a
         (del_member (nat (ubr_port_find br (Some port))) (the (br_heap br a))) br) w))"
proof -
  have live: "br_heap br a = Some (the (br_heap br a))" if "vlan_of K br vid = Some a" for a
    using vlan_of_SomeD(1) [OF assms(6) that] by auto
  show ?thesis
    using bridge_vlan_port_eq [OF assms] assms(5) live
    by (cases "vlan_of K br vid")
      (simp_all add: ubr_vlan_nl_detach_cmd_def netdev_priv_def ubr_vlan_port_del_def
        del_member_def Let_def)
qed

lemma nl_port_set_eq:
  assumes "get_port_attrs N info = Inr (attrs, p)" "w_devs w p \<noteq> None"
    and "ubr_netlink_dev info (hold p w) = Inr (Some b, hold b (hold p w))"
    and "w_bridges w b = Some br" "vlan_table_ok K br" "ubr_port_find br (Some p) = int i" "i < UBR_MAX_PORTS"
    and "pvid = (case pa_pvid attrs of None \<Rightarrow> 0 | Some v \<Rightarrow> v)"
  shows "ubr_port_nl_set_cmd K N info w =
    Inr (0, br_put b (port_write i (set_port_pvid pvid (vlan_of K br pvid) (br_ports br i)) br) (hold p w))"
proof -
  have "dev_get_by_index p w = (Some p, hold p w)"
    using assms(2) by (auto simp: dev_get_by_index_def hold_def)
  moreover have "netdev_priv (hold b (hold p w)) b = Inr br"
    using assms(4) by (simp add: netdev_priv_def hold_def)
  ultimately show ?thesis
    using assms(1,3,6,7,8) vlan_find_total(1) [OF assms(5)]
    by (simp add: ubr_port_nl_set_cmd_def Let_def set_port_pvid_def)
qed

text \<open>The world with the reference the PVID handler keeps, whatever it returns; the others keep none.\<close>

fun keep_reference :: "netlink_lib \<Rightarrow> genl_info \<Rightarrow> ubr_nl_cmd \<Rightarrow> world \<Rightarrow> world" where
  "keep_reference N info UBR_NL_PORT_SET w =
     (case get_port_attrs N info of Inl err \<Rightarrow> w | Inr (attrs, ifindex) \<Rightarrow> hold_port ifindex w)"
| "keep_reference N info cmd w = w"

lemma keep_reference_bridges [simp, frame_simps]:
  "w_bridges (keep_reference N info cmd w) = w_bridges w"
  by (cases cmd) (auto split: sum.split)

text \<open>All a request can come to.\<close>

definition request_outcome ::
  "netlink_lib \<Rightarrow> genl_info \<Rightarrow> ubr_nl_cmd \<Rightarrow> world \<Rightarrow> int \<Rightarrow> world \<Rightarrow> bool" where
  "request_outcome N info cmd w ret w' \<longleftrightarrow>
     (let kept = keep_reference N info cmd w in
      (ret = 0 \<or> request_error N info cmd ret) \<and> w' = kept \<or>
      ret = 0 \<and> (\<exists>b br'. w_bridges w b \<noteq> None \<and> w' = br_put b br' kept))"

lemma vlan_new_error:
  "ubr_vlan_new K mem vid fid sid br = Inr (Inl err, br1) \<Longrightarrow> (err = - EBUSY \<or> err = - ENOMEM) \<and> br1 = br"
  by (auto simp: ubr_vlan_new_def res_simps split: option.splits)

lemma add_outcome:
  assumes "ubr_vlan_nl_add_cmd K N mem info w = Inr (ret, w')"
  shows "request_outcome N info UBR_NL_VLAN_ADD w ret w'"
  using nl_add_result [OF assms]
proof (elim disjE exE conjE)
  fix b br vid r br1
  assume r: "w_bridges w b = Some br" "ubr_vlan_new K mem vid 0 0 br = Inr (r, br1)"
    "case r of Inl err \<Rightarrow> ret = err \<and> w' = br_put b br1 w
     | Inr a \<Rightarrow> ret = 0 \<and> (\<exists>v. br_heap br1 a = Some v \<and>
         w' = br_put b (update_port_vlan a (vl_vid v) True br1) w)"
  show ?thesis
  proof (cases r)
    case (Inl err)
    with r show ?thesis by (auto simp: request_outcome_def br_put_same dest!: vlan_new_error)
  next
    case (Inr a)
    with r show ?thesis unfolding request_outcome_def Let_def by fastforce
  qed
qed (simp add: request_outcome_def)

lemma port_set_outcome:
  assumes "ubr_port_nl_set_cmd K N info w = Inr (ret, w')"
  shows "request_outcome N info UBR_NL_PORT_SET w ret w'"
  using nl_port_set_result [OF assms] get_port_attrs_error [of N info ret]
  by (fastforce simp: request_outcome_def Let_def)

lemma vlan_requests_outcome:
  "ubr_vlan_nl_del_cmd K N info w = Inr (ret, w') \<Longrightarrow>
     request_outcome N info UBR_NL_VLAN_DEL w ret w'"
  "ubr_vlan_nl_attach_cmd K N info w = Inr (ret, w') \<Longrightarrow>
     request_outcome N info UBR_NL_VLAN_ATTACH w ret w'"
  "ubr_vlan_nl_detach_cmd K N info w = Inr (ret, w') \<Longrightarrow>
     request_outcome N info UBR_NL_VLAN_DETACH w ret w'"
  by (fastforce simp: request_outcome_def Let_def ubr_vlan_port_add_def ubr_vlan_port_del_def
    res_simps dest!: nl_del_result nl_attach_result nl_detach_result)+

lemma request_outcome:
  assumes "ubr_genl_doit K N mem cmd info w = Inr (ret, w')"
  shows "request_outcome N info cmd w ret w'"
  using assms nl_set_result [of N info w ret w'] nl_flush_result [of info w ret w']
  by (cases cmd)
    (auto simp: add_outcome port_set_outcome vlan_requests_outcome request_outcome_def [of _ _ UBR_NL_VLAN_SET]
      request_outcome_def [of _ _ UBR_NL_FDB_FLUSH])

lemma refs_hold_port:
  "refs (hold_port i w) = (refs w)(i := map_option (\<lambda>n. n + 1) (refs w i))"
  by (auto simp: refs_def hold_port_def hold_def fun_eq_iff option.map_comp o_def)

lemma refs_br_put [simp]: "refs (br_put b br w) = refs w"
  by (simp add: refs_def fun_eq_iff)

lemma refs_outcome:
  "request_outcome N info cmd w ret w' \<Longrightarrow> refs w' = refs (keep_reference N info cmd w)"
  by (auto simp: request_outcome_def Let_def)

end
