(* ===== verification/Ubr_Cmdl.thy ===== *)
theory Ubr_Cmdl
  imports Ubr_Netlink "HOL-Library.Sublist"
begin

text \<open>
  The command line framework of the tool (src/cmdl.c, src/cmdl.h, \<^verbatim>\<open>atob\<close> of src/ubr.c):
  commands and options by unambiguous prefix, the argument cursor, and the parser of options.
  Strings are character lists without the terminating NUL. What goes to standard error is not
  modelled.
\<close>

section \<open>Functions of the C library\<close>

text \<open>\<^verbatim>\<open>strstr\<close>: the index of the first occurrence.\<close>

fun strstr :: "string \<Rightarrow> string \<Rightarrow> nat option" where
  "strstr [] s = (if s = [] then Some 0 else None)"
| "strstr (c # cs) s =
     (if take (length s) (c # cs) = s then Some 0 else map_option Suc (strstr cs s))"

text \<open>Whether \<^verbatim>\<open>strncmp\<close> and \<^verbatim>\<open>strncasecmp\<close> return 0.\<close>

definition strncmp_eq :: "string \<Rightarrow> string \<Rightarrow> nat \<Rightarrow> bool" where
  "strncmp_eq a b n = (take n a = take n b)"

definition tolower :: "char \<Rightarrow> char" where
  "tolower c =
     (let n = (of_char c :: nat) in if 65 \<le> n \<and> n \<le> 90 then char_of (n + 32) else c)"

definition strncasecmp_eq :: "string \<Rightarrow> string \<Rightarrow> nat \<Rightarrow> bool" where
  "strncasecmp_eq a b n = strncmp_eq (map tolower a) (map tolower b) n"

text \<open>
  The value \<^verbatim>\<open>strtol\<close> reads in base 10: spaces, a sign, digits up to the first other
  character.
\<close>

definition is_digit :: "char \<Rightarrow> bool" where
  "is_digit c = (48 \<le> (of_char c :: nat) \<and> (of_char c :: nat) \<le> 57)"

definition is_space :: "char \<Rightarrow> bool" where
  "is_space c = (of_char c \<in> {9, 10, 11, 12, 13, 32 :: nat})"

definition digits_value :: "string \<Rightarrow> int" where
  "digits_value s = fold (\<lambda>c n. 10 * n + (of_char c - 48)) (takeWhile is_digit s) 0"

definition decimal :: "string \<Rightarrow> int" where
  "decimal s =
     (case dropWhile is_space s of
        [] \<Rightarrow> 0
      | c # cs \<Rightarrow>
          if c = CHR ''-'' then - digits_value cs
          else if c = CHR ''+'' then digits_value cs
          else digits_value (c # cs))"

text \<open>
  \<^verbatim>\<open>atoi\<close> is undefined for a value that does not fit its type: the parameter \<open>ovf\<close> says what
  it returns then.
\<close>

definition atoi :: "(string \<Rightarrow> int) \<Rightarrow> string \<Rightarrow> int" where
  "atoi ovf s = (if - (2 ^ 31) \<le> decimal s \<and> decimal s < 2 ^ 31 then decimal s else ovf s)"

section \<open>Booleans\<close>

definition atob_alt :: "(string \<times> nat \<times> int) list" where
  "atob_alt = [(''off'', 3, 0), (''on'', 2, 1), (''false'', 5, 0), (''true'', 3, 1)]"

fun atob_scan :: "(string \<times> nat \<times> int) list \<Rightarrow> string \<Rightarrow> int" where
  "atob_scan [] str = - 1"
| "atob_scan ((word, len, val) # alts) str =
     (if strncasecmp_eq word str len then val else atob_scan alts str)"

definition atob :: "string option \<Rightarrow> int" where
  "atob str = (case str of None \<Rightarrow> - 1 | Some s \<Rightarrow> atob_scan atob_alt s)"

section \<open>Commands, options and the cursor\<close>

definition OPT_KEY :: nat where "OPT_KEY = 1"
definition OPT_KEYVAL :: nat where "OPT_KEYVAL = 2"

record cmdl =
  cl_optind :: nat
  cl_argc :: nat
  cl_argv :: "string list"

text \<open>\<open>c_help\<close> names the help function, \<open>None\<close> for a NULL one.\<close>

record 'f cmd =
  c_cmd :: string
  c_func :: 'f
  c_help :: "string option"

record opt =
  o_key :: string
  o_flag :: nat
  o_val :: "string option"

text \<open>The argument vector ends with a NULL; there is nothing after it.\<close>

definition argv_at :: "cmdl \<Rightarrow> nat \<Rightarrow> string option res" where
  "argv_at cl i =
     (if i < length (cl_argv cl) then Inr (Some (cl_argv cl ! i))
      else if i = length (cl_argv cl) then Inr None
      else Inl WildPointer)"

text \<open>
  The loop of \<^verbatim>\<open>find_cmd\<close> and \<^verbatim>\<open>find_opt\<close>: \<open>m\<close> is the match so far, \<open>i\<close> the index; a second
  match ends the search without a result.
\<close>

fun find_index :: "nat \<Rightarrow> nat option \<Rightarrow> string list \<Rightarrow> string \<Rightarrow> nat option" where
  "find_index i m [] str = m"
| "find_index i m (k # ks) str =
     (if strstr k str \<noteq> Some 0 then find_index (i + 1) m ks str
      else case m of
        Some _ \<Rightarrow> None
      | None \<Rightarrow> find_index (i + 1) (Some i) ks str)"

definition find_cmd :: "'f cmd list \<Rightarrow> string \<Rightarrow> 'f cmd option" where
  "find_cmd cmds str = map_option (\<lambda>i. cmds ! i) (find_index 0 None (map c_cmd cmds) str)"

definition find_opt :: "opt list \<Rightarrow> string \<Rightarrow> nat option" where
  "find_opt opts str = find_index 0 None (map o_key opts) str"

definition get_opt :: "opt list \<Rightarrow> string \<Rightarrow> opt option" where
  "get_opt opts key = List.find (\<lambda>o1. o_key o1 = key \<and> o_val o1 \<noteq> None) opts"

definition has_opt :: "opt list \<Rightarrow> string \<Rightarrow> bool" where
  "has_opt opts key = (get_opt opts key \<noteq> None)"

definition more_opts :: "cmdl \<Rightarrow> bool" where
  "more_opts cl = (cl_optind cl < cl_argc cl)"

definition shift_cmdl :: "cmdl \<Rightarrow> (string option \<times> cmdl) res" where
  "shift_cmdl cl =
     (let (nxt, cl') =
        (if cl_optind cl < cl_argc cl
         then (cl_optind cl, cl\<lparr>cl_optind := cl_optind cl + 1\<rparr>)
         else (cl_argc cl, cl))
      in andthen (argv_at cl' nxt) (\<lambda>arg. Inr (arg, cl')))"

text \<open>
  The loop of \<^verbatim>\<open>parse_opts\<close>, from argument \<open>i\<close> on. An option with a value takes the next
  argument, which is the NULL at the end when there is none.
\<close>

function parse_opts_from ::
  "opt list \<Rightarrow> cmdl \<Rightarrow> nat \<Rightarrow> int \<Rightarrow> (int \<times> opt list \<times> cmdl) res" where
  "parse_opts_from opts cl i cnt =
     (if i < cl_argc cl then
        andthen (argv_at cl i) (\<lambda>arg. andthen (nonnull arg) (\<lambda>a.
          case find_opt opts a of
            None \<Rightarrow> Inr (- EINVAL, opts, cl)
          | Some k \<Rightarrow>
              let keyval = (o_flag (opts ! k) AND OPT_KEYVAL \<noteq> 0);
                  cl1 = (if keyval then cl\<lparr>cl_optind := cl_optind cl + 1\<rparr> else cl);
                  i1 = (if keyval then i + 1 else i) in
              andthen (argv_at cl1 i1) (\<lambda>val.
                parse_opts_from (opts[k := (opts ! k)\<lparr>o_val := val\<rparr>])
                  (cl1\<lparr>cl_optind := cl_optind cl1 + 1\<rparr>) (i1 + 1) (cnt + 1))))
      else Inr (cnt, opts, cl))"
  by pat_completeness auto

termination
  by (relation "measure (\<lambda>(opts, cl, i, cnt). cl_argc cl - i)") (auto simp: Let_def)

declare parse_opts_from.simps [simp del]

definition parse_opts :: "opt list \<Rightarrow> cmdl \<Rightarrow> (int \<times> opt list \<times> cmdl) res" where
  "parse_opts opts cl = parse_opts_from opts cl (cl_optind cl) 0"

section \<open>The interface: names by abbreviation\<close>

text \<open>
  A lookup that finds a name by any prefix no other name has. The laws are for the position in
  the list of names.
\<close>

locale abbreviations =
  fixes names :: "string list"
    and find :: "string \<Rightarrow> nat option"
  assumes find_iff: "find str = Some i \<longleftrightarrow>
    i < length names \<and> prefix str (names ! i) \<and>
    (\<forall>j < length names. prefix str (names ! j) \<longrightarrow> j = i)"
begin

text \<open>An abbreviation stays good when it is typed further towards the name.\<close>

lemma find_longer:
  "find s = Some i \<Longrightarrow> prefix s t \<Longrightarrow> prefix t (names ! i) \<Longrightarrow> find t = Some i"
  using prefix_order.trans by (fastforce simp: find_iff)

lemma find_exact:
  assumes "i < length names" "\<And>j. j < length names \<Longrightarrow> prefix (names ! i) (names ! j) \<Longrightarrow> j = i"
  shows "find (names ! i) = Some i"
  using assms by (simp add: find_iff)

lemma find_None_iff:
  "find str = None \<longleftrightarrow>
     (\<forall>i < length names. prefix str (names ! i) \<longrightarrow>
        (\<exists>j < length names. j \<noteq> i \<and> prefix str (names ! j)))"
  using find_iff [of str] by (metis option.exhaust option.distinct(1))

lemma find_bound: "find str = Some i \<Longrightarrow> i < length names"
  by (simp add: find_iff)

end

section \<open>Its laws hold of the loop\<close>

lemma strstr_zero: "strstr s t = Some 0 \<longleftrightarrow> prefix t s"
proof -
  have "prefix t s \<longleftrightarrow> take (length t) s = t"
    by (metis append_eq_conv_conj prefix_def)
  then show ?thesis by (cases s) auto
qed

lemma find_index_after:
  "find_index i (Some m) ks str = (if \<exists>k \<in> set ks. prefix str k then None else Some m)"
  by (induction ks arbitrary: i) (auto simp: strstr_zero)

lemma find_index_iff:
  "find_index i None ks str = Some x \<longleftrightarrow>
     (\<exists>j < length ks. x = i + j \<and> prefix str (ks ! j) \<and>
        (\<forall>l < length ks. prefix str (ks ! l) \<longrightarrow> l = j))"
proof (induction ks arbitrary: i)
  case (Cons k ks)
  show ?case
  proof (cases "prefix str k")
    case True
    then show ?thesis
      by (auto simp: strstr_zero find_index_after Ex_less_Suc2 All_less_Suc2 in_set_conv_nth
          dest: bspec [OF _ nth_mem])
  next
    case False
    then show ?thesis
      using Cons.IH [of "Suc i"] by (auto simp: strstr_zero Ex_less_Suc2 All_less_Suc2)
  qed
qed simp

lemma find_index_abbreviations:
  "find_index 0 None ks str = Some i \<longleftrightarrow>
     i < length ks \<and> prefix str (ks ! i) \<and> (\<forall>j < length ks. prefix str (ks ! j) \<longrightarrow> j = i)"
  by (auto simp: find_index_iff)

interpretation opts: abbreviations "map o_key opts" "find_opt opts" for opts
  by unfold_locales (simp add: find_opt_def find_index_abbreviations)

interpretation cmds: abbreviations "map c_cmd cmds" "find_index 0 None (map c_cmd cmds)"
  for cmds :: "'f cmd list"
  by unfold_locales (simp add: find_index_abbreviations)

lemma find_cmd_iff:
  "find_cmd cmds str = Some c \<longleftrightarrow>
     (\<exists>i < length cmds. c = cmds ! i \<and> prefix str (c_cmd (cmds ! i)) \<and>
        (\<forall>j < length cmds. prefix str (c_cmd (cmds ! j)) \<longrightarrow> j = i))"
proof -
  have "find_cmd cmds str = Some c \<longleftrightarrow>
      (\<exists>i. find_index 0 None (map c_cmd cmds) str = Some i \<and> c = cmds ! i)"
    unfolding find_cmd_def map_option_eq_Some by blast
  also have "\<dots> \<longleftrightarrow> (\<exists>i. (i < length cmds \<and> prefix str (c_cmd (cmds ! i)) \<and>
      (\<forall>j < length cmds. prefix str (c_cmd (cmds ! j)) \<longrightarrow> j = i)) \<and> c = cmds ! i)"
    unfolding find_index_abbreviations length_map by (rule arg_cong [where f = Ex], rule ext) (metis nth_map)
  finally show ?thesis by blast
qed

lemma find_cmd_in: "find_cmd cmds str = Some c \<Longrightarrow> c \<in> set cmds"
  by (metis find_cmd_iff nth_mem)

section \<open>The cursor and the parser\<close>

text \<open>How \<^verbatim>\<open>main\<close> sets the cursor up: the count is that of the vector.\<close>

definition argv_ok :: "cmdl \<Rightarrow> bool" where
  "argv_ok cl = (cl_argc cl = length (cl_argv cl))"

lemma shift_cmdl_eq:
  assumes "argv_ok cl"
  shows "shift_cmdl cl =
    (if cl_optind cl < length (cl_argv cl)
     then Inr (Some (cl_argv cl ! cl_optind cl), cl\<lparr>cl_optind := cl_optind cl + 1\<rparr>)
     else Inr (None, cl))"
  using assms by (simp add: shift_cmdl_def argv_at_def argv_ok_def)

text \<open>What the parser is to do, on the list of arguments that are left.\<close>

fun opts_spec :: "opt list \<Rightarrow> string list \<Rightarrow> (opt list \<times> nat) option" where
  "opts_spec opts [] = Some (opts, 0)"
| "opts_spec opts (a # as) =
     (case find_opt opts a of
        None \<Rightarrow> None
      | Some k \<Rightarrow>
          if o_flag (opts ! k) AND OPT_KEYVAL = 0
          then map_option (map_prod id Suc) (opts_spec (opts[k := (opts ! k)\<lparr>o_val := Some a\<rparr>]) as)
          else case as of
            [] \<Rightarrow> Some (opts[k := (opts ! k)\<lparr>o_val := None\<rparr>], 1)
          | b # bs \<Rightarrow>
              map_option (map_prod id Suc) (opts_spec (opts[k := (opts ! k)\<lparr>o_val := Some b\<rparr>]) bs))"

lemma parse_opts_from_eq:
  assumes "argv_ok cl" "cl_optind cl = i"
  shows "\<exists>r opts' n. parse_opts_from opts cl i cnt = Inr (r, opts', cl\<lparr>cl_optind := n\<rparr>) \<and>
    (case opts_spec opts (drop i (cl_argv cl)) of
       None \<Rightarrow> r = - EINVAL
     | Some (os, m) \<Rightarrow> r = cnt + int m \<and> opts' = os \<and> cl_argc cl \<le> n)"
  using assms
proof (induction opts cl i cnt rule: parse_opts_from.induct)
  case (1 opts cl i cnt)
  note argc = \<open>argv_ok cl\<close> [unfolded argv_ok_def]
  show ?case
  proof (cases "i < cl_argc cl")
    case False
    then have "parse_opts_from opts cl i cnt = Inr (cnt, opts, cl\<lparr>cl_optind := i\<rparr>)"
      "drop i (cl_argv cl) = []"
      unfolding parse_opts_from.simps [of opts cl i cnt] using 1(3) argc by simp_all
    with False show ?thesis by (intro exI [of _ cnt] exI [of _ opts] exI [of _ i]) simp
  next
    case True
    let ?a = "cl_argv cl ! i"
    have arg: "argv_at cl i = Inr (Some ?a)" using True argc by (simp add: argv_at_def)
    have drop: "drop i (cl_argv cl) = ?a # drop (Suc i) (cl_argv cl)"
      using True argc by (simp add: Cons_nth_drop_Suc)
    show ?thesis
    proof (cases "find_opt opts ?a")
      case None
      then have "parse_opts_from opts cl i cnt = Inr (- EINVAL, opts, cl\<lparr>cl_optind := i\<rparr>)"
        unfolding parse_opts_from.simps [of opts cl i cnt] using True 1(3) by (simp add: arg)
      with None show ?thesis
        by (intro exI [of _ "- EINVAL"] exI [of _ opts] exI [of _ i]) (simp add: drop)
    next
      case (Some k)
      let ?kv = "o_flag (opts ! k) AND OPT_KEYVAL \<noteq> 0"
      let ?cl1 = "if ?kv then cl\<lparr>cl_optind := cl_optind cl + 1\<rparr> else cl"
      let ?i1 = "if ?kv then i + 1 else i"
      have i1: "?i1 \<le> length (cl_argv cl)" using True argc by simp
      then obtain val where val: "argv_at ?cl1 ?i1 = Inr val"
        "val = (if ?i1 < length (cl_argv cl) then Some (cl_argv cl ! ?i1) else None)"
        by (auto simp: argv_at_def)
      let ?os = "opts[k := (opts ! k)\<lparr>o_val := val\<rparr>]"
      let ?cl2 = "?cl1\<lparr>cl_optind := cl_optind ?cl1 + 1\<rparr>"
      have "argv_ok ?cl2" "cl_optind ?cl2 = ?i1 + 1" using 1(2,3) by (simp_all add: argv_ok_def)
      from 1(1) [OF True arg _ Some refl refl refl val(1) this]
      obtain r opts' n where
        rec: "parse_opts_from ?os ?cl2 (?i1 + 1) (cnt + 1) = Inr (r, opts', ?cl2\<lparr>cl_optind := n\<rparr>)"
        "case opts_spec ?os (drop (?i1 + 1) (cl_argv ?cl2)) of None \<Rightarrow> r = - EINVAL
         | Some (os, m) \<Rightarrow> r = cnt + 1 + int m \<and> opts' = os \<and> cl_argc ?cl2 \<le> n"
        by auto
      have step: "parse_opts_from opts cl i cnt = parse_opts_from ?os ?cl2 (?i1 + 1) (cnt + 1)"
        unfolding parse_opts_from.simps [of opts cl i cnt] Let_def
        using True val(1) by (simp only: arg Some andthen.simps nonnull_simps option.case if_True)
      have "opts_spec opts (drop i (cl_argv cl)) =
          map_option (map_prod id Suc) (opts_spec ?os (drop (?i1 + 1) (cl_argv ?cl2)))"
        using val(2) True argc
        by (cases "Suc i < length (cl_argv cl)")
          (auto simp: drop Some Cons_nth_drop_Suc [symmetric] not_less)
      with rec show ?thesis unfolding step
        by (intro exI [of _ r] exI [of _ opts'] exI [of _ n]) (auto split: option.splits)
    qed
  qed
qed

section \<open>Words for booleans, and numbers\<close>

lemma take_eq_prefix: "n \<le> length a \<Longrightarrow> take n a = take n b \<longleftrightarrow> prefix (take n a) b"
  by (metis append_eq_conv_conj length_take min.absorb2 prefix_def)

lemma strncasecmp_prefix:
  "n \<le> length w \<Longrightarrow> strncasecmp_eq w s n \<longleftrightarrow> prefix (take n (map tolower w)) (map tolower s)"
  by (simp add: strncasecmp_eq_def strncmp_eq_def take_eq_prefix)

lemma tolower_alt: "map tolower ''off'' = ''off''" "map tolower ''on'' = ''on''"
  "map tolower ''false'' = ''false''" "map tolower ''true'' = ''true''"
  by (simp_all add: tolower_def)

lemma decimal_fits: "- (2 ^ 31) \<le> decimal s \<Longrightarrow> decimal s < 2 ^ 31 \<Longrightarrow> atoi ovf s = decimal s"
  by (simp add: atoi_def)

end
