(* ===== verification/Ubr_Msg.thy ===== *)
theory Ubr_Msg
  imports Ubr_Cmdl
begin

text \<open>
  Messages of the tool (src/msg.c): how they are made, sent and answered, and the state of the
  process they are made in. Building a message is the netlink library's; a message here is its
  header and the attributes in the order they were put in. The answers of the sockets are
  parameters.
\<close>

section \<open>Messages\<close>

datatype nlattr = Attr nat nlval | Nest nat nested

text \<open>
  \<open>nh_genl\<close> is the generic netlink header with its version, \<open>nh_ifi\<close> the interface index of a
  link header.
\<close>

record nlmsg =
  nh_type :: int
  nh_flags :: nat
  nh_genl :: "(ubr_nl_cmd \<times> nat) option"
  nh_ifi :: "u32 option"
  nh_attrs :: "nlattr list"

definition attr_put :: "nlattr \<Rightarrow> nlmsg \<Rightarrow> nlmsg" where
  "attr_put a m = m\<lparr>nh_attrs := nh_attrs m @ [a]\<rparr>"

definition NLM_F_REQUEST :: nat where "NLM_F_REQUEST = 1"
definition NLM_F_ACK :: nat where "NLM_F_ACK = 4"
definition NLM_F_EXCL :: nat where "NLM_F_EXCL = 0x200"
definition NLM_F_DUMP :: nat where "NLM_F_DUMP = 0x300"
definition NLM_F_CREATE :: nat where "NLM_F_CREATE = 0x400"
definition RTM_NEWLINK :: int where "RTM_NEWLINK = 16"
definition RTM_DELLINK :: int where "RTM_DELLINK = 17"
definition RTM_SETLINK :: int where "RTM_SETLINK = 19"
definition IFLA_IFNAME :: nat where "IFLA_IFNAME = 3"
definition IFLA_MASTER :: nat where "IFLA_MASTER = 10"
definition IFLA_LINKINFO :: nat where "IFLA_LINKINFO = 18"
definition IFLA_INFO_KIND :: nat where "IFLA_INFO_KIND = 1"
definition CTRL_ATTR_FAMILY_ID :: nat where "CTRL_ATTR_FAMILY_ID = 1"

section \<open>Sockets\<close>

text \<open>
  One exchange: whether the socket opens, what binding and sending return, what running the
  callbacks on each datagram returns, and what the read after the last one returns (0 or an
  error). A read that blocks for ever is not modelled.
\<close>

record sock_env =
  se_open :: bool
  se_bind :: int
  se_sendto :: int
  se_cb :: "int list"
  se_last :: int

record sockets =
  sk_open :: nat
  sk_sent :: bool

text \<open>
  \<^verbatim>\<open>msg_send\<close>: whether it returns a socket, how many it leaves open, whether the message
  went out. A socket that cannot be bound or written to is not closed.
\<close>

definition msg_send :: "sock_env \<Rightarrow> bool \<times> sockets" where
  "msg_send S =
     (if \<not> se_open S then (False, \<lparr>sk_open = 0, sk_sent = False\<rparr>)
      else if se_bind S < 0 then (False, \<lparr>sk_open = 1, sk_sent = False\<rparr>)
      else if se_sendto S < 0 then (False, \<lparr>sk_open = 1, sk_sent = False\<rparr>)
      else (True, \<lparr>sk_open = 1, sk_sent = True\<rparr>))"

fun msg_recv :: "int list \<Rightarrow> int \<Rightarrow> int" where
  "msg_recv [] final = final"
| "msg_recv (ret # rets) final = (if ret \<le> 0 then ret else msg_recv rets final)"

definition msg_query :: "sock_env \<Rightarrow> int \<times> sockets" where
  "msg_query S =
     (case msg_send S of
        (False, k) \<Rightarrow> (- EOPNOTSUPP, k)
      | (True, k) \<Rightarrow> (msg_recv (se_cb S) (se_last S), k\<lparr>sk_open := sk_open k - 1\<rparr>))"

text \<open>
  The table of attributes a callback fills has \<open>n + 1\<close> entries; the type of an attribute is
  not compared with it.
\<close>

definition parse_attrs ::
  "nat \<Rightarrow> nat \<times> nlval \<Rightarrow> (nat \<Rightarrow> nlval option) \<Rightarrow> (nat \<Rightarrow> nlval option) res" where
  "parse_attrs n a tb = (if fst a \<le> n then Inr (tb(fst a := Some (snd a))) else Inl WildPointer)"

text \<open>\<open>None\<close>: \<^verbatim>\<open>MNL_CB_ERROR\<close>.\<close>

definition family_id_cb :: "nat \<Rightarrow> nested \<Rightarrow> u16 option res" where
  "family_id_cb n attrs =
     andthen (foldres (parse_attrs n) attrs (\<lambda>_. None)) (\<lambda>tb.
       Inr (case tb CTRL_ATTR_FAMILY_ID of Some (NlU16 i) \<Rightarrow> Some i | _ \<Rightarrow> None))"

section \<open>The process\<close>

text \<open>
  What the process asks of its environment: the index of an interface (0: none), whether the
  buffer for messages can be allocated, the exchange in which the family is asked for and what
  \<open>nl_family\<close> holds after it, the exchange of a message, and the results of \<^verbatim>\<open>atoi\<close> that are
  undefined.
\<close>

record cli_env =
  ce_nametoindex :: "string \<Rightarrow> u32"
  ce_buf :: bool
  ce_family_sock :: sock_env
  ce_family_id :: int
  ce_sock :: "nlmsg \<Rightarrow> sock_env"
  ce_atoi_ovf :: "string \<Rightarrow> int"

text \<open>
  What it does that can be seen: usage texts, messages that went out on the generic and on the
  routing bus.
\<close>

datatype io = Usage string | Genl nlmsg | Route nlmsg

text \<open>The global variables of ubr.c, vlan.c and port.c, and the argument cursor.\<close>

record cli =
  g_help_flag :: bool
  g_bridge :: string
  g_brindex :: u32
  g_vid :: u16
  g_ifname :: "string option"
  g_ifindex :: u32
  g_cmdl :: cmdl
  g_sockets :: nat
  g_io :: "io list"

section \<open>Making and sending messages\<close>

definition get_family :: "cli_env \<Rightarrow> int \<times> nat" where
  "get_family E =
     (let (err, k) = msg_query (ce_family_sock E)
      in (if err \<noteq> 0 then err else ce_family_id E, sk_open k))"

definition msg_header :: "cli_env \<Rightarrow> int \<Rightarrow> nat \<Rightarrow> cli \<Rightarrow> nlmsg option \<times> cli" where
  "msg_header E typ flags st =
     (if \<not> ce_buf E then (None, st)
      else
        let (typ', k) = (if typ = 0 then get_family E else (typ, 0));
            st' = st\<lparr>g_sockets := g_sockets st + k\<rparr> in
        if typ = 0 \<and> typ' \<le> 0 then (None, st')
        else (Some \<lparr>nh_type = typ', nh_flags = flags, nh_genl = None, nh_ifi = None,
                    nh_attrs = []\<rparr>, st'))"

definition msg_init :: "cli_env \<Rightarrow> ubr_nl_cmd \<Rightarrow> cli \<Rightarrow> nlmsg option \<times> cli" where
  "msg_init E cmd st =
     (case msg_header E 0 0 st of
        (None, st') \<Rightarrow> (None, st')
      | (Some m, st') \<Rightarrow>
          let m1 = m\<lparr>nh_genl := Some (cmd, 1)\<rparr>
          in (Some (if g_brindex st \<noteq> 0
                    then attr_put (Attr UBR_NLA_IFINDEX (NlU32 (g_brindex st))) m1 else m1), st'))"

definition msg_init2 :: "cli_env \<Rightarrow> int \<Rightarrow> nat \<Rightarrow> cli \<Rightarrow> nlmsg option \<times> cli" where
  "msg_init2 E cmd flags st = msg_header E cmd flags st"

text \<open>An exchange of the process: the result, and what is left open and was sent.\<close>

definition exchange :: "(nlmsg \<Rightarrow> io) \<Rightarrow> cli_env \<Rightarrow> nlmsg \<Rightarrow> cli \<Rightarrow> int \<times> cli" where
  "exchange bus E m st =
     (let (ret, k) = msg_query (ce_sock E m)
      in (ret, st\<lparr>g_sockets := g_sockets st + sk_open k,
                 g_io := (if sk_sent k then g_io st @ [bus m] else g_io st)\<rparr>))"

definition msg_doit :: "cli_env \<Rightarrow> nlmsg \<Rightarrow> cli \<Rightarrow> int \<times> cli" where
  "msg_doit E m st = exchange Genl E (m\<lparr>nh_flags := NLM_F_REQUEST OR NLM_F_ACK\<rparr>) st"

definition msg_dumpit :: "cli_env \<Rightarrow> nlmsg \<Rightarrow> cli \<Rightarrow> int \<times> cli" where
  "msg_dumpit E m st = exchange Genl E (m\<lparr>nh_flags := NLM_F_REQUEST OR NLM_F_DUMP\<rparr>) st"

definition msg_query2 :: "cli_env \<Rightarrow> nlmsg \<Rightarrow> cli \<Rightarrow> int \<times> cli" where
  "msg_query2 E m st = exchange Route E m st"

end
