(* ===== verification/Ubr_Tool.thy ===== *)
theory Ubr_Tool
  imports Ubr_Msg
begin

text \<open>
  The commands of the tool (src/ubr.c, src/vlan.c, src/port.c, src/fdb.c) and the dispatch of
  src/cmdl.c, on the state of the process. A handler returns the value of the C function and
  the state; \<open>help\<close> is the help function of the command it was called for.
\<close>

section \<open>Dispatch\<close>

type_synonym handler = "cli_env \<Rightarrow> string option \<Rightarrow> cli \<Rightarrow> (int \<times> cli) res"

definition call_help :: "string option \<Rightarrow> cli \<Rightarrow> cli res" where
  "call_help help st = andthen (nonnull help) (\<lambda>h. Inr (st\<lparr>g_io := g_io st @ [Usage h]\<rparr>))"

definition run_cmd :: "string option \<Rightarrow> handler cmd list \<Rightarrow> cli_env \<Rightarrow> cli \<Rightarrow> (int \<times> cli) res" where
  "run_cmd caller_help cmds E st =
     (let cl = g_cmdl st in
      if cl_optind cl \<ge> cl_argc cl then
        if caller_help \<noteq> None
        then andthen (call_help caller_help st) (\<lambda>st1. Inr (0, st1))
        else Inr (- EINVAL, st)
      else
        andthen (argv_at cl (cl_optind cl)) (\<lambda>arg. andthen (nonnull arg) (\<lambda>name.
          let st1 = st\<lparr>g_cmdl := cl\<lparr>cl_optind := cl_optind cl + 1\<rparr>\<rparr> in
          case find_cmd cmds name of
            None \<Rightarrow>
              if g_help_flag st1 \<and> caller_help \<noteq> None
              then andthen (call_help caller_help st1) (\<lambda>st2. Inr (- EINVAL, st2))
              else Inr (- EINVAL, st1)
          | Some cmd \<Rightarrow> c_func cmd E (c_help cmd) st1)))"

text \<open>\<open>if (help_flag) cmd->help(cmdl); return -EINVAL;\<close>\<close>

definition refuse :: "string option \<Rightarrow> cli \<Rightarrow> (int \<times> cli) res" where
  "refuse help st =
     (if g_help_flag st then andthen (call_help help st) (\<lambda>st1. Inr (- EINVAL, st1))
      else Inr (- EINVAL, st))"

section \<open>VLANs\<close>

definition put_vid :: "cli \<Rightarrow> nat \<times> nlval" where
  "put_vid st = (UBR_NLA_VLAN_VID, NlU16 (g_vid st))"

definition cmd_vlan_add :: handler where
  "cmd_vlan_add E help st =
     (if g_vid st = 0 then refuse help st
      else case msg_init E UBR_NL_VLAN_ADD st of
        (None, st1) \<Rightarrow> Inr (- 1, st1)
      | (Some m, st1) \<Rightarrow> Inr (msg_doit E (attr_put (Nest UBR_NLA_VLAN [put_vid st1]) m) st1))"

definition cmd_vlan_del :: handler where
  "cmd_vlan_del E help st =
     (if g_vid st = 0 then refuse help st
      else case msg_init E UBR_NL_VLAN_DEL st of
        (None, st1) \<Rightarrow> Inr (- 1, st1)
      | (Some m, st1) \<Rightarrow> Inr (msg_doit E (attr_put (Nest UBR_NLA_VLAN [put_vid st1]) m) st1))"

text \<open>
  The port's name and its interface index: a missing argument prints the usage, help or not.
\<close>

definition read_port ::
  "cli_env \<Rightarrow> string option \<Rightarrow> (u32 \<Rightarrow> cli \<Rightarrow> (int \<times> cli) res) \<Rightarrow> cli \<Rightarrow> (int \<times> cli) res" where
  "read_port E help k st =
     andthen (shift_cmdl (g_cmdl st)) (\<lambda>(ifname, cl).
       let st1 = st\<lparr>g_cmdl := cl\<rparr> in
       case ifname of
         None \<Rightarrow> andthen (call_help help st1) (\<lambda>st2. Inr (- EINVAL, st2))
       | Some name \<Rightarrow>
           let ifindex = ce_nametoindex E name in
           if ifindex = 0 then Inr (- EINVAL, st1) else k ifindex st1)"

definition attach_opts :: "opt list" where
  "attach_opts = [\<lparr>o_key = ''tagged'', o_flag = OPT_KEY, o_val = None\<rparr>]"

definition cmd_vlan_attach :: handler where
  "cmd_vlan_attach E help st =
     (if g_vid st = 0 then refuse help st
      else read_port E help (\<lambda>ifindex st1.
        andthen (parse_opts attach_opts (g_cmdl st1)) (\<lambda>(n, opts, cl).
          let st2 = st1\<lparr>g_cmdl := cl\<rparr> in
          if n < 0 then refuse help st2
          else case msg_init E UBR_NL_VLAN_ATTACH st2 of
            (None, st3) \<Rightarrow> Inr (- 1, st3)
          | (Some m, st3) \<Rightarrow>
              let tagged = (if has_opt opts ''tagged'' then 1 else 0) in
              Inr (msg_doit E (attr_put (Nest UBR_NLA_VLAN
                [put_vid st3, (UBR_NLA_VLAN_TAGGED, NlU32 tagged),
                 (UBR_NLA_VLAN_PORT, NlU32 ifindex)]) m) st3))) st)"

definition cmd_vlan_detach :: handler where
  "cmd_vlan_detach E help st =
     (if g_vid st = 0 then refuse help st
      else read_port E help (\<lambda>ifindex st1.
        case msg_init E UBR_NL_VLAN_DETACH st1 of
          (None, st2) \<Rightarrow> Inr (- 1, st2)
        | (Some m, st2) \<Rightarrow>
            Inr (msg_doit E (attr_put (Nest UBR_NLA_VLAN
              [put_vid st2, (UBR_NLA_VLAN_PORT, NlU32 ifindex)]) m) st2)) st)"

definition set_opts :: "opt list" where
  "set_opts = [\<lparr>o_key = ''learning'', o_flag = OPT_KEYVAL, o_val = None\<rparr>]"

definition cmd_vlan_set :: handler where
  "cmd_vlan_set E help st =
     (if g_vid st = 0 then refuse help st
      else andthen (parse_opts set_opts (g_cmdl st)) (\<lambda>(n, opts, cl).
        let st1 = st\<lparr>g_cmdl := cl\<rparr> in
        if n < 0 then refuse help st1
        else case msg_init E UBR_NL_VLAN_SET st1 of
          (None, st2) \<Rightarrow> Inr (- 1, st2)
        | (Some m, st2) \<Rightarrow>
            let learning = (case get_opt opts ''learning'' of
                  None \<Rightarrow> []
                | Some opt \<Rightarrow>
                    if atob (o_val opt) = - 1 then []
                    else [(UBR_NLA_VLAN_LEARNING, NlU32 (of_int (atob (o_val opt))))]) in
            Inr (msg_doit E (attr_put (Nest UBR_NLA_VLAN (put_vid st2 # learning)) m) st2)))"

definition vlan_cmds :: "handler cmd list" where
  "vlan_cmds =
     [\<lparr>c_cmd = ''add'', c_func = cmd_vlan_add, c_help = Some ''vlan VID add''\<rparr>,
      \<lparr>c_cmd = ''del'', c_func = cmd_vlan_del, c_help = Some ''vlan VID del''\<rparr>,
      \<lparr>c_cmd = ''attach'', c_func = cmd_vlan_attach, c_help = Some ''vlan VID attach''\<rparr>,
      \<lparr>c_cmd = ''detach'', c_func = cmd_vlan_detach, c_help = Some ''vlan VID detach''\<rparr>,
      \<lparr>c_cmd = ''set'', c_func = cmd_vlan_set, c_help = Some ''vlan VID set''\<rparr>]"

definition cmd_vlan_help :: "cli \<Rightarrow> cli" where
  "cmd_vlan_help st = st\<lparr>g_io := g_io st @ [Usage ''vlan'']\<rparr>"

definition UINT16_MAX :: int where "UINT16_MAX = 65535"

text \<open>The VID an argument names, \<open>None\<close> when it is refused.\<close>

definition read_vid :: "cli_env \<Rightarrow> string \<Rightarrow> u16 option" where
  "read_vid E arg =
     (let val = atoi (ce_atoi_ovf E) arg;
          val1 = (if val < 0 \<or> val > UINT16_MAX then 0 else val);
          vid = (of_int val1 :: u16)
      in if vid < 1 \<or> vid > 4095 then None else Some vid)"

definition cmd_vlan :: handler where
  "cmd_vlan E help st =
     (if g_help_flag st then run_cmd help vlan_cmds E st
      else andthen (shift_cmdl (g_cmdl st)) (\<lambda>(arg, cl).
        let st1 = st\<lparr>g_cmdl := cl\<rparr> in
        case arg of
          None \<Rightarrow> Inr (- EINVAL, cmd_vlan_help st1)
        | Some s \<Rightarrow>
            (case read_vid E s of
               None \<Rightarrow> Inr (- EINVAL, st1)
             | Some vid \<Rightarrow> run_cmd help vlan_cmds E (st1\<lparr>g_vid := vid\<rparr>))))"

section \<open>Ports\<close>

definition port_opts :: "opt list" where
  "port_opts = [\<lparr>o_key = ''pvid'', o_flag = OPT_KEYVAL, o_val = None\<rparr>]"

definition cmd_port_set :: handler where
  "cmd_port_set E help st =
     andthen (parse_opts port_opts (g_cmdl st)) (\<lambda>(n, opts, cl).
       let st1 = st\<lparr>g_cmdl := cl\<rparr> in
       if n < 0 \<or> g_ifname st1 = None then refuse help st1
       else case msg_init E UBR_NL_PORT_SET st1 of
         (None, st2) \<Rightarrow> Inr (- 1, st2)
       | (Some m, st2) \<Rightarrow>
           andthen
             (case get_opt opts ''pvid'' of
                None \<Rightarrow> Inr []
              | Some opt \<Rightarrow> andthen (nonnull (o_val opt)) (\<lambda>s.
                  let val = atoi (ce_atoi_ovf E) s in
                  Inr (if val = - 1 then [] else [(UBR_NLA_PORT_PVID, NlU16 (of_int val))])))
             (\<lambda>pvid.
               Inr (msg_doit E (attr_put (Nest UBR_NLA_PORT
                 ((UBR_NLA_PORT_IFINDEX, NlU32 (g_ifindex st2)) # pvid)) m) st2)))"

text \<open>
  The link messages: the pointer \<^verbatim>\<open>msg_init2\<close> returns is used without a test.
\<close>

definition linkinfo :: nlattr where
  "linkinfo = Nest IFLA_LINKINFO [(IFLA_INFO_KIND, NlStr ''ubr'')]"

definition link_msg ::
  "cli_env \<Rightarrow> int \<Rightarrow> nat \<Rightarrow> u32 \<Rightarrow> nlattr list \<Rightarrow> cli \<Rightarrow> (int \<times> cli) res" where
  "link_msg E typ flags ifi attrs st =
     (case msg_init2 E typ flags st of
        (m, st1) \<Rightarrow> andthen (nonnull m) (\<lambda>m.
          Inr (msg_query2 E (fold attr_put attrs (m\<lparr>nh_ifi := Some ifi\<rparr>)) st1)))"

definition cmd_port_attach :: handler where
  "cmd_port_attach E help st =
     (if g_ifname st = None then refuse help st
      else andthen
        (link_msg E RTM_SETLINK (NLM_F_REQUEST OR NLM_F_ACK) (g_ifindex st)
           [linkinfo, Attr IFLA_MASTER (NlU32 (g_brindex st))] st) (\<lambda>(err, st1).
        if err \<noteq> 0 then Inr (err, st1)
        else if more_opts (g_cmdl st1) then cmd_port_set E help st1
        else Inr (0, st1)))"

definition cmd_port_detach :: handler where
  "cmd_port_detach E help st =
     (if g_ifname st = None then refuse help st
      else link_msg E RTM_SETLINK (NLM_F_REQUEST OR NLM_F_ACK) (g_ifindex st)
             [linkinfo, Attr IFLA_MASTER (NlU32 0)] st)"

definition port_cmds :: "handler cmd list" where
  "port_cmds =
     [\<lparr>c_cmd = ''attach'', c_func = cmd_port_attach, c_help = Some ''port IFNAME attach''\<rparr>,
      \<lparr>c_cmd = ''detach'', c_func = cmd_port_detach, c_help = Some ''port IFNAME detach''\<rparr>,
      \<lparr>c_cmd = ''set'', c_func = cmd_port_set, c_help = Some ''port IFNAME set''\<rparr>]"

definition cmd_port_help :: "cli \<Rightarrow> cli" where
  "cmd_port_help st = st\<lparr>g_io := g_io st @ [Usage ''port'']\<rparr>"

definition cmd_port :: handler where
  "cmd_port E help st =
     (if g_help_flag st then run_cmd help port_cmds E st
      else andthen (shift_cmdl (g_cmdl st)) (\<lambda>(arg, cl).
        let st1 = st\<lparr>g_cmdl := cl, g_ifname := arg\<rparr> in
        case arg of
          None \<Rightarrow> Inr (- EINVAL, cmd_port_help st1)
        | Some name \<Rightarrow>
            let st2 = st1\<lparr>g_ifindex := ce_nametoindex E name\<rparr> in
            if g_ifindex st2 = 0 then Inr (- EINVAL, st2)
            else run_cmd help port_cmds E st2))"

section \<open>The database, and bridges\<close>

definition cmd_fdb_flush :: handler where
  "cmd_fdb_flush E help st =
     (case msg_init E UBR_NL_FDB_FLUSH st of
        (None, st1) \<Rightarrow> Inr (- 1, st1)
      | (Some m, st1) \<Rightarrow> Inr (msg_doit E m st1))"

definition fdb_cmds :: "handler cmd list" where
  "fdb_cmds = [\<lparr>c_cmd = ''flush'', c_func = cmd_fdb_flush, c_help = Some ''fdb flush''\<rparr>]"

definition cmd_fdb :: handler where
  "cmd_fdb E help st = run_cmd help fdb_cmds E st"

definition cmd_add :: handler where
  "cmd_add E help st =
     (if g_help_flag st then andthen (call_help help st) (\<lambda>st1. Inr (0, st1))
      else link_msg E RTM_NEWLINK (NLM_F_REQUEST OR NLM_F_ACK OR NLM_F_CREATE OR NLM_F_EXCL) 0
             [Attr IFLA_IFNAME (NlStr (g_bridge st)), linkinfo] st)"

definition cmd_del :: handler where
  "cmd_del E help st =
     (if g_help_flag st then andthen (call_help help st) (\<lambda>st1. Inr (0, st1))
      else link_msg E RTM_DELLINK (NLM_F_REQUEST OR NLM_F_ACK) 0
             [Attr IFLA_IFNAME (NlStr (g_bridge st)), linkinfo] st)"

definition main_cmds :: "handler cmd list" where
  "main_cmds =
     [\<lparr>c_cmd = ''add'', c_func = cmd_add, c_help = Some ''add''\<rparr>,
      \<lparr>c_cmd = ''del'', c_func = cmd_del, c_help = Some ''del''\<rparr>,
      \<lparr>c_cmd = ''fdb'', c_func = cmd_fdb, c_help = Some ''fdb''\<rparr>,
      \<lparr>c_cmd = ''port'', c_func = cmd_port, c_help = Some ''port''\<rparr>,
      \<lparr>c_cmd = ''vlan'', c_func = cmd_vlan, c_help = Some ''vlan''\<rparr>]"

text \<open>
  What \<^verbatim>\<open>getopt_long\<close> returns before -1, and what it leaves: the index of the first argument
  that is not an option, and the vector, which it may permute.
\<close>

datatype getopt_result = Opt_h | Opt_i string | Opt_invalid

fun main_options :: "getopt_result list \<Rightarrow> cli \<Rightarrow> cli option" where
  "main_options [] st = Some st"
| "main_options (Opt_h # os) st = main_options os (st\<lparr>g_help_flag := True\<rparr>)"
| "main_options (Opt_i name # os) st = main_options os (st\<lparr>g_bridge := name\<rparr>)"
| "main_options (Opt_invalid # os) st = None"

definition cli_init :: cli where
  "cli_init = \<lparr>g_help_flag = False, g_bridge = ''ubr0'', g_brindex = 0, g_vid = 0, g_ifname = None,
     g_ifindex = 0, g_cmdl = \<lparr>cl_optind = 0, cl_argc = 0, cl_argv = []\<rparr>, g_sockets = 0, g_io = []\<rparr>"

text \<open>The exit status, and the state at exit.\<close>

definition main :: "cli_env \<Rightarrow> getopt_result list \<Rightarrow> nat \<Rightarrow> string list \<Rightarrow> (int \<times> cli) res" where
  "main E os optind argv =
     (case main_options os cli_init of
        None \<Rightarrow> Inr (1, cli_init)
      | Some st0 \<Rightarrow>
          let st = st0\<lparr>g_brindex := ce_nametoindex E (g_bridge st0)\<rparr> in
          if \<not> g_help_flag st \<and> g_brindex st = 0 \<and> optind < length argv \<and>
             \<not> strncmp_eq (argv ! optind) ''add'' 2
          then Inr (1, st)
          else
            andthen (run_cmd (Some ''ubr'') main_cmds E
               (st\<lparr>g_cmdl := \<lparr>cl_optind = optind, cl_argc = length argv, cl_argv = argv\<rparr>\<rparr>))
              (\<lambda>(res, st1). Inr (if res \<noteq> 0 then 1 else 0, st1)))"

end
