(* ===== verification/Ubr_Requests.thy ===== *)
theory Ubr_Requests
  imports Ubr_Tool
begin

text \<open>
  What the tool sends. The tables of commands share a contract (locale \<open>command_table\<close>): a
  command that starts in a good state returns, in a good state; dispatch through the table
  then does as well. From it: the tool never follows a bad pointer, sends no VLAN request
  without a valid VID, and what it does when it is asked for help.
\<close>

section \<open>Good messages and states\<close>

definition vid_ok :: "nlmsg \<Rightarrow> bool" where
  "vid_ok m \<longleftrightarrow> (\<exists>vid rest. Nest UBR_NLA_VLAN ((UBR_NLA_VLAN_VID, NlU16 vid) # rest) \<in> set (nh_attrs m) \<and>
     1 \<le> vid \<and> vid \<le> 4095)"

definition request_ok :: "nlmsg \<Rightarrow> bool" where
  "request_ok m =
     (case nh_genl m of
        None \<Rightarrow> False
      | Some (cmd, version) \<Rightarrow>
          version = 1 \<and> nh_flags m = NLM_F_REQUEST OR NLM_F_ACK \<and>
          (cmd \<in> {UBR_NL_FDB_FLUSH, UBR_NL_PORT_SET} \<or> vid_ok m))"

fun io_ok :: "bool \<Rightarrow> io \<Rightarrow> bool" where
  "io_ok help (Usage h) = True"
| "io_ok help (Genl m) = (request_ok m \<and> (help \<longrightarrow> nh_genl m = Some (UBR_NL_FDB_FLUSH, 1)))"
| "io_ok help (Route m) = (\<not> help)"

definition cli_ok :: "cli \<Rightarrow> bool" where
  "cli_ok st \<longleftrightarrow> argv_ok (g_cmdl st) \<and> g_vid st \<le> 4095 \<and>
     (g_help_flag st \<longrightarrow> g_vid st = 0 \<and> g_ifname st = None) \<and>
     (\<forall>x \<in> set (g_io st). io_ok (g_help_flag st) x)"

text \<open>A result that is not a fault, in a good state, with the help flag as it was.\<close>

definition good :: "cli \<Rightarrow> (int \<times> cli) res \<Rightarrow> bool" where
  "good st r \<longleftrightarrow> (\<exists>ret st'. r = Inr (ret, st') \<and> cli_ok st' \<and> g_help_flag st' = g_help_flag st)"

lemma goodI: "cli_ok st' \<Longrightarrow> g_help_flag st' = g_help_flag st \<Longrightarrow> good st (Inr (ret, st'))"
  by (auto simp: good_def)

lemma good_trans: "good st' r \<Longrightarrow> g_help_flag st' = g_help_flag st \<Longrightarrow> good st r"
  by (auto simp: good_def)

lemma argv_ok_optind [simp]: "argv_ok (cl\<lparr>cl_optind := n\<rparr>) = argv_ok cl"
  by (simp add: argv_ok_def)

lemma cli_ok_cmdl [simp]:
  "argv_ok cl \<Longrightarrow> cli_ok st \<Longrightarrow> cli_ok (st\<lparr>g_cmdl := cl\<rparr>)"
  by (simp add: cli_ok_def)

lemma cli_ok_argv: "cli_ok st \<Longrightarrow> argv_ok (g_cmdl st)"
  by (simp add: cli_ok_def)

lemma cli_ok_usage: "cli_ok st \<Longrightarrow> cli_ok (st\<lparr>g_io := g_io st @ [Usage h]\<rparr>)"
  by (auto simp: cli_ok_def)

lemma call_help_Some [simp]: "call_help (Some h) st = Inr (st\<lparr>g_io := g_io st @ [Usage h]\<rparr>)"
  by (simp add: call_help_def)

section \<open>Messages\<close>

lemma msg_header_state:
  assumes "msg_header E typ flags st = (m, st')"
  obtains k where "st' = st\<lparr>g_sockets := k\<rparr>"
proof -
  have "st' = st\<lparr>g_sockets := g_sockets st +
      (if ce_buf E \<and> typ = 0 then snd (get_family E) else 0)\<rparr>"
    using assms by (auto simp: msg_header_def Let_def split: prod.splits if_splits)
  then show thesis by (rule that)
qed

lemma msg_init_cases:
  obtains (fails) k where "msg_init E cmd st = (None, st\<lparr>g_sockets := k\<rparr>)"
  | (made) m k where "msg_init E cmd st = (Some m, st\<lparr>g_sockets := k\<rparr>)"
      "nh_genl m = Some (cmd, 1)"
      "nh_attrs m = (if g_brindex st = 0 then [] else [Attr UBR_NLA_IFINDEX (NlU32 (g_brindex st))])"
proof -
  obtain mo st' where h: "msg_header E 0 0 st = (mo, st')" by (cases "msg_header E 0 0 st")
  from msg_header_state [OF h] obtain k where k: "st' = st\<lparr>g_sockets := k\<rparr>" .
  show thesis
  proof (cases mo)
    case None
    then show thesis using h k by (intro fails) (simp add: msg_init_def)
  next
    case (Some m)
    have "nh_attrs m = []" using h unfolding Some
      by (auto simp: msg_header_def Let_def split: if_splits prod.splits)
    then show thesis using h k unfolding Some
      by (intro made) (auto simp: msg_init_def attr_put_def Let_def)
  qed
qed

lemma exchange_state:
  obtains k io where "snd (exchange bus E m st) = st\<lparr>g_sockets := k, g_io := io\<rparr>"
    "io = g_io st \<or> io = g_io st @ [bus m]"
  by (cases "msg_query (ce_sock E m)") (auto simp: exchange_def Let_def)

lemma good_exchange:
  assumes "cli_ok st" "io_ok (g_help_flag st) (bus m)"
  shows "good st (Inr (exchange bus E m st))"
proof -
  obtain ret st' where x: "exchange bus E m st = (ret, st')" by (cases "exchange bus E m st")
  obtain k io where st': "st' = st\<lparr>g_sockets := k, g_io := io\<rparr>" and "io = g_io st \<or> io = g_io st @ [bus m]"
    using exchange_state [of bus E m st] x by (metis snd_conv)
  then have "cli_ok st'" using assms by (auto simp: cli_ok_def)
  then show ?thesis unfolding x by (rule goodI) (simp add: st')
qed

lemma good_doit:
  assumes "cli_ok st" "nh_genl m = Some (cmd, 1)" "cmd \<in> {UBR_NL_FDB_FLUSH, UBR_NL_PORT_SET} \<or> vid_ok m"
    and "g_help_flag st \<Longrightarrow> cmd = UBR_NL_FDB_FLUSH"
  shows "good st (Inr (msg_doit E m st))"
  unfolding msg_doit_def
  by (rule good_exchange [OF assms(1)]) (use assms in \<open>auto simp: request_ok_def vid_ok_def\<close>)

lemma good_refuse: "cli_ok st \<Longrightarrow> good st (refuse (Some h) st)"
  by (auto simp: refuse_def cli_ok_usage intro!: goodI)

text \<open>A request of a command is made and sent, or it is not made.\<close>

lemma good_request:
  assumes "cli_ok st" and "g_help_flag st \<Longrightarrow> cmd = UBR_NL_FDB_FLUSH"
    and "\<And>m k. nh_genl m = Some (cmd, 1) \<Longrightarrow> nh_genl (f m (st\<lparr>g_sockets := k\<rparr>)) = Some (cmd, 1) \<and>
      (cmd \<in> {UBR_NL_FDB_FLUSH, UBR_NL_PORT_SET} \<or> vid_ok (f m (st\<lparr>g_sockets := k\<rparr>)))"
  shows "good st (case msg_init E cmd st of (None, st1) \<Rightarrow> Inr (- 1, st1)
    | (Some m, st1) \<Rightarrow> Inr (msg_doit E (f m st1) st1))"
proof (cases rule: msg_init_cases [of E cmd st])
  case (fails k)
  then show ?thesis using assms(1) by (auto intro!: goodI simp: cli_ok_def)
next
  case (made m k)
  have "cli_ok (st\<lparr>g_sockets := k\<rparr>)" using assms(1) by (simp add: cli_ok_def)
  from good_doit [OF this, of "f m (st\<lparr>g_sockets := k\<rparr>)" cmd] show ?thesis
    using made assms(2,3) by (auto intro: good_trans [of "st\<lparr>g_sockets := k\<rparr>"])
qed

lemma vid_ok_put:
  "1 \<le> vid \<Longrightarrow> vid \<le> 4095 \<Longrightarrow>
     vid_ok (attr_put (Nest UBR_NLA_VLAN ((UBR_NLA_VLAN_VID, NlU16 vid) # rest)) m)"
  by (auto simp: vid_ok_def attr_put_def)

lemma attr_put_simps [simp]:
  "nh_genl (attr_put a m) = nh_genl m" "nh_attrs (attr_put a m) = nh_attrs m @ [a]"
  by (simp_all add: attr_put_def)

section \<open>The interface: a table of commands\<close>

text \<open>
  Every command has a help text and returns in a good state, and no name of the table is an
  abbreviation of another.
\<close>

locale command_table =
  fixes cmds :: "handler cmd list"
  assumes helps: "c \<in> set cmds \<Longrightarrow> c_help c \<noteq> None"
    and returns: "ce_buf E \<Longrightarrow> c \<in> set cmds \<Longrightarrow> cli_ok st \<Longrightarrow> c_help c = Some h \<Longrightarrow>
      good st (c_func c E (Some h) st)"
    and names: "i < length cmds \<Longrightarrow> j < length cmds \<Longrightarrow>
      prefix (c_cmd (cmds ! i)) (c_cmd (cmds ! j)) \<Longrightarrow> j = i"
begin

lemma run_cmd_good:
  assumes "ce_buf E" "cli_ok st"
  shows "good st (run_cmd (Some caller) cmds E st)"
proof (cases "cl_argc (g_cmdl st) \<le> cl_optind (g_cmdl st)")
  case True
  then show ?thesis using assms(2) by (auto simp: run_cmd_def Let_def intro!: goodI cli_ok_usage)
next
  case False
  let ?cl = "g_cmdl st"
  let ?st = "st\<lparr>g_cmdl := ?cl\<lparr>cl_optind := cl_optind ?cl + 1\<rparr>\<rparr>"
  have arg: "argv_at ?cl (cl_optind ?cl) = Inr (Some (cl_argv ?cl ! cl_optind ?cl))"
    using False cli_ok_argv [OF assms(2)] by (simp add: argv_at_def argv_ok_def)
  have st: "cli_ok ?st" using assms(2) cli_ok_argv [OF assms(2)] by simp
  show ?thesis
  proof (cases "find_cmd cmds (cl_argv ?cl ! cl_optind ?cl)")
    case None
    then show ?thesis using False arg st cli_ok_usage [OF st]
      by (auto simp: run_cmd_def Let_def intro!: goodI)
  next
    case (Some c)
    then obtain h where h: "c_help c = Some h" using helps find_cmd_in by blast
    have "good ?st (c_func c E (Some h) ?st)"
      using returns [OF assms(1) find_cmd_in [OF Some] st h] .
    then have "good st (c_func c E (Some h) ?st)" by (rule good_trans) simp
    then show ?thesis using False arg Some h by (simp add: run_cmd_def Let_def)
  qed
qed

text \<open>A command's full name is always understood.\<close>

lemma find_exact:
  assumes "c \<in> set cmds"
  shows "find_cmd cmds (c_cmd c) = Some c"
proof -
  obtain i where i: "i < length cmds" "cmds ! i = c" using assms by (auto simp: in_set_conv_nth)
  then show ?thesis
    unfolding find_cmd_iff using names [OF i(1)] prefix_order.order_refl by blast
qed

lemma run_exact:
  assumes "c \<in> set cmds" "cl_argv (g_cmdl st) = pre @ c_cmd c # args"
    and "cl_optind (g_cmdl st) = length pre" "argv_ok (g_cmdl st)"
  shows "run_cmd caller cmds E st =
    c_func c E (c_help c) (st\<lparr>g_cmdl := (g_cmdl st)\<lparr>cl_optind := Suc (length pre)\<rparr>\<rparr>)"
  using assms by (simp add: run_cmd_def Let_def argv_at_def argv_ok_def find_exact)

end

section \<open>The commands of the tool\<close>

lemma good_parse:
  assumes "cli_ok st"
    and "\<And>n os cl. argv_ok cl \<Longrightarrow> good st (f (n, os, cl))"
  shows "good st (andthen (parse_opts opts (g_cmdl st)) f)"
  using parse_opts_from_eq [OF cli_ok_argv [OF assms(1)] refl, of opts 0] assms(2)
    cli_ok_argv [OF assms(1)]
  by (auto simp: parse_opts_def)

lemma good_shift:
  assumes "cli_ok st"
    and "\<And>arg cl. argv_ok cl \<Longrightarrow> good st (f (arg, cl))"
  shows "good st (andthen (shift_cmdl (g_cmdl st)) f)"
  using assms cli_ok_argv [OF assms(1)] by (auto simp: shift_cmdl_eq)

lemma good_read_port:
  assumes "cli_ok st"
    and "\<And>i cl. argv_ok cl \<Longrightarrow> good st (k i (st\<lparr>g_cmdl := cl\<rparr>))"
  shows "good st (read_port E (Some h) k st)"
  unfolding read_port_def
proof (rule good_shift [OF assms(1)])
  fix arg cl assume cl: "argv_ok cl"
  note ok = cli_ok_cmdl [OF cl assms(1)]
  show "good st (case (arg, cl) of (ifname, cl) \<Rightarrow> let st1 = st\<lparr>g_cmdl := cl\<rparr> in
      case ifname of None \<Rightarrow> andthen (call_help (Some h) st1) (\<lambda>st2. Inr (- EINVAL, st2))
      | Some name \<Rightarrow> let ifindex = ce_nametoindex E name in
          if ifindex = 0 then Inr (- EINVAL, st1) else k ifindex st1)"
    using ok cli_ok_usage [OF ok] assms(2) [OF cl] by (auto simp: Let_def split: option.split intro!: goodI)
qed

lemma vid_pos: "cli_ok st \<Longrightarrow> g_vid st \<noteq> 0 \<Longrightarrow> 1 \<le> g_vid st \<and> g_vid st \<le> 4095 \<and> \<not> g_help_flag st"
  by (auto simp: cli_ok_def word_le_nat_alt unat_gt_0 Suc_le_eq)

lemma good_frame [simp]:
  "good (st\<lparr>g_cmdl := cl\<rparr>) r = good st r" "good (st\<lparr>g_vid := v\<rparr>) r = good st r"
  "good (st\<lparr>g_ifname := n\<rparr>) r = good st r" "good (st\<lparr>g_ifindex := x\<rparr>) r = good st r"
  by (simp_all add: good_def)

lemma good_vlan_request:
  assumes "cli_ok st" "g_vid st \<noteq> 0"
  shows "good st (case msg_init E cmd st of (None, st1) \<Rightarrow> Inr (- 1, st1)
    | (Some m, st1) \<Rightarrow>
        Inr (msg_doit E (attr_put (Nest UBR_NLA_VLAN (put_vid st1 # rest)) m) st1))"
  by (rule good_request [OF assms(1)])
    (use vid_pos [OF assms] in \<open>auto simp: put_vid_def intro!: vid_ok_put\<close>)

lemmas good_moved =
  good_refuse [of "st\<lparr>g_cmdl := cl\<rparr>" for st cl, unfolded good_frame]
  good_vlan_request [of "st\<lparr>g_cmdl := cl\<rparr>" for st cl, unfolded good_frame cli.simps]
  good_parse [of "st\<lparr>g_cmdl := cl\<rparr>" for st cl, unfolded good_frame cli.simps]

lemma good_vlan_add: "cli_ok st \<Longrightarrow> good st (cmd_vlan_add E (Some h) st)"
  by (simp add: cmd_vlan_add_def good_refuse good_vlan_request)

lemma good_vlan_del: "cli_ok st \<Longrightarrow> good st (cmd_vlan_del E (Some h) st)"
  by (simp add: cmd_vlan_del_def good_refuse good_vlan_request)

lemma good_vlan_attach: "cli_ok st \<Longrightarrow> good st (cmd_vlan_attach E (Some h) st)"
  unfolding cmd_vlan_attach_def Let_def
  by (auto simp: good_refuse intro!: good_read_port good_moved)

lemma good_vlan_detach: "cli_ok st \<Longrightarrow> good st (cmd_vlan_detach E (Some h) st)"
  unfolding cmd_vlan_detach_def
  by (auto simp: good_refuse intro!: good_read_port good_moved)

lemma good_vlan_set: "cli_ok st \<Longrightarrow> good st (cmd_vlan_set E (Some h) st)"
  unfolding cmd_vlan_set_def Let_def
  by (auto simp: good_refuse intro!: good_parse good_moved)

lemma good_port_request:
  assumes "cli_ok st" "g_ifname st \<noteq> None"
  shows "good st (case msg_init E UBR_NL_PORT_SET st of (None, st1) \<Rightarrow> Inr (- 1, st1)
    | (Some m, st1) \<Rightarrow> Inr (msg_doit E (attr_put (Nest UBR_NLA_PORT (f st1)) m) st1))"
  by (rule good_request [OF assms(1)]) (use assms in \<open>auto simp: cli_ok_def\<close>)

text \<open>The value of an option that \<^verbatim>\<open>get_opt\<close> returns is never NULL.\<close>

lemma get_opt_val: "get_opt opts key = Some opt1 \<Longrightarrow> \<exists>s. o_val opt1 = Some s"
  by (auto simp: get_opt_def find_Some_iff)

lemma good_port_set:
  assumes "cli_ok st"
  shows "good st (cmd_port_set E (Some h) st)"
  unfolding cmd_port_set_def
proof (rule good_parse [OF assms])
  fix n :: int and os cl assume cl: "argv_ok cl"
  let ?st = "st\<lparr>g_cmdl := cl\<rparr>"
  have "\<exists>x. (case get_opt os ''pvid'' of None \<Rightarrow> Inr []
      | Some opt \<Rightarrow> andthen (nonnull (o_val opt)) (\<lambda>s. let val = atoi (ce_atoi_ovf E) s in
          Inr (if val = - 1 then [] else [(UBR_NLA_PORT_PVID, NlU16 (of_int val))]))) = Inr x"
    using get_opt_val [of os "''pvid''"] by (auto simp: Let_def split: option.split)
  then obtain pvid where pvid: "(case get_opt os ''pvid'' of None \<Rightarrow> Inr []
      | Some opt \<Rightarrow> andthen (nonnull (o_val opt)) (\<lambda>s. let val = atoi (ce_atoi_ovf E) s in
          Inr (if val = - 1 then [] else [(UBR_NLA_PORT_PVID, NlU16 (of_int val))]))) = Inr pvid" ..
  show "good st (case (n, os, cl) of (n, opts, cl) \<Rightarrow>
       let st1 = st\<lparr>g_cmdl := cl\<rparr> in
       if n < 0 \<or> g_ifname st1 = None then refuse (Some h) st1
       else case msg_init E UBR_NL_PORT_SET st1 of
         (None, st2) \<Rightarrow> Inr (- 1, st2)
       | (Some m, st2) \<Rightarrow>
           andthen
             (case get_opt opts ''pvid'' of
                None \<Rightarrow> Inr []
              | Some opt \<Rightarrow> andthen (nonnull (o_val opt)) (\<lambda>s.
                  let val = atoi (ce_atoi_ovf E) s in
                  Inr (if val = - 1 then [] else [(UBR_NLA_PORT_PVID, NlU16 (of_int val))])))
             (\<lambda>pvid. Inr (msg_doit E (attr_put (Nest UBR_NLA_PORT
                 ((UBR_NLA_PORT_IFINDEX, NlU32 (g_ifindex st2)) # pvid)) m) st2)))"
    unfolding split_conv pvid andthen.simps
    using good_refuse [OF cli_ok_cmdl [OF cl assms], of h]
      good_port_request [OF cli_ok_cmdl [OF cl assms], of E
        "\<lambda>st2. (UBR_NLA_PORT_IFINDEX, NlU32 (g_ifindex st2)) # pvid"]
    by (auto simp: Let_def)
qed

text \<open>Messages about links, which are never sent on a request for help.\<close>

lemma good_link_msg:
  assumes "ce_buf E" "typ \<noteq> 0" "cli_ok st" "\<not> g_help_flag st"
  shows "good st (link_msg E typ flags ifi attrs st)"
proof -
  obtain mo st' where h: "msg_header E typ flags st = (mo, st')" by (cases "msg_header E typ flags st")
  from msg_header_state [OF h] obtain k where k: "st' = st\<lparr>g_sockets := k\<rparr>" .
  obtain m where m: "mo = Some m" using h assms(1,2) by (auto simp: msg_header_def)
  have "cli_ok st'" using assms(3) k by (simp add: cli_ok_def)
  from good_exchange [OF this, of Route "fold attr_put attrs (m\<lparr>nh_ifi := Some ifi\<rparr>)" E] assms(4)
  show ?thesis
    by (auto simp: link_msg_def msg_init2_def h m msg_query2_def k intro: good_trans)
qed

lemma good_bind:
  assumes "good st r" "\<And>ret st'. cli_ok st' \<Longrightarrow> g_help_flag st' = g_help_flag st \<Longrightarrow> good st' (f (ret, st'))"
  shows "good st (andthen r f)"
proof -
  obtain ret st' where r: "r = Inr (ret, st')" "cli_ok st'" "g_help_flag st' = g_help_flag st"
    using assms(1) by (auto simp: good_def)
  have "good st' (f (ret, st'))" using assms(2) r(2,3) .
  then show ?thesis by (simp add: r(1) good_trans [OF _ r(3)])
qed

lemmas rtm_nums = RTM_NEWLINK_def RTM_DELLINK_def RTM_SETLINK_def

lemma good_port_attach:
  assumes "ce_buf E" "cli_ok st"
  shows "good st (cmd_port_attach E (Some h) st)"
proof (cases "g_ifname st = None")
  case True
  then show ?thesis using assms by (simp add: cmd_port_attach_def good_refuse)
next
  case False
  then have "\<not> g_help_flag st" using assms(2) by (auto simp: cli_ok_def)
  then show ?thesis using assms False unfolding cmd_port_attach_def
    by (auto intro!: good_bind good_link_msg good_port_set goodI simp: rtm_nums)
qed

lemma good_port_detach:
  "ce_buf E \<Longrightarrow> cli_ok st \<Longrightarrow> good st (cmd_port_detach E (Some h) st)"
  unfolding cmd_port_detach_def
  by (auto simp: good_refuse rtm_nums cli_ok_def [of st] intro!: good_link_msg)

lemma good_fdb_flush: "cli_ok st \<Longrightarrow> good st (cmd_fdb_flush E (Some h) st)"
  unfolding cmd_fdb_flush_def by (rule good_request) auto

lemma good_add: "ce_buf E \<Longrightarrow> cli_ok st \<Longrightarrow> good st (cmd_add E (Some h) st)"
  unfolding cmd_add_def
  by (auto intro!: good_link_msg goodI cli_ok_usage simp: rtm_nums)

lemma good_del: "ce_buf E \<Longrightarrow> cli_ok st \<Longrightarrow> good st (cmd_del E (Some h) st)"
  unfolding cmd_del_def
  by (auto intro!: good_link_msg goodI cli_ok_usage simp: rtm_nums)

interpretation vlan_t: command_table vlan_cmds
  by unfold_locales
    (auto simp: vlan_cmds_def less_Suc_eq good_vlan_add good_vlan_del good_vlan_attach
      good_vlan_detach good_vlan_set)

interpretation port_t: command_table port_cmds
  by unfold_locales
    (auto simp: port_cmds_def less_Suc_eq good_port_attach good_port_detach good_port_set)

interpretation fdb_t: command_table fdb_cmds
  by unfold_locales (auto simp: fdb_cmds_def good_fdb_flush)

lemma read_vid_range: "read_vid E s = Some vid \<Longrightarrow> 1 \<le> vid \<and> vid \<le> 4095"
  by (auto simp: read_vid_def Let_def not_less word_le_nat_alt [of 1] unat_gt_0 Suc_le_eq
      split: if_splits)

lemma good_vlan:
  assumes "ce_buf E" "cli_ok st"
  shows "good st (cmd_vlan E (Some h) st)"
proof (cases "g_help_flag st")
  case True
  then show ?thesis using vlan_t.run_cmd_good [OF assms] by (simp add: cmd_vlan_def)
next
  case False
  show ?thesis unfolding cmd_vlan_def if_not_P [OF False]
  proof (rule good_shift [OF assms(2)])
    fix arg cl assume cl: "argv_ok cl"
    note ok = cli_ok_cmdl [OF cl assms(2)]
    have run: "good st (run_cmd (Some h) vlan_cmds E (st\<lparr>g_cmdl := cl, g_vid := vid\<rparr>))"
      if "read_vid E s = Some vid" for s vid
    proof -
      have "cli_ok (st\<lparr>g_cmdl := cl, g_vid := vid\<rparr>)"
        using ok False read_vid_range [OF that] by (simp add: cli_ok_def)
      from vlan_t.run_cmd_good [OF assms(1) this] show ?thesis by simp
    qed
    have "cli_ok (cmd_vlan_help (st\<lparr>g_cmdl := cl\<rparr>))" "g_help_flag (cmd_vlan_help (st\<lparr>g_cmdl := cl\<rparr>)) = g_help_flag st"
      using cli_ok_usage [OF ok] by (simp_all add: cmd_vlan_help_def)
    then show "good st (case (arg, cl) of (arg, cl) \<Rightarrow> let st1 = st\<lparr>g_cmdl := cl\<rparr> in
        case arg of None \<Rightarrow> Inr (- EINVAL, cmd_vlan_help st1)
        | Some s \<Rightarrow> (case read_vid E s of None \<Rightarrow> Inr (- EINVAL, st1)
            | Some vid \<Rightarrow> run_cmd (Some h) vlan_cmds E (st1\<lparr>g_vid := vid\<rparr>)))"
      using ok run by (auto simp: Let_def split: option.split intro!: goodI)
  qed
qed

lemma good_port:
  assumes "ce_buf E" "cli_ok st"
  shows "good st (cmd_port E (Some h) st)"
proof (cases "g_help_flag st")
  case True
  then show ?thesis using port_t.run_cmd_good [OF assms] by (simp add: cmd_port_def)
next
  case False
  show ?thesis unfolding cmd_port_def if_not_P [OF False]
  proof (rule good_shift [OF assms(2)])
    fix arg cl assume cl: "argv_ok cl"
    have ok: "cli_ok (st\<lparr>g_cmdl := cl, g_ifname := arg, g_ifindex := x\<rparr>)" for x
      using cli_ok_cmdl [OF cl assms(2)] False by (simp add: cli_ok_def)
    have ok': "cli_ok (st\<lparr>g_cmdl := cl, g_ifname := arg\<rparr>)"
      using cli_ok_cmdl [OF cl assms(2)] False by (simp add: cli_ok_def)
    note run = port_t.run_cmd_good [OF assms(1) ok]
    have "cli_ok (cmd_port_help (st\<lparr>g_cmdl := cl, g_ifname := arg\<rparr>))"
      "g_help_flag (cmd_port_help (st\<lparr>g_cmdl := cl, g_ifname := arg\<rparr>)) = g_help_flag st"
      using cli_ok_usage [OF ok'] by (simp_all add: cmd_port_help_def)
    then show "good st (case (arg, cl) of (arg, cl) \<Rightarrow>
        let st1 = st\<lparr>g_cmdl := cl, g_ifname := arg\<rparr> in
        case arg of None \<Rightarrow> Inr (- EINVAL, cmd_port_help st1)
        | Some name \<Rightarrow> let st2 = st1\<lparr>g_ifindex := ce_nametoindex E name\<rparr> in
            if g_ifindex st2 = 0 then Inr (- EINVAL, st2) else run_cmd (Some h) port_cmds E st2)"
      using ok run by (auto simp: Let_def split: option.split intro!: goodI)
  qed
qed

interpretation main_t: command_table main_cmds
  by unfold_locales
    (auto simp: main_cmds_def less_Suc_eq good_add good_del good_port good_vlan cmd_fdb_def
      fdb_t.run_cmd_good)

section \<open>The whole run\<close>

lemma main_options_state:
  assumes "main_options os st = Some st'"
  shows "\<exists>b. st' = st\<lparr>g_help_flag := g_help_flag st \<or> Opt_h \<in> set os, g_bridge := b\<rparr>"
  using assms
proof (induction os st rule: main_options.induct)
  case (1 st)
  then show ?case by (intro exI [of _ "g_bridge st"]) simp
qed auto

lemma main_options_help:
  "main_options os cli_init = Some st \<Longrightarrow> g_help_flag st \<longleftrightarrow> Opt_h \<in> set os"
  by (drule main_options_state) (auto simp: cli_init_def)

lemma cli_ok_start:
  assumes "main_options os cli_init = Some st0"
  shows "cli_ok (st0\<lparr>g_brindex := b, g_cmdl := \<lparr>cl_optind = i, cl_argc = length argv, cl_argv = argv\<rparr>\<rparr>)"
    "cli_ok (st0\<lparr>g_brindex := b\<rparr>)"
  using main_options_state [OF assms] by (auto simp: cli_ok_def argv_ok_def cli_init_def)

lemma good_main:
  assumes "ce_buf E"
  shows "\<exists>status st. main E os i argv = Inr (status, st) \<and> status \<in> {0, 1} \<and> cli_ok st \<and>
    (main_options os cli_init \<noteq> None \<longrightarrow> (g_help_flag st \<longleftrightarrow> Opt_h \<in> set os))"
proof (cases "main_options os cli_init")
  case None
  then show ?thesis by (simp add: main_def cli_ok_def cli_init_def argv_ok_def)
next
  case (Some st0)
  let ?st = "st0\<lparr>g_brindex := ce_nametoindex E (g_bridge st0)\<rparr>"
  let ?run = "run_cmd (Some ''ubr'') main_cmds E
      (?st\<lparr>g_cmdl := \<lparr>cl_optind = i, cl_argc = length argv, cl_argv = argv\<rparr>\<rparr>)"
  note start = cli_ok_start [OF Some] and asked = main_options_help [OF Some]
  from main_t.run_cmd_good [OF assms start(1)] obtain ret st where
    run: "?run = Inr (ret, st)" "cli_ok st" "g_help_flag st = g_help_flag st0"
    unfolding good_def by fastforce
  show ?thesis
    using run asked start(2) by (auto simp: main_def Some Let_def)
qed

end
