(* ===== verification/Ubr_Enslave.thy ===== *)
theory Ubr_Enslave
  imports Ubr_Bridge
begin

unbundle bit_operations_syntax

text \<open>
  Attaching a device (kernel/ubr-port.c, \<^verbatim>\<open>ubr_port_add\<close>) to a bridge that satisfies its
  invariant: the world after each outcome of the four calls that may fail.
\<close>

section \<open>Headroom\<close>

text \<open>What a device is apart from its headroom.\<close>

definition sans_headroom :: "net_device \<Rightarrow> net_device" where
  "sans_headroom d = d\<lparr>nd_needed_headroom := 0, nd_rx_headroom := 0\<rparr>"

definition same_devs :: "world \<Rightarrow> world \<Rightarrow> bool" where
  "same_devs w w' \<longleftrightarrow>
     w_bridges w' = w_bridges w \<and> w_jiffies w' = w_jiffies w \<and>
     (\<forall>d. map_option sans_headroom (w_devs w' d) = map_option sans_headroom (w_devs w d))"

lemma same_devs_refl [simp]: "same_devs w w"
  by (simp add: same_devs_def)

lemma same_devs_trans: "same_devs w w' \<Longrightarrow> same_devs w' w'' \<Longrightarrow> same_devs w w''"
  by (simp add: same_devs_def)

lemma same_devs_upd: "(\<And>d. sans_headroom (f d) = sans_headroom d) \<Longrightarrow> same_devs w (dev_upd i f w)"
  by (auto simp: same_devs_def option.map_comp o_def)

text \<open>When every port in use has a device the loop ends, and only headroom changes.\<close>

lemma update_headroom_total:
  assumes "\<And>i. ubr_vec_test (br_busy br) i \<Longrightarrow> p_dev (br_ports br i) \<noteq> None"
    and "w_devs w (br_dev br) = Some bd" "w_devs w dev = Some nd"
  shows "\<exists>w'. ubr_update_headroom br dev w = Inr w' \<and> same_devs w w'"
proof -
  define h where "h = max (nd_needed_headroom bd) (nd_fwd_headroom nd)"
  define w0 where "w0 = dev_upd (br_dev br) (\<lambda>n. n\<lparr>nd_needed_headroom := h\<rparr>) w"
  have w0: "same_devs w w0" unfolding w0_def by (rule same_devs_upd) (simp add: sans_headroom_def)
  have "\<exists>w'. foldres (\<lambda>i. set_rx_headroom h (p_dev (br_ports br i)))
      (ubr_vec_foreach (br_busy br)) w0 = Inr w' \<and> same_devs w w'"
  proof (rule foldres_invariant [where P = "same_devs w"])
    show "same_devs w w0" by (rule w0)
    fix i w1 assume i: "i \<in> set (ubr_vec_foreach (br_busy br))" and w1: "same_devs w w1"
    then obtain d where "p_dev (br_ports br i) = Some d" using assms(1) [of i] by auto
    moreover have "same_devs w1 (dev_upd d (\<lambda>n. n\<lparr>nd_rx_headroom := h\<rparr>) w1)"
      by (rule same_devs_upd) (simp add: sans_headroom_def)
    ultimately show "\<exists>w'. set_rx_headroom h (p_dev (br_ports br i)) w1 = Inr w' \<and> same_devs w w'"
      using same_devs_trans [OF w1] by (auto simp: set_rx_headroom_def)
  qed
  then show ?thesis
    using assms(2,3) by (simp add: ubr_update_headroom_def dev_at_def h_def w0_def Let_def)
qed

section \<open>The calls on the device\<close>

text \<open>The error that ends the attempt: the first of the calls that fails.\<close>

definition first_error :: "port_add_env \<Rightarrow> int" where
  "first_error P =
     (if pa_link P \<noteq> 0 then pa_link P else if pa_promisc P \<noteq> 0 then pa_promisc P
      else if pa_allmulti P \<noteq> 0 then pa_allmulti P else pa_rx P)"

definition linked :: "netdev \<Rightarrow> nat \<Rightarrow> net_device \<Rightarrow> net_device" where
  "linked b i d =
     d\<lparr>nd_master := Some b, nd_promiscuity := nd_promiscuity d + 1,
       nd_allmulti := nd_allmulti d + 1, nd_rx_handler_data := Some (b, i),
       nd_priv_flags := nd_priv_flags d OR IFF_UBR_PORT\<rparr>"

lemma dev_upd_dev_upd [simp]: "dev_upd i f (dev_upd i g w) = dev_upd i (\<lambda>d. f (g d)) w"
  by (rule world_eqI) (simp_all add: option.map_comp o_def)

lemma add_link_ok:
  "first_error P = 0 \<Longrightarrow> port_add_link P b i dev br w = (0, br_put b br (dev_upd dev (linked b i) w))"
  by (simp add: first_error_def port_add_link_def Let_def linked_def [abs_def] add_promisc_def
      add_allmulti_def split: if_splits)

text \<open>Unwinding restores the device, which had no master, and clears the slot.\<close>

lemma dev_upd_id:
  assumes "\<And>d. w_devs w i = Some d \<Longrightarrow> f d = d"
  shows "dev_upd i f w = w"
  using assms by (intro world_eqI) (auto simp: fun_eq_iff map_option_case split: option.split)

lemma add_link_failed:
  assumes "first_error P \<noteq> 0" and "\<And>d. w_devs w dev = Some d \<Longrightarrow> nd_master d = None"
  shows "port_add_link P b i dev br w = port_add_uninit b i br (first_error P) w"
proof -
  have "dev_upd dev (\<lambda>d. d\<lparr>nd_master := None\<rparr>) w = w"
    by (rule dev_upd_id) (use assms(2) in \<open>auto intro: net_device.equality\<close>)
  moreover have "dev_upd dev (\<lambda>d. d\<lparr>nd_master := None\<rparr>)
      (dev_upd dev (add_promisc (- 1)) (dev_upd dev (add_promisc 1)
        (dev_upd dev (\<lambda>d. d\<lparr>nd_master := Some b\<rparr>) w))) = w"
    by (simp add: add_promisc_def, rule dev_upd_id)
      (use assms(2) in \<open>auto intro: net_device.equality\<close>)
  ultimately show ?thesis
    using assms(1)
    by (auto simp: first_error_def port_add_link_def Let_def add_promisc_def add_allmulti_def
        split: if_splits)
qed

section \<open>The whole operation\<close>

text \<open>The bridge with a device in slot \<open>i\<close>, which is a member of VLAN 0.\<close>

definition enslaved :: "kernel \<Rightarrow> nat \<Rightarrow> netdev \<Rightarrow> ubr \<Rightarrow> ubr" where
  "enslaved K i dev br =
     (case vlan_of K br 0 of
        None \<Rightarrow> br
      | Some a \<Rightarrow>
          (case br_heap br a of
             None \<Rightarrow> br
           | Some v \<Rightarrow> take_slot i (init_port i dev (Some a) zero_port) a (add_member i False v) br))"

text \<open>What is left of an attempt that fails: the membership in VLAN 0.\<close>

definition leftover :: "kernel \<Rightarrow> nat \<Rightarrow> ubr \<Rightarrow> ubr" where
  "leftover K i br =
     (case vlan_of K br 0 of
        None \<Rightarrow> br
      | Some a \<Rightarrow>
          (case br_heap br a of
             None \<Rightarrow> br
           | Some v \<Rightarrow> vlan_write a (add_member i False v) br))"

definition free_slot :: "ubr \<Rightarrow> nat" where
  "free_slot br = find_first_zero_bit (br_busy br)"

lemma free_slot_idle:
  "free_slot br \<noteq> UBR_MAX_PORTS \<Longrightarrow>
     free_slot br < 256 \<and> \<not> ubr_vec_test (br_busy br) (free_slot br)"
  using find_first_zero_bit_found [of "br_busy br"] find_first_zero_bit_le [of "br_busy br"]
  by (simp add: free_slot_def UBR_MAX_PORTS_256)

lemma enslaved_init:
  assumes "bridge_ok K br" "free_slot br \<noteq> UBR_MAX_PORTS"
    "Port_Cleanup_Rcu (free_slot br) \<notin> set (br_rcu br)"
  shows "ubr_port_init K (free_slot br) dev br = Inr (enslaved K (free_slot br) dev br)"
    and "bridge_ok K (enslaved K (free_slot br) dev br)"
    and "br_busy (enslaved K (free_slot br) dev br) = ubr_vec_set (free_slot br) (br_busy br)"
    and "p_dev (br_ports (enslaved K (free_slot br) dev br) i) =
      (if i = free_slot br then Some dev else p_dev (br_ports br i))"
    and "br_dev (enslaved K (free_slot br) dev br) = br_dev br"
    and "port_cleanup_rcu (free_slot br)
      ((enslaved K (free_slot br) dev br)\<lparr>br_busy := br_busy br\<rparr>) = leftover K (free_slot br) br"
proof -
  let ?i = "free_slot br"
  from free_slot_idle [OF assms(2)] have i: "?i < 256" "\<not> ubr_vec_test (br_busy br) ?i" by auto
  from bridge_ok_port_init [OF assms(1) i assms(3), of dev] obtain a v where
    *: "vlan_of K br 0 = Some a" "br_heap br a = Some v"
    "ubr_port_init K ?i dev br =
       Inr (take_slot ?i (init_port ?i dev (Some a) zero_port) a (add_member ?i False v) br)"
    "bridge_ok K (take_slot ?i (init_port ?i dev (Some a) zero_port) a (add_member ?i False v) br)" .
  then have e: "enslaved K ?i dev br =
      take_slot ?i (init_port ?i dev (Some a) zero_port) a (add_member ?i False v) br"
    and l: "leftover K ?i br = vlan_write a (add_member ?i False v) br"
    by (simp_all add: enslaved_def leftover_def)
  from * e show "ubr_port_init K ?i dev br = Inr (enslaved K ?i dev br)"
    "bridge_ok K (enslaved K ?i dev br)" by simp_all
  show "br_busy (enslaved K ?i dev br) = ubr_vec_set ?i (br_busy br)"
    "p_dev (br_ports (enslaved K ?i dev br) i) =
      (if i = ?i then Some dev else p_dev (br_ports br i))"
    "br_dev (enslaved K ?i dev br) = br_dev br" by (simp_all add: e)
  have "(br_ports br)(?i := zero_port) = br_ports br"
    by (rule fun_upd_idem) (rule slots_idleD [OF bridge_okD(3) [OF assms(1)] i(2) assms(3)])
  then show "port_cleanup_rcu ?i ((enslaved K ?i dev br)\<lparr>br_busy := br_busy br\<rparr>) =
      leftover K ?i br"
    unfolding e l
    by (simp add: port_cleanup_rcu_def take_slot_def port_write_def vlan_write_def)
qed

lemma netdev_priv_found: "w_bridges w b = Some br \<Longrightarrow> netdev_priv w b = Inr br"
  by (simp add: netdev_priv_def)

lemma port_add_refused:
  assumes "w_bridges w b = Some br" "w_devs w dev = Some d"
  shows "port_add_allowed d \<noteq> 0 \<Longrightarrow> ubr_port_add K P b dev w = Inr (port_add_allowed d, w)"
    and "port_add_allowed d = 0 \<Longrightarrow> free_slot br = UBR_MAX_PORTS \<Longrightarrow>
      ubr_port_add K P b dev w = Inr (- EBUSY, w)"
  using assms by (simp_all add: ubr_port_add_def netdev_priv_found dev_at_def free_slot_def)

text \<open>
  Past the checks, the world is the old one with the bridge and the device updated, headroom
  apart.
\<close>

lemma port_add_tail:
  assumes w: "w_bridges w b = Some br" "w_devs w dev = Some d" "w_devs w b = Some bd"
    and ok: "bridge_ok K br" "br_dev br = b" and allowed: "port_add_allowed d = 0"
    and slot: "free_slot br \<noteq> UBR_MAX_PORTS"
      "Port_Cleanup_Rcu (free_slot br) \<notin> set (br_rcu br)"
  obtains w1 where "same_devs (br_put b (enslaved K (free_slot br) dev br) w) w1"
    "ubr_port_add K P b dev w =
       Inr (port_add_link P b (free_slot br) dev (enslaved K (free_slot br) dev br) w1)"
proof -
  let ?e = "enslaved K (free_slot br) dev br"
  note init = enslaved_init [OF ok(1) slot, of dev]
  have "p_dev (br_ports ?e j) \<noteq> None" if "ubr_vec_test (br_busy ?e) j" for j
    using slots_okD [OF bridge_okD(3) [OF init(2)] that] by (simp add: slot_ok_def)
  then have "\<exists>w1. ubr_update_headroom ?e dev (br_put b ?e w) = Inr w1 \<and> same_devs (br_put b ?e w) w1"
    by (rule update_headroom_total [where bd = bd and nd = d]) (use w ok(2) init(5) in simp_all)
  then obtain w1
    where w1: "ubr_update_headroom ?e dev (br_put b ?e w) = Inr w1" "same_devs (br_put b ?e w) w1"
    by blast
  then have "ubr_port_add K P b dev w = Inr (port_add_link P b (free_slot br) dev ?e w1)"
    using w allowed slot init(1)
    by (simp add: ubr_port_add_def netdev_priv_found dev_at_def free_slot_def [symmetric] Let_def)
  with w1(2) show thesis by (rule that)
qed

lemma allowed_no_master: "port_add_allowed d = 0 \<Longrightarrow> nd_master d = None"
  by (simp add: port_add_allowed_def split: if_splits)

lemma port_add_done:
  assumes w: "w_bridges w b = Some br" "w_devs w dev = Some d" "w_devs w b = Some bd"
    and ok: "bridge_ok K br" "br_dev br = b" and allowed: "port_add_allowed d = 0"
    and slot: "free_slot br \<noteq> UBR_MAX_PORTS"
      "Port_Cleanup_Rcu (free_slot br) \<notin> set (br_rcu br)"
  shows "\<exists>w'. ubr_port_add K P b dev w = Inr (first_error P, w') \<and>
    (if first_error P = 0
     then same_devs (br_put b (enslaved K (free_slot br) dev br)
            (dev_upd dev (linked b (free_slot br)) w)) w'
     else same_devs (br_put b (leftover K (free_slot br) br) w) w')"
proof -
  let ?e = "enslaved K (free_slot br) dev br"
  note init = enslaved_init [OF ok(1) slot, of dev]
  obtain w1 where w1: "same_devs (br_put b ?e w) w1"
    and add: "ubr_port_add K P b dev w = Inr (port_add_link P b (free_slot br) dev ?e w1)"
    by (rule port_add_tail [OF w ok allowed slot])
  show ?thesis
  proof (cases "first_error P = 0")
    case True
    have "map_option sans_headroom (map_option (linked b i) x) =
        map_option (linked b i) (map_option sans_headroom x)" for i x
      by (cases x) (simp_all add: sans_headroom_def linked_def)
    then have "same_devs (br_put b ?e (dev_upd dev (linked b (free_slot br)) w))
        (br_put b ?e (dev_upd dev (linked b (free_slot br)) w1))"
      using w1 by (simp add: same_devs_def)
    with True add show ?thesis by (simp add: add_link_ok)
  next
    case False
    have "nd_master x = None" if "w_devs w1 dev = Some x" for x
    proof -
      from w1 that w(2) have "sans_headroom x = sans_headroom d"
        by (auto simp: same_devs_def split: if_splits dest!: spec [of _ dev])
      then have "nd_master (sans_headroom x) = nd_master (sans_headroom d)" by simp
      then show ?thesis using allowed_no_master [OF allowed] by (simp add: sans_headroom_def)
    qed
    note failed = add_link_failed [OF False this, where b = b and i = "free_slot br" and br = ?e]
    have "ubr_vec_clear (free_slot br) (br_busy ?e) = br_busy br"
      using pv.set_then_clear free_slot_idle [OF slot(1)] init(3) by simp
    with init(6) have "port_add_uninit b (free_slot br) ?e (first_error P) w1 =
        (first_error P, br_put b (leftover K (free_slot br) br) w1)"
      by (simp add: port_add_uninit_def)
    moreover have "same_devs (br_put b (leftover K (free_slot br) br) w)
        (br_put b (leftover K (free_slot br) br) w1)"
      using w1 by (auto simp: same_devs_def)
    ultimately show ?thesis using False add failed by simp
  qed
qed

text \<open>Reading a device off a world that is the same but for headroom.\<close>

lemma same_devs_dev:
  "same_devs w w' \<Longrightarrow> w_devs w d = Some nd \<Longrightarrow>
     \<exists>nd'. w_devs w' d = Some nd' \<and> sans_headroom nd' = sans_headroom nd"
  by (cases "w_devs w' d") (auto simp: same_devs_def dest!: spec [of _ d])

lemma linked_sans:
  assumes "sans_headroom d' = sans_headroom (linked b i d)"
  shows "nd_rx_handler_data d' = Some (b, i)" "nd_master d' = Some b" "netif_is_ubr_port d'"
proof -
  have "nd_rx_handler_data (sans_headroom d') = Some (b, i)"
    "nd_master (sans_headroom d') = Some b"
    "nd_priv_flags (sans_headroom d') = nd_priv_flags d OR IFF_UBR_PORT"
    unfolding assms by (simp_all add: sans_headroom_def linked_def)
  then have "nd_rx_handler_data d' = Some (b, i)" "nd_master d' = Some b"
    and f: "nd_priv_flags d' = nd_priv_flags d OR IFF_UBR_PORT"
    by (simp_all add: sans_headroom_def)
  moreover have "bit (nd_priv_flags d' AND IFF_UBR_PORT) 31"
    by (simp add: f IFF_UBR_PORT_def bit_and_iff bit_or_iff bit_push_bit_iff possible_bit_word)
  then have "nd_priv_flags d' AND IFF_UBR_PORT \<noteq> 0" by (metis bit_0_eq bot_apply bot_bool_def)
  ultimately show "nd_rx_handler_data d' = Some (b, i)" "nd_master d' = Some b"
    "netif_is_ubr_port d'" by (simp_all add: netif_is_ubr_port_def)
qed

section \<open>Releasing\<close>

text \<open>Detaching: the slot's bit is cleared, its clearing is queued, the VLANs keep the port.\<close>

definition released :: "nat \<Rightarrow> ubr \<Rightarrow> ubr" where
  "released i br = br\<lparr>br_busy := ubr_vec_clear i (br_busy br),
     br_rcu := br_rcu br @ [Port_Cleanup_Rcu i]\<rparr>"

lemma port_cleanup_eq:
  assumes "slot_ok x (br_ports br x)"
  shows "ubr_port_cleanup x br = Inr (released x br)"
  using assms by (simp add: released_def ubr_port_cleanup_def ubr_from_port_def slot_ok_def Let_def)

definition unlinked :: "netdev \<Rightarrow> net_device \<Rightarrow> net_device" where
  "unlinked b d =
     d\<lparr>nd_priv_flags := nd_priv_flags d AND NOT IFF_UBR_PORT, nd_rx_handler_data := None,
       nd_allmulti := nd_allmulti d - 1, nd_promiscuity := nd_promiscuity d - 1,
       nd_master := (if nd_master d = Some b then None else nd_master d)\<rparr>"

lemma port_del_eq:
  assumes "w_devs w dev = Some d" "nd_rx_handler_data d = Some (p, x)" "w_bridges w p = Some br"
    and "slot_ok x (br_ports br x)" "w_bridges w b \<noteq> None"
  shows "ubr_port_del b dev w = Inr (0, br_put p (released x br) (dev_upd dev (unlinked b) w))"
  using assms
  by (auto simp: ubr_port_del_def netdev_priv_def dev_at_def port_cleanup_eq unlinked_def [abs_def]
      Let_def)

text \<open>No VLAN of the table has the slot as a member: then it can be given back.\<close>

definition no_member :: "kernel \<Rightarrow> ubr \<Rightarrow> nat \<Rightarrow> bool" where
  "no_member K br i \<longleftrightarrow> (\<forall>vid a v. vlan_of K br vid = Some a \<and> br_heap br a = Some v \<longrightarrow>
     \<not> ubr_vec_test (vl_members v) i)"

lemma bridge_ok_released:
  assumes ok: "bridge_ok K br" and none: "no_member K br i"
  shows "bridge_ok K (released i br)"
proof -
  let ?r = "released i br"
  have eq: "vlan_table_ok K ?r = vlan_table_ok K br" "vlan_of K ?r = vlan_of K br"
    by (rule vlan_table_cong; simp add: released_def)+
  have "slots_ok ?r"
    using bridge_okD(3) [OF ok] by (auto simp: slots_ok_def released_def vec_simps split: if_splits)
  moreover have "pvid_ok K ?r"
    using bridge_okD(4) [OF ok] by (auto simp: pvid_ok_def port_vlan_ok_def eq) (auto simp: released_def vec_simps)
  moreover have "vlan_members_ok (br_busy ?r) v" if "vlan_of K br vid = Some a" "br_heap br a = Some v"
    for vid a v
    using members_okD [OF bridge_okD(5) [OF ok] that] none that
    by (auto simp: vlan_members_ok_def no_member_def released_def vec_simps)
  then have "members_ok K ?r" by (auto simp: members_ok_def eq) (auto simp: released_def)
  ultimately show ?thesis
    using bridge_okD(1,2,6) [OF ok] by (simp add: bridge_ok_def eq) (simp add: released_def)
qed

text \<open>The end of the grace period: the slot is cleared.\<close>

lemma bridge_ok_cleanup:
  assumes ok: "bridge_ok K br" and cb: "br_rcu br = Port_Cleanup_Rcu i # cbs"
    and idle: "\<not> ubr_vec_test (br_busy br) i"
  shows "bridge_ok K (port_cleanup_rcu i (br\<lparr>br_rcu := cbs\<rparr>))"
proof -
  let ?c = "port_cleanup_rcu i (br\<lparr>br_rcu := cbs\<rparr>)"
  have eq: "vlan_table_ok K ?c = vlan_table_ok K br" "vlan_of K ?c = vlan_of K br"
    by (rule vlan_table_cong; simp add: port_cleanup_rcu_def port_write_def)+
  have "slots_ok ?c"
    using bridge_okD(3) [OF ok] cb idle
    by (auto simp: slots_ok_def port_cleanup_rcu_def port_write_def split: if_splits)
  moreover have "pvid_ok K ?c"
    using bridge_okD(4) [OF ok] idle
    by (auto simp: pvid_ok_def port_vlan_ok_def eq) (auto simp: port_cleanup_rcu_def port_write_def split: if_splits)
  moreover have "members_ok K ?c"
    using bridge_okD(5) [OF ok] by (simp add: members_ok_def eq) (simp add: port_cleanup_rcu_def port_write_def)
  ultimately show ?thesis
    using bridge_okD(1,2,6) [OF ok]
    by (simp add: bridge_ok_def eq) (simp add: port_cleanup_rcu_def port_write_def)
qed

text \<open>Linking and unlinking a device that had no master and no handler undo each other.\<close>

lemma unlinked_linked:
  assumes "nd_master d = None" "nd_rx_handler_data d = None" "nd_priv_flags d AND IFF_UBR_PORT = 0"
  shows "unlinked b (linked b i d) = d"
proof -
  have "(nd_priv_flags d OR IFF_UBR_PORT) AND NOT IFF_UBR_PORT = nd_priv_flags d"
  proof (rule bit_word_eqI)
    fix n
    have "bit (nd_priv_flags d AND IFF_UBR_PORT) n = bit (0 :: u32) n" using assms(3) by simp
    then show "bit ((nd_priv_flags d OR IFF_UBR_PORT) AND NOT IFF_UBR_PORT) n =
        bit (nd_priv_flags d) n" if "n < LENGTH(32)"
      using that by (auto simp: bit_and_iff bit_or_iff bit_not_iff possible_bit_word)
  qed
  then show ?thesis using assms(1,2) by (simp add: unlinked_def linked_def)
qed

lemma allowed_sans: "port_add_allowed (sans_headroom d) = port_add_allowed d"
  by (simp add: port_add_allowed_def sans_headroom_def)

lemma sans_swap:
  "sans_headroom (unlinked b d) = unlinked b (sans_headroom d)"
  "sans_headroom (linked b i d) = linked b i (sans_headroom d)"
  by (simp_all add: unlinked_def linked_def sans_headroom_def)

end
