(* ===== verification/Ubr_Switch.thy ===== *)
theory Ubr_Switch
  imports Ubr_Dev
begin

text \<open>
  Frames through a bridge that satisfies its invariant: what the receive handler of a port
  (kernel/ubr-port.c) makes of a frame, as a composition of the stages' lemmas. The
  development's properties of forwarding rest on this theory.
\<close>

section \<open>Entering at a port\<close>

definition enter_port :: "ubr \<Rightarrow> nat \<Rightarrow> sk_buff \<Rightarrow> sk_buff" where
  "enter_port br i s = s\<lparr>skb_cb := p_ingress_cb (br_ports br i)\<rparr>"

lemma enter_port_simps [simp]:
  "skb_cb (enter_port br i s) = p_ingress_cb (br_ports br i)"
  "skb_h_dest (enter_port br i s) = skb_h_dest s"
  "skb_h_source (enter_port br i s) = skb_h_source s"
  by (simp_all add: enter_port_def)

lemma port_cb:
  assumes "bridge_ok K br" "ubr_vec_test (br_busy br) i"
  shows "unat (cb_pidx (p_ingress_cb (br_ports br i))) = i"
    "cb_vec (p_ingress_cb (br_ports br i)) = ubr_vec_clear i ubr_vec_fill"
    "\<not> cb_ctrl (p_ingress_cb (br_ports br i))" "cb_sa_learning (p_ingress_cb (br_ports br i))"
    "p_dev (br_ports br i) \<noteq> None"
    "cb_vlan (p_ingress_cb (br_ports br i)) = vlan_of K br (p_pvid (br_ports br i))"
    "cb_vlan_filtering (p_ingress_cb (br_ports br i)) \<longleftrightarrow> p_pvid (br_ports br i) \<noteq> 0"
  using slots_okD [OF bridge_okD(3) [OF assms(1)] assms(2)]
    port_vlan_okD [OF bridge_okD(4) [OF assms(1)] assms(2)]
  by (simp_all add: slot_ok_def port_vlan_ok_def)

lemma rx_handler_eq:
  assumes "bridge_ok K br" "ubr_vec_test (br_busy br) i"
  shows "ubr_port_rx_handler K E i br s =
    andthen (ubr_forward K E br (enter_port br i s))
      (\<lambda>(r, br', s', ts). Inr (if r then RX_HANDLER_ANOTHER else RX_HANDLER_CONSUMED, br', s', ts))"
  by (simp add: ubr_port_rx_handler_def from_port_ok [OF assms] enter_port_def)

text \<open>A frame that is processed without a fault is consumed, in these stages.\<close>

lemma rx_InrD:
  assumes K: "helpers_ok K" and ok: "bridge_ok K br" and i: "ubr_vec_test (br_busy br) i"
    and r: "ubr_port_rx_handler K E i br s = Inr (r, br', s', ts)"
  obtains allow s0 a v where "ubr_vlan_ingress K br (enter_port br i s) = Inr (allow, Some s0)"
    "cb_vlan (skb_cb s0) = Some a" "br_heap br a = Some v" "r = RX_HANDLER_CONSUMED"
    "br' = br\<lparr>br_fdb := fdb_after E v s0 (br_fdb br)\<rparr>"
    "s' = narrow (fdb_filter K E v s0 (br_fdb br')) s0"
    "if allow then ubr_deliver K E br' s' = Inr ts else ts = [KfreeSkb s']"
proof -
  from r obtain b where f: "ubr_forward K E br (enter_port br i s) = Inr (b, br', s', ts)"
    and b: "r = (if b then RX_HANDLER_ANOTHER else RX_HANDLER_CONSUMED)"
    by (auto simp: rx_handler_eq [OF ok i] res_simps)
  have "\<not> cb_ctrl (skb_cb (enter_port br i s))" using port_cb(3) [OF ok i] by simp
  from K this f show thesis
    by (rule forward_InrD) (rule that, use b in auto)
qed

text \<open>The frame's VLAN is one the table finds, and it lives.\<close>

lemma ingress_vlan_found:
  assumes K: "helpers_ok K" and a: "ingress_vlan K br s = Some a"
  shows "cb_vlan (skb_cb s) = Some a \<or> (\<exists>vid. vlan_of K br vid = Some a)"
proof (cases "cb_vlan_filtering (skb_cb s)")
  case False
  with a show ?thesis by (simp add: ingress_vlan_def)
next
  case True
  with a obtain s1 s2 vid where 1: "ingress_untag K br s = Inr (Some s1)"
    and 2: "ingress_classify K br s1 = Some (s2, vid)" and 3: "frame_vlan K br s2 vid = Some a"
    by (auto simp: ingress_vlan_def split: sum.splits option.splits prod.splits)
  have "keeps_frame s s2"
    using untag_Some [OF K 1] classify_Some(1) [OF K 2] by (rule keeps_frame_trans)
  with 3 show ?thesis by (auto simp: frame_vlan_def keeps_frame_def split: if_splits)
qed

lemma ingress_vlan_live:
  assumes K: "helpers_ok K" and ok: "bridge_ok K br" and i: "ubr_vec_test (br_busy br) i"
    and a: "ingress_vlan K br (enter_port br i s) = Some a"
  obtains v where "br_heap br a = Some v" "vlan_of K br (vl_vid v) = Some a"
    "vlan_members_ok (br_busy br) v"
proof -
  obtain vid where vid: "vlan_of K br vid = Some a"
    using ingress_vlan_found [OF K a] port_cb(6) [OF ok i] by auto
  obtain v where v: "br_heap br a = Some v" "vl_vid v = vid"
    using vlan_of_SomeD(1) [OF bridge_okD(1) [OF ok] vid] by blast
  with vid members_okD [OF bridge_okD(5) [OF ok] vid v(1)] show thesis
    by (intro that [of v]) simp_all
qed

section \<open>When the handler faults\<close>

text \<open>
  The pipeline reads the frame's VLAN whatever the stages before decided, so a frame without
  one is a fault, and it is the only one.
\<close>

lemma forward_lost:
  assumes K: "helpers_ok K" and ok: "vlan_table_ok K br"
    and filt: "cb_vlan_filtering (skb_cb s)" and none: "ingress_vlan K br s = None"
    and ctrl: "\<not> cb_ctrl (skb_cb s)"
  shows "\<exists>e. ubr_forward K E br s = Inl e"
  using ingress_lost [OF K ok filt none]
proof (elim disjE exE conjE)
  fix s0
  assume "ubr_vlan_ingress K br s = Inr (False, Some s0)" "cb_vlan (skb_cb s0) = None"
    "cb_ctrl (skb_cb s0) = cb_ctrl (skb_cb s)"
  with ctrl show ?thesis by (simp add: forward_eq fdb_forward_null)
qed (auto intro: forward_fault forward_freed)

lemma member_devs:
  assumes "bridge_ok K br" "vlan_members_ok (br_busy br) v" "ubr_vec_test (vl_members v) j"
  shows "ubr_vec_test (br_busy br) j" "p_dev (br_ports br j) \<noteq> None"
  using assms(2,3) port_cb(5) [OF assms(1)] by (auto simp: vlan_members_ok_def)

lemma forward_known:
  assumes K: "helpers_ok K" "protocol_ok K" and ok: "bridge_ok K br"
    and i: "ubr_vec_test (br_busy br) i"
    and a: "ingress_vlan K br (enter_port br i s) = Some a"
  shows "no_fault (ubr_forward K E br (enter_port br i s))"
proof -
  obtain v where v: "br_heap br a = Some v" and mem: "vlan_members_ok (br_busy br) v"
    using K(1) ok i a by (rule ingress_vlan_live)
  obtain allow s0 where ing: "ubr_vlan_ingress K br (enter_port br i s) = Inr (allow, Some s0)"
    and s0: "cb_vlan (skb_cb s0) = Some a" "\<not> cb_ctrl (skb_cb s0)"
    and vec: "allow \<Longrightarrow> cb_vec (skb_cb s0) =
      ubr_vec_and (cb_vec (p_ingress_cb (br_ports br i))) (vl_members v)"
    by (rule ingress_known [OF K(1) bridge_okD(1) [OF ok] a v])
      (use port_cb(3) [OF ok i] in auto)
  define f where "f = fdb_after E v s0 (br_fdb br)"
  define s1 where "s1 = narrow (fdb_filter K E v s0 f) s0"
  have fwd: "ubr_fdb_forward K E br s0 = Inr (True, br\<lparr>br_fdb := f\<rparr>, s1)"
    by (simp add: fdb_forward_eq [OF s0(1) v] f_def s1_def)
  have "\<exists>ts. ubr_deliver K E (br\<lparr>br_fdb := f\<rparr>) s1 = Inr ts" if allow
  proof (rule deliver_no_fault [OF K, of _ a _ v])
    fix j assume "ubr_vec_test (cb_vec (skb_cb s1)) j"
    then have "ubr_vec_test (vl_members v) j"
      by (simp add: s1_def vec [OF that] vec_simps)
    from member_devs(2) [OF ok mem this]
    show "p_dev (br_ports (br\<lparr>br_fdb := f\<rparr>) j) \<noteq> None" by simp
  qed (simp_all add: s1_def s0 v)
  then show ?thesis
    by (auto simp: forward_eq [OF ing s0(2)] fwd)
qed

lemma rx_no_fault:
  assumes K: "helpers_ok K" "protocol_ok K" and ok: "bridge_ok K br"
    and i: "ubr_vec_test (br_busy br) i"
  shows "no_fault (ubr_port_rx_handler K E i br s) \<longleftrightarrow> ingress_vlan K br (enter_port br i s) \<noteq> None"
proof (cases "ingress_vlan K br (enter_port br i s)")
  case (Some a)
  from forward_known [OF K ok i this] obtain x
    where "ubr_forward K E br (enter_port br i s) = Inr x"
    unfolding no_fault_iff by blast
  with Some show ?thesis by (cases x) (simp add: rx_handler_eq [OF ok i])
next
  case None
  have filt: "cb_vlan_filtering (skb_cb (enter_port br i s))"
    using None port_cb(6,7) [OF ok i] bridge_okD(2) [OF ok]
    by (auto simp: ingress_vlan_def split: if_splits)
  have "\<exists>e. ubr_forward K E br (enter_port br i s) = Inl e"
    using port_cb(3) [OF ok i]
    by (intro forward_lost [OF K(1) bridge_okD(1) [OF ok] filt None]) simp
  with None show ?thesis by (auto simp: rx_handler_eq [OF ok i])
qed

section \<open>What the handler makes of a frame\<close>

text \<open>
  A frame that passes without a fault has a live VLAN of the table, and what leaves goes
  to other members of it that the FDB's answer names.
\<close>

lemma rx_vlan_known:
  assumes K: "helpers_ok K" and ok: "bridge_ok K br" and i: "ubr_vec_test (br_busy br) i"
    and r: "ubr_port_rx_handler K E i br s = Inr x"
  shows "ingress_vlan K br (enter_port br i s) \<noteq> None"
proof
  assume none: "ingress_vlan K br (enter_port br i s) = None"
  then have filt: "cb_vlan_filtering (skb_cb (enter_port br i s))"
    using port_cb(6,7) [OF ok i] bridge_okD(2) [OF ok]
    by (auto simp: ingress_vlan_def split: if_splits)
  have "\<exists>e. ubr_forward K E br (enter_port br i s) = Inl e"
    using port_cb(3) [OF ok i]
    by (intro forward_lost [OF K bridge_okD(1) [OF ok] filt none]) simp
  with r show False by (auto simp: rx_handler_eq [OF ok i])
qed

lemma rx_stages:
  assumes K: "helpers_ok K" and ok: "bridge_ok K br" and i: "ubr_vec_test (br_busy br) i"
    and r: "ubr_port_rx_handler K E i br s = Inr (r, br', s', ts)"
  obtains allow s0 a v where "ubr_vlan_ingress K br (enter_port br i s) = Inr (allow, Some s0)"
    "ingress_vlan K br (enter_port br i s) = Some a" "cb_vlan (skb_cb s0) = Some a"
    "br_heap br a = Some v" "vlan_of K br (vl_vid v) = Some a" "vlan_members_ok (br_busy br) v"
    "allow \<longleftrightarrow> p_pvid (br_ports br i) = 0 \<or> ubr_vec_test (vl_members v) i"
    "allow \<Longrightarrow> cb_vec (skb_cb s0) = ubr_vec_and (ubr_vec_clear i ubr_vec_fill) (vl_members v)"
    "cb_sa_learning (skb_cb s0)" "unat (cb_pidx (skb_cb s0)) = i"
    "skb_h_dest s0 = skb_h_dest s" "skb_h_source s0 = skb_h_source s"
    "cb_vlan_filtering (skb_cb s0) \<longleftrightarrow> p_pvid (br_ports br i) \<noteq> 0"
    "br' = br\<lparr>br_fdb := fdb_after E v s0 (br_fdb br)\<rparr>"
    "s' = narrow (fdb_filter K E v s0 (br_fdb br')) s0"
    "if allow then ubr_deliver K E br' s' = Inr ts else ts = [KfreeSkb s']"
proof -
  obtain a where a: "ingress_vlan K br (enter_port br i s) = Some a"
    using rx_vlan_known [OF K ok i r] by auto
  obtain v where v: "br_heap br a = Some v" "vlan_of K br (vl_vid v) = Some a"
    "vlan_members_ok (br_busy br) v"
    using K ok i a by (rule ingress_vlan_live)
  obtain allow s0 a' v' where ing: "ubr_vlan_ingress K br (enter_port br i s) = Inr (allow, Some s0)"
    and a': "cb_vlan (skb_cb s0) = Some a'" "br_heap br a' = Some v'"
    and br': "br' = br\<lparr>br_fdb := fdb_after E v' s0 (br_fdb br)\<rparr>"
    and rest: "s' = narrow (fdb_filter K E v' s0 (br_fdb br')) s0"
      "if allow then ubr_deliver K E br' s' = Inr ts else ts = [KfreeSkb s']"
    using K ok i r by (rule rx_InrD)
  have known: "cb_vlan (skb_cb s0) = Some a \<and>
      (allow \<longleftrightarrow> (p_pvid (br_ports br i) \<noteq> 0 \<longrightarrow> ubr_vec_test (vl_members v) i)) \<and>
      (allow \<longrightarrow> cb_vec (skb_cb s0) = ubr_vec_and (ubr_vec_clear i ubr_vec_fill) (vl_members v))"
    by (rule ingress_known [OF K bridge_okD(1) [OF ok] a v(1)])
      (use ing port_cb [OF ok i] in auto)
  then have same: "a' = a" "v' = v" using a' v(1) by auto
  have "same_but_vlan (enter_port br i s) s0" by (rule ingress_same [OF K ing])
  then have cb: "cb_sa_learning (skb_cb s0)" "unat (cb_pidx (skb_cb s0)) = i"
    "skb_h_dest s0 = skb_h_dest s" "skb_h_source s0 = skb_h_source s"
    "cb_vlan_filtering (skb_cb s0) \<longleftrightarrow> p_pvid (br_ports br i) \<noteq> 0"
    using port_cb [OF ok i] by (auto simp: same_but_vlan_def)
  show thesis
    by (rule that [OF ing a _ v _ _ cb br' [unfolded same]]) (use known rest same in auto)
qed

text \<open>Bridges that differ in their forwarding database have the same ports and VLANs.\<close>

lemma deliver_to_fdb: "deliver_to K E (br\<lparr>br_fdb := f\<rparr>) = deliver_to K E br"
  by (simp add: deliver_to_def ubr_deliver_up_def ubr_deliver_down_def ubr_common_egress_def
      egress_tag_def fun_eq_iff cong del: if_weak_cong)

lemma rx_delivered:
  assumes K: "helpers_ok K" and ok: "bridge_ok K br" and i: "ubr_vec_test (br_busy br) i"
    and r: "ubr_port_rx_handler K E i br s = Inr (r, br', s', ts)"
    and t: "t \<in> set ts" "tx_dev t \<noteq> None"
  obtains j a v where "ingress_vlan K br (enter_port br i s) = Some a"
    "br_heap br a = Some v" "vlan_of K br (vl_vid v) = Some a"
    "p_pvid (br_ports br i) = 0 \<or> ubr_vec_test (vl_members v) i"
    "j \<noteq> i" "ubr_vec_test (vl_members v) j" "ubr_vec_test (br_busy br) j"
    "ubr_vec_test (fdb_filter K E v s' (br_fdb br')) j"
    "deliver_to K E br s' j = Inr t" "cb_vlan (skb_cb s') = Some a"
    "tx_dev t = port_netdev br j"
    "cb_vlan_filtering (skb_cb s') \<longleftrightarrow> p_pvid (br_ports br i) \<noteq> 0"
proof -
  obtain allow s0 a v where a: "ingress_vlan K br (enter_port br i s) = Some a"
    "cb_vlan (skb_cb s0) = Some a"
    and v: "br_heap br a = Some v" "vlan_of K br (vl_vid v) = Some a"
      "vlan_members_ok (br_busy br) v"
    and allow: "allow \<longleftrightarrow> p_pvid (br_ports br i) = 0 \<or> ubr_vec_test (vl_members v) i"
    and vec: "allow \<Longrightarrow> cb_vec (skb_cb s0) =
      ubr_vec_and (ubr_vec_clear i ubr_vec_fill) (vl_members v)"
    and filt: "cb_vlan_filtering (skb_cb s0) \<longleftrightarrow> p_pvid (br_ports br i) \<noteq> 0"
    and br': "br' = br\<lparr>br_fdb := fdb_after E v s0 (br_fdb br)\<rparr>"
    and s': "s' = narrow (fdb_filter K E v s0 (br_fdb br')) s0"
    and d: "if allow then ubr_deliver K E br' s' = Inr ts else ts = [KfreeSkb s']"
    by (rule rx_stages [OF K ok i r]) (rule that; assumption)
  have allow using d t by (auto split: if_splits)
  with d have "ubr_deliver K E br' s' = Inr ts" by simp
  from deliver_source [OF this t] obtain j where j: "ubr_vec_test (cb_vec (skb_cb s')) j"
    and to: "deliver_to K E br' s' j = Inr t" by blast
  from j have mem: "j \<noteq> i" "ubr_vec_test (vl_members v) j"
    "ubr_vec_test (fdb_filter K E v s0 (br_fdb br')) j"
    by (auto simp: s' vec [OF \<open>allow\<close>] vec_simps)
  have flt: "fdb_filter K E v s' = fdb_filter K E v s0" by (simp add: s')
  have dev: "tx_dev t = port_netdev br j"
    using deliver_to_dev(1) [OF K to] by (simp add: br')
  show thesis
    by (rule that [OF a(1) v(1,2)])
      (use allow \<open>allow\<close> mem to dev filt member_devs(1) [OF ok v(3) mem(2)] a(2) flt
        in \<open>auto simp: br' deliver_to_fdb s'\<close>)
qed

section \<open>Learning and answering\<close>

lemma fdb_after_other:
  "k \<noteq> src_key (vl_vid v) s \<Longrightarrow> f_nodes (fdb_after E v s fdb) k = f_nodes fdb k"
  using fdb_learn_cases [of E v s fdb] learn_key_other by (auto simp: fdb_after_def)

lemma fdb_after_timeout [simp]: "f_ageing_timeout (fdb_after E v s fdb) = f_ageing_timeout fdb"
  by (simp add: fdb_after_def)

text \<open>A station that is heard is in the table, on the port it was heard on and no other.\<close>

lemma fdb_after_learned:
  assumes "fdb_ok fdb" "cb_sa_learning (skb_cb s)" "vl_sa_learning v"
    and "fe_node_alloc E" "fe_insert_err E = 0" "is_valid_ether_addr (skb_h_source s)"
    and "\<And>n. f_nodes fdb (src_key (vl_vid v) s) = Some n \<Longrightarrow> n_proto n = UBR_FDB_DYNAMIC"
  obtains n where "f_nodes (fdb_after E v s fdb) (src_key (vl_vid v) s) = Some n"
    "n_proto n = UBR_FDB_DYNAMIC" "n_tstamp n = fe_jiffies E"
    "n_vec n = ubr_vec_set (unat (cb_pidx (skb_cb s))) ubr_vec_zero"
proof -
  from learn_key_exact [OF assms(1) pidx_bound assms(7), where j = "fe_jiffies E"] obtain n
    where "f_nodes (learn_key (fe_jiffies E) (src_key (vl_vid v) s)
             (unat (cb_pidx (skb_cb s))) fdb) (src_key (vl_vid v) s) = Some n"
      "n_proto n = UBR_FDB_DYNAMIC" "n_tstamp n = fe_jiffies E"
      "n_vec n = ubr_vec_set (unat (cb_pidx (skb_cb s))) ubr_vec_zero"
    by blast
  then show thesis
    using assms(2,3) that by (simp add: fdb_after_def fdb_learn_eq [OF assms(4-6)])
qed

lemma dst_key_unicast:
  "is_valid_ether_addr (skb_h_dest s) \<Longrightarrow>
     dst_key K vid s = \<lparr>a_addr = UBR_ADDR_MAC (skb_h_dest s), a_vid = vid\<rparr>"
  by (simp add: dst_key_def valid_not_multicast)

lemma fdb_filter_station:
  assumes "f_nodes fdb (dst_key K (vl_vid v) s) = Some n" "\<not> ubr_fdb_node_is_old (fe_jiffies E) fdb n"
  shows "fdb_filter K E v s fdb = n_vec n"
  using assms by (simp add: fdb_filter_def)

text \<open>A dynamic node heard within the timeout is not old.\<close>

lemma node_fresh:
  assumes "n_proto n = UBR_FDB_DYNAMIC" "unat (f_ageing_timeout fdb) < 2 ^ 63"
    and "unat (j - n_tstamp n) \<le> unat (f_ageing_timeout fdb)"
  shows "\<not> ubr_fdb_node_is_old j fdb n"
  using node_old_iff [OF assms(1) _ assms(2), of j] assms(2,3) by linarith

text \<open>
  The frames delivered for a station heard on another port go to that port only. The first
  frame may have been refused: the table learns from it all the same.
\<close>

definition heard :: "u64 \<Rightarrow> mac \<Rightarrow> u16 \<Rightarrow> nat \<Rightarrow> ubr_fdb \<Rightarrow> bool" where
  "heard j m vid i fdb \<longleftrightarrow>
     (\<exists>n. f_nodes fdb \<lparr>a_addr = UBR_ADDR_MAC m, a_vid = vid\<rparr> = Some n \<and>
          n_proto n = UBR_FDB_DYNAMIC \<and> n_tstamp n = j \<and> n_vec n = ubr_vec_set i ubr_vec_zero)"

lemma rx_hears:
  assumes K: "helpers_ok K" and ok: "bridge_ok K br" and i: "ubr_vec_test (br_busy br) i"
    and r: "ubr_port_rx_handler K E i br s = Inr (r, br', s', ts)"
    and a: "cb_vlan (skb_cb s') = Some a" "br_heap br a = Some v" "vl_sa_learning v"
    and mem: "fe_node_alloc E" "fe_insert_err E = 0" and src: "is_valid_ether_addr (skb_h_source s)"
    and dyn: "\<And>n. f_nodes (br_fdb br) (src_key (vl_vid v) s) = Some n \<Longrightarrow>
        n_proto n = UBR_FDB_DYNAMIC"
  shows "heard (fe_jiffies E) (skb_h_source s) (vl_vid v) i (br_fdb br')"
proof -
  obtain s0 a' v' where "cb_vlan (skb_cb s0) = Some a'" "br_heap br a' = Some v'"
    and s0: "cb_sa_learning (skb_cb s0)" "unat (cb_pidx (skb_cb s0)) = i"
      "skb_h_source s0 = skb_h_source s"
    and br': "br' = br\<lparr>br_fdb := fdb_after E v' s0 (br_fdb br)\<rparr>"
    and "s' = narrow (fdb_filter K E v' s0 (br_fdb br')) s0"
    by (rule rx_stages [OF K ok i r]) (rule that; assumption)
  then have v: "v' = v" using a by simp
  have key: "src_key (vl_vid v) s0 = src_key (vl_vid v) s" by (simp add: src_key_def s0)
  obtain n where "f_nodes (fdb_after E v s0 (br_fdb br)) (src_key (vl_vid v) s0) = Some n"
    "n_proto n = UBR_FDB_DYNAMIC" "n_tstamp n = fe_jiffies E"
    "n_vec n = ubr_vec_set (unat (cb_pidx (skb_cb s0))) ubr_vec_zero"
    by (rule fdb_after_learned [OF bridge_okD(6) [OF ok] s0(1) a(3) mem])
      (use src dyn s0 key in auto)
  then show ?thesis
    unfolding heard_def br' v by (auto simp: key s0 src_key_def)
qed

lemma heard_filter:
  assumes h: "heard j m (vl_vid v) i fdb" and m: "is_valid_ether_addr m" "skb_h_dest s = m"
    and t: "unat (f_ageing_timeout fdb) < 2 ^ 63"
      "unat (fe_jiffies E - j) \<le> unat (f_ageing_timeout fdb)"
  shows "fdb_filter K E v s fdb = ubr_vec_set i ubr_vec_zero"
proof -
  from h obtain n where n: "f_nodes fdb \<lparr>a_addr = UBR_ADDR_MAC m, a_vid = vl_vid v\<rparr> = Some n"
    "n_proto n = UBR_FDB_DYNAMIC" "n_tstamp n = j" "n_vec n = ubr_vec_set i ubr_vec_zero"
    unfolding heard_def by blast
  have "\<not> ubr_fdb_node_is_old (fe_jiffies E) fdb n"
    using node_fresh [OF n(2) t(1)] t(2) n(3) by simp
  with fdb_filter_station [of fdb K v s n E] n m show ?thesis
    by (simp add: dst_key_unicast)
qed

lemma heard_stays:
  assumes "heard j m vid i fdb" "skb_h_source s \<noteq> m"
  shows "heard j m vid i (fdb_after E v s fdb)"
proof -
  have "\<lparr>a_addr = UBR_ADDR_MAC m, a_vid = vid\<rparr> \<noteq> src_key (vl_vid v) s"
    using assms(2) by (simp add: src_key_def)
  with assms(1) show ?thesis by (simp add: heard_def fdb_after_other)
qed

lemma rx_heard_filter:
  assumes K: "helpers_ok K" and ok: "bridge_ok K br" and k: "ubr_vec_test (br_busy br) k"
    and r: "ubr_port_rx_handler K E k br s = Inr (r, br', s', ts)"
    and a: "cb_vlan (skb_cb s') = Some a" "br_heap br a = Some v"
    and h: "heard j (skb_h_dest s) (vl_vid v) i (br_fdb br)"
    and m: "is_valid_ether_addr (skb_h_dest s)" "skb_h_source s \<noteq> skb_h_dest s"
    and time: "unat (f_ageing_timeout (br_fdb br)) < 2 ^ 63"
      "unat (fe_jiffies E - j) \<le> unat (f_ageing_timeout (br_fdb br))"
  shows "fdb_filter K E v s' (br_fdb br') = ubr_vec_set i ubr_vec_zero"
proof -
  obtain s0 a' v' where a': "cb_vlan (skb_cb s0) = Some a'" "br_heap br a' = Some v'"
    and s0: "skb_h_dest s0 = skb_h_dest s" "skb_h_source s0 = skb_h_source s"
    and br': "br' = br\<lparr>br_fdb := fdb_after E v' s0 (br_fdb br)\<rparr>"
    and s': "s' = narrow (fdb_filter K E v' s0 (br_fdb br')) s0"
    by (rule rx_stages [OF K ok k r]) (rule that; assumption)
  have v: "v' = v" using a a' s' by simp
  have "heard j (skb_h_dest s) (vl_vid v) i (br_fdb br')"
    using heard_stays [OF h, of s0 E v] m(2) by (simp add: br' v s0)
  then show ?thesis
    by (rule heard_filter) (use m time in \<open>simp_all add: s' s0 br'\<close>)
qed

lemma rx_to_heard:
  assumes K: "helpers_ok K" and ok: "bridge_ok K br" and k: "ubr_vec_test (br_busy br) k"
    and r: "ubr_port_rx_handler K E k br s = Inr (r, br', s', ts)"
    and a: "cb_vlan (skb_cb s') = Some a" "br_heap br a = Some v"
    and h: "heard j (skb_h_dest s) (vl_vid v) i (br_fdb br)"
    and m: "is_valid_ether_addr (skb_h_dest s)" "skb_h_source s \<noteq> skb_h_dest s"
    and time: "unat (f_ageing_timeout (br_fdb br)) < 2 ^ 63"
      "unat (fe_jiffies E - j) \<le> unat (f_ageing_timeout (br_fdb br))"
    and t: "t \<in> set ts" "tx_dev t \<noteq> None"
  shows "tx_dev t = port_netdev br i \<and> i \<noteq> k \<and> ubr_vec_test (vl_members v) i"
proof -
  obtain x a'' v'' where x: "x \<noteq> k" "ubr_vec_test (vl_members v'') x"
      "ubr_vec_test (fdb_filter K E v'' s' (br_fdb br')) x" "tx_dev t = port_netdev br x"
    and a'': "cb_vlan (skb_cb s') = Some a''" "br_heap br a'' = Some v''"
    by (rule rx_delivered [OF K ok k r t]) (rule that; assumption)
  have v'': "v'' = v" using a a'' by simp
  from x rx_heard_filter [OF K ok k r a h m time] have "x = i" by (auto simp: v'' vec_simps)
  with x show ?thesis by (simp add: v'')
qed

text \<open>Flooding reaches every port the masks leave, each once.\<close>

lemma rx_exact:
  assumes K: "helpers_ok K" and ok: "bridge_ok K br" and i: "ubr_vec_test (br_busy br) i"
    and r: "ubr_port_rx_handler K E i br s = Inr (r, br', s', ts)"
    and clones: "\<And>j. fe_clone E j"
    and a: "cb_vlan (skb_cb s') = Some a" "br_heap br a = Some v"
    and allow: "p_pvid (br_ports br i) = 0 \<or> ubr_vec_test (vl_members v) i"
    and out: "out = {j. j \<noteq> i \<and> ubr_vec_test (vl_members v) j \<and>
                       ubr_vec_test (fdb_filter K E v s' (br_fdb br')) j}"
  shows "if out = {} then ts = [KfreeSkb s']
    else \<exists>js. distinct js \<and> set js = out \<and> map tx_dev ts = map (port_netdev br) js"
proof -
  obtain ok1 s0 a' v' where a': "cb_vlan (skb_cb s0) = Some a'" "br_heap br a' = Some v'"
    and al: "ok1 \<longleftrightarrow> p_pvid (br_ports br i) = 0 \<or> ubr_vec_test (vl_members v') i"
    and vec: "ok1 \<Longrightarrow> cb_vec (skb_cb s0) =
      ubr_vec_and (ubr_vec_clear i ubr_vec_fill) (vl_members v')"
    and br': "br' = br\<lparr>br_fdb := fdb_after E v' s0 (br_fdb br)\<rparr>"
    and s': "s' = narrow (fdb_filter K E v' s0 (br_fdb br')) s0"
    and d: "if ok1 then ubr_deliver K E br' s' = Inr ts else ts = [KfreeSkb s']"
    by (rule rx_stages [OF K ok i r]) (rule that; assumption)
  have v: "v' = v" using a a' s' by simp
  have ok1 using al allow v by simp
  then have del: "ubr_deliver K E br' s' = Inr ts" using d by simp
  have "vec_ports (cb_vec (skb_cb s')) = out"
    unfolding vec_ports_def out using vec [OF \<open>ok1\<close>]
    by (auto simp: s' v vec_simps dest: test_bound)
  moreover from this have "ts = [KfreeSkb s']" if "out = {}"
  proof -
    have "find_first_bit (cb_vec (skb_cb s')) = UBR_MAX_PORTS"
      using that \<open>vec_ports (cb_vec (skb_cb s')) = out\<close>
      by (auto simp: find_first_bit_none vec_ports_def)
    with del show ?thesis by (simp add: ubr_deliver_def)
  qed
  moreover have "map tx_dev ts = map (port_netdev br) (egress_order (cb_vec (skb_cb s')))"
    if "vec_ports (cb_vec (skb_cb s')) \<noteq> {}"
    using deliver_exact(1) [OF K clones del that] by (simp add: br')
  ultimately show ?thesis
    by (auto intro!: exI [of _ "egress_order (cb_vec (skb_cb s'))"]
        simp: distinct_egress_order set_egress_order)
qed

text \<open>A destination the table does not know is flooded.\<close>

lemma dst_not_src: "skb_h_dest s \<noteq> skb_h_source s \<Longrightarrow> dst_key K vid s \<noteq> src_key vid s"
  by (simp add: dst_key_def src_key_def)

lemma rx_unknown:
  assumes K: "helpers_ok K" and ok: "bridge_ok K br" and i: "ubr_vec_test (br_busy br) i"
    and r: "ubr_port_rx_handler K E i br s = Inr (r, br', s', ts)"
    and a: "cb_vlan (skb_cb s') = Some a" "br_heap br a = Some v"
    and new: "f_nodes (br_fdb br) (dst_key K (vl_vid v) s') = None"
      "skb_h_dest s \<noteq> skb_h_source s"
  shows "fdb_filter K E v s' (br_fdb br') = flood_filter v s'" "skb_h_dest s' = skb_h_dest s"
proof -
  obtain s0 a' v' where a': "cb_vlan (skb_cb s0) = Some a'" "br_heap br a' = Some v'"
    and s0: "skb_h_dest s0 = skb_h_dest s" "skb_h_source s0 = skb_h_source s"
    and br': "br' = br\<lparr>br_fdb := fdb_after E v' s0 (br_fdb br)\<rparr>"
    and s': "s' = narrow (fdb_filter K E v' s0 (br_fdb br')) s0"
    by (rule rx_stages [OF K ok i r]) (rule that; assumption)
  have v: "v' = v" using a a' s' by simp
  have "dst_key K (vl_vid v) s' \<noteq> src_key (vl_vid v) s0"
    using dst_not_src [of s0 K "vl_vid v"] new(2) s0 by (simp add: s')
  then have "f_nodes (br_fdb br') (dst_key K (vl_vid v) s') = None"
    using new(1) by (simp add: br' v fdb_after_other)
  then show "fdb_filter K E v s' (br_fdb br') = flood_filter v s'" by (simp add: fdb_filter_def)
  show "skb_h_dest s' = skb_h_dest s" by (simp add: s' s0)
qed

lemma rx_cb_vlan:
  assumes "helpers_ok K" "bridge_ok K br" "ubr_vec_test (br_busy br) i"
    and "ubr_port_rx_handler K E i br s = Inr (r, br', s', ts)"
  shows "cb_vlan (skb_cb s') = ingress_vlan K br (enter_port br i s)"
proof -
  obtain s0 a f where "ingress_vlan K br (enter_port br i s) = Some a" "cb_vlan (skb_cb s0) = Some a"
    "s' = narrow f s0"
    by (rule rx_stages [OF assms]) (rule that; assumption)
  then show ?thesis by simp
qed

text \<open>The bridge after a frame: the same ports and VLANs, the invariant again.\<close>

lemma rx_keeps:
  assumes K: "helpers_ok K" and ok: "bridge_ok K br" and i: "ubr_vec_test (br_busy br) i"
    and r: "ubr_port_rx_handler K E i br s = Inr (r, br', s', ts)"
  obtains f where "br' = br\<lparr>br_fdb := f\<rparr>" "bridge_ok K br'"
    "f_ageing_timeout f = f_ageing_timeout (br_fdb br)"
proof -
  obtain v s0 where "br' = br\<lparr>br_fdb := fdb_after E v s0 (br_fdb br)\<rparr>"
    by (rule rx_stages [OF K ok i r]) (rule that; assumption)
  then show thesis
    using bridge_ok_fdb [OF ok fdb_after_ok [OF bridge_okD(6) [OF ok]], of E v s0]
    by (intro that [of "fdb_after E v s0 (br_fdb br)"]) simp_all
qed

lemma enter_port_fdb [simp]: "enter_port (br\<lparr>br_fdb := f\<rparr>) = enter_port br"
  by (simp add: enter_port_def fun_eq_iff)

lemma ingress_vlan_fdb [simp]: "ingress_vlan K (br\<lparr>br_fdb := f\<rparr>) = ingress_vlan K br"
proof -
  have "vlan_of K (br\<lparr>br_fdb := f\<rparr>) = vlan_of K br" by (rule vlan_table_cong) simp_all
  moreover have "ingress_untag K (br\<lparr>br_fdb := f\<rparr>) = ingress_untag K br"
    by (simp add: ingress_untag_def fun_eq_iff)
  moreover have "ingress_classify K (br\<lparr>br_fdb := f\<rparr>) = ingress_classify K br"
    by (simp add: ingress_classify_def fun_eq_iff)
  moreover from calculation have "frame_vlan K (br\<lparr>br_fdb := f\<rparr>) = frame_vlan K br"
    by (intro ext) (simp add: frame_vlan_def)
  ultimately show ?thesis by (intro ext) (simp only: ingress_vlan_def)
qed

section \<open>Frames without a tag\<close>

lemma untagged_takes_pvid:
  assumes "helpers_ok K" "bridge_ok K br" "ubr_vec_test (br_busy br) i"
    and "ubr_port_rx_handler K E i br s = Inr (r, br', s', ts)"
    and "p_pvid (br_ports br i) \<noteq> 0" "\<not> skb_vlan_tag_present s" "skb_protocol s \<noteq> br_vlan_proto br"
  shows "skb_vlan_tci s' = p_pvid (br_ports br i)"
    and "cb_vlan (skb_cb s') = vlan_of K br (p_pvid (br_ports br i))"
proof -
  let ?s = "enter_port br i s"
  note table = bridge_okD(1) [OF assms(2)]
  obtain allow s0 a v where ing: "ubr_vlan_ingress K br ?s = Inr (allow, Some s0)"
    and a: "ingress_vlan K br ?s = Some a" "cb_vlan (skb_cb s0) = Some a" "br_heap br a = Some v"
    and s': "s' = narrow (fdb_filter K E v s0 (br_fdb br')) s0"
    by (rule rx_stages [OF assms(1-4)]) (rule that; assumption)
  have "ubr_vlan_ingress K br ?s = ingress_resolve K br ?s 0"
    using assms(5-7) port_cb(7) [OF assms(2,3)]
    by (simp add: ubr_vlan_ingress_def ingress_untag_def ingress_classify_def enter_port_def)
  moreover have pv: "frame_vlan K br ?s 0 = vlan_of K br (p_pvid (br_ports br i))"
    using port_cb(6) [OF assms(2,3)] by (simp add: frame_vlan_def enter_port_def)
  moreover have va: "vlan_of K br (p_pvid (br_ports br i)) = Some a"
    using a(1) assms(5-7) port_cb(6,7) [OF assms(2,3)]
    by (simp add: ingress_vlan_def ingress_untag_def ingress_classify_def enter_port_def frame_vlan_def)
  moreover have "vl_vid v = p_pvid (br_ports br i)"
    using vlan_of_SomeD(1) [OF table va] a by auto
  ultimately have "skb_vlan_tci s0 = p_pvid (br_ports br i)"
    using ing a resolve_some [OF table, of ?s 0 a v] by (auto simp: resolved_def split: if_splits)
  then show "skb_vlan_tci s' = p_pvid (br_ports br i)" by (simp add: s')
  show "cb_vlan (skb_cb s') = vlan_of K br (p_pvid (br_ports br i))" using a va by (simp add: s')
qed


end
