(* ===== verification/Ubr_System.thy ===== *)
theory Ubr_System
  imports Ubr_Netlink Ubr_Enslave Ubr_Switch
begin

text \<open>
  The machine as a step relation: what reaches the module from outside (netlink requests,
  devices enslaved and released, frames received and sent, the ageing work, a grace period
  that ends, new and removed bridges, device events), each step the module's own function. The
  invariant of a world of bridges is kept by every orderly run, which is stated with the locale
  \<open>guarded_system\<close>; what other deletions do to it is the subject of the root theory.
\<close>

section \<open>Steps\<close>

definition rcu_run :: "rcu_cb \<Rightarrow> ubr \<Rightarrow> ubr res" where
  "rcu_run cb br =
     (case cb of
        Vlan_Del_Rcu a \<Rightarrow> ubr_vlan_del_rcu a br
      | Port_Cleanup_Rcu i \<Rightarrow> Inr (port_cleanup_rcu i br))"

datatype event =
    Netlink ubr_nl_cmd genl_info "addr option"
  | New_Bridge newlink_env netdev net_device
  | Del_Bridge "walk_item list" netdev
  | Device_Event netdev_event netdev
  | Add_Slave port_add_env netdev netdev
  | Del_Slave netdev netdev
  | Receive frame_env netdev sk_buff
  | Transmit frame_env netdev sk_buff
  | Age netdev "walk_item list"
  | Grace_Period netdev
  | Clock u64

text \<open>
  A bridge whose creation fails is freed with its device by the caller. A step exists only
  when the function returns: a fault has no successor.
\<close>

inductive wstep :: "kernel \<Rightarrow> netlink_lib \<Rightarrow> world \<Rightarrow> event \<Rightarrow> world \<Rightarrow> bool"
  for K N where
  step_netlink: "ubr_genl_doit K N mem cmd info w = Inr (ret, w') \<Longrightarrow>
    wstep K N w (Netlink cmd info mem) w'"
| step_newlink: "ubr_dev_newlink K L b nd w = Inr (ret, w') \<Longrightarrow>
    wstep K N w (New_Bridge L b nd)
      (if ret = 0 then w' else w'\<lparr>w_bridges := (w_bridges w')(b := None)\<rparr>)"
| step_dellink: "ubr_dev_dellink walk b w = Inr w' \<Longrightarrow> wstep K N w (Del_Bridge walk b) w'"
| step_event: "ubr_device_event ev dev w = Inr (r, w') \<Longrightarrow> wstep K N w (Device_Event ev dev) w'"
| step_add_slave: "ubr_ndo_add_slave K P b dev w = Inr (ret, w') \<Longrightarrow>
    wstep K N w (Add_Slave P b dev) w'"
| step_del_slave: "ubr_ndo_del_slave b dev w = Inr (ret, w') \<Longrightarrow>
    wstep K N w (Del_Slave b dev) w'"
| step_receive: "w_devs w d = Some nd \<Longrightarrow> nd_rx_handler_data nd = Some (b, i) \<Longrightarrow>
    netdev_priv w b = Inr br \<Longrightarrow> ubr_port_rx_handler K E i br s = Inr (r, br', s', ts) \<Longrightarrow>
    wstep K N w (Receive E d s) (br_put b br' w)"
| step_transmit: "netdev_priv w b = Inr br \<Longrightarrow>
    ubr_ndo_start_xmit K E br s = Inr (br', ts) \<Longrightarrow>
    wstep K N w (Transmit E b s) (br_put b br' w)"
| step_age: "netdev_priv w b = Inr br \<Longrightarrow>
    wstep K N w (Age b walk)
      (br_put b (br\<lparr>br_fdb := ubr_fdb_age (w_jiffies w) walk (br_fdb br)\<rparr>) w)"
| step_grace: "netdev_priv w b = Inr br \<Longrightarrow> br_rcu br = cb # cbs \<Longrightarrow>
    rcu_run cb (br\<lparr>br_rcu := cbs\<rparr>) = Inr br' \<Longrightarrow>
    wstep K N w (Grace_Period b) (br_put b br' w)"
| step_clock: "wstep K N w (Clock j) (w\<lparr>w_jiffies := j\<rparr>)"

inductive_simps wstep_netlink: "wstep K N w (Netlink cmd info mem) w'"
inductive_simps wstep_clock: "wstep K N w (Clock j) w'"
inductive_cases wstep_newlinkE: "wstep K N w (New_Bridge L b nd) w'"
inductive_cases wstep_add_slaveE: "wstep K N w (Add_Slave P b dev) w'"
inductive_cases wstep_receiveE: "wstep K N w (Receive E d s) w'"
inductive_cases wstep_transmitE: "wstep K N w (Transmit E b s) w'"
inductive_cases wstep_ageE: "wstep K N w (Age b walk) w'"
inductive_cases wstep_graceE: "wstep K N w (Grace_Period b) w'"

section \<open>The invariant of a world\<close>

definition rcu_ok :: "ubr \<Rightarrow> bool" where
  "rcu_ok br \<longleftrightarrow>
     (\<forall>cb \<in> set (br_rcu br). \<exists>i. cb = Port_Cleanup_Rcu i \<and> \<not> ubr_vec_test (br_busy br) i)"

definition bridge_live :: "kernel \<Rightarrow> netdev \<Rightarrow> ubr \<Rightarrow> bool" where
  "bridge_live K b br \<longleftrightarrow>
     bridge_ok K br \<and> br_dev br = b \<and> rcu_ok br \<and> ubr_vec_test (br_busy br) 0"

text \<open>
  A device's receive handler leads to a slot in use that holds the device, and the device in
  every slot but the bridge's own has such a handler.
\<close>

definition handler_ok :: "(netdev \<Rightarrow> ubr option) \<Rightarrow> netdev \<Rightarrow> net_device \<Rightarrow> bool" where
  "handler_ok bs d nd \<longleftrightarrow>
     (\<forall>b i. nd_rx_handler_data nd = Some (b, i) \<longrightarrow>
        i \<noteq> 0 \<and> nd_master nd = Some b \<and>
        (\<exists>br. bs b = Some br \<and> ubr_vec_test (br_busy br) i \<and> p_dev (br_ports br i) = Some d))"

definition slots_linked :: "(netdev \<Rightarrow> net_device option) \<Rightarrow> netdev \<Rightarrow> ubr \<Rightarrow> bool" where
  "slots_linked devs b br \<longleftrightarrow>
     (\<forall>i. ubr_vec_test (br_busy br) i \<and> i \<noteq> 0 \<longrightarrow>
        (\<exists>d nd. p_dev (br_ports br i) = Some d \<and> devs d = Some nd \<and>
           nd_rx_handler_data nd = Some (b, i)))"

definition world_ok :: "kernel \<Rightarrow> world \<Rightarrow> bool" where
  "world_ok K w \<longleftrightarrow>
     (\<forall>b br. w_bridges w b = Some br \<longrightarrow>
        bridge_live K b br \<and> w_devs w b \<noteq> None \<and> slots_linked (w_devs w) b br) \<and>
     (\<forall>d nd. w_devs w d = Some nd \<longrightarrow> handler_ok (w_bridges w) d nd)"

definition fresh_addr :: "world \<Rightarrow> addr \<Rightarrow> bool" where
  "fresh_addr w a \<longleftrightarrow> (\<forall>b br. w_bridges w b = Some br \<longrightarrow> br_heap br a = None)"

text \<open>
  What an orderly user does: the allocator hands out memory that is free, a new bridge is a new
  device, the calls on an enslaved device succeed once the checks have passed. A device is
  released only when no VLAN of its bridge has it as a member, and a slot that was released is
  used again only after its grace period. VLANs and bridges are not deleted.
\<close>

definition free_to_go :: "kernel \<Rightarrow> world \<Rightarrow> netdev \<Rightarrow> bool" where
  "free_to_go K w dev \<longleftrightarrow>
     (\<forall>nd b i br. w_devs w dev = Some nd \<longrightarrow> nd_rx_handler_data nd = Some (b, i) \<longrightarrow>
        w_bridges w b = Some br \<longrightarrow> no_member K br i)"

definition orderly :: "kernel \<Rightarrow> world \<Rightarrow> event \<Rightarrow> bool" where
  "orderly K w e =
     (case e of
        Netlink cmd info mem \<Rightarrow> cmd \<noteq> UBR_NL_VLAN_DEL \<and> (\<forall>a. mem = Some a \<longrightarrow> fresh_addr w a)
      | New_Bridge L b nd \<Rightarrow>
          w_devs w b = None \<and> w_bridges w b = None \<and> nd_rx_handler_data nd = None
      | Del_Bridge walk b \<Rightarrow> False
      | Device_Event ev dev \<Rightarrow> ev = NETDEV_UNREGISTER \<longrightarrow> free_to_go K w dev
      | Add_Slave P b dev \<Rightarrow> first_error P = 0 \<and>
          (\<forall>br. w_bridges w b = Some br \<longrightarrow> Port_Cleanup_Rcu (free_slot br) \<notin> set (br_rcu br))
      | Del_Slave b dev \<Rightarrow> free_to_go K w dev
      | _ \<Rightarrow> True)"

section \<open>Preservation\<close>

lemma world_okD:
  "world_ok K w \<Longrightarrow> w_bridges w b = Some br \<Longrightarrow> bridge_live K b br"
  "world_ok K w \<Longrightarrow> w_devs w d = Some nd \<Longrightarrow> handler_ok (w_bridges w) d nd"
  "world_ok K w \<Longrightarrow> w_bridges w b = Some br \<Longrightarrow> w_devs w b \<noteq> None"
  "world_ok K w \<Longrightarrow> w_bridges w b = Some br \<Longrightarrow> slots_linked (w_devs w) b br"
  by (simp_all add: world_ok_def)

lemma bridge_liveD:
  "bridge_live K b br \<Longrightarrow> bridge_ok K br" "bridge_live K b br \<Longrightarrow> br_dev br = b"
  "bridge_live K b br \<Longrightarrow> rcu_ok br" "bridge_live K b br \<Longrightarrow> ubr_vec_test (br_busy br) 0"
  by (simp_all add: bridge_live_def)

text \<open>A bridge is replaced by one that keeps the devices in their slots.\<close>

definition keeps_ports :: "ubr \<Rightarrow> ubr \<Rightarrow> bool" where
  "keeps_ports br br' \<longleftrightarrow>
     (\<forall>i. ubr_vec_test (br_busy br) i \<longrightarrow>
        ubr_vec_test (br_busy br') i \<and> p_dev (br_ports br' i) = p_dev (br_ports br i))"

lemma handler_ok_put:
  assumes "handler_ok bs d nd" "bs b = Some br" "keeps_ports br br'"
  shows "handler_ok (bs(b := Some br')) d nd"
  using assms by (fastforce simp: handler_ok_def keeps_ports_def)

definition same_ports :: "ubr \<Rightarrow> ubr \<Rightarrow> bool" where
  "same_ports br br' \<longleftrightarrow> br_busy br' = br_busy br \<and>
     (\<forall>i. ubr_vec_test (br_busy br) i \<longrightarrow> p_dev (br_ports br' i) = p_dev (br_ports br i))"

lemma same_ports_keeps: "same_ports br br' \<Longrightarrow> keeps_ports br br'"
  by (simp add: same_ports_def keeps_ports_def)

lemma slots_linked_same: "same_ports br br' \<Longrightarrow> slots_linked devs b br' = slots_linked devs b br"
  by (auto simp: same_ports_def slots_linked_def)

lemma world_ok_put:
  assumes "world_ok K w" "w_bridges w b = Some br" "bridge_live K b br'" "same_ports br br'"
  shows "world_ok K (br_put b br' w)"
  using assms handler_ok_put [OF world_okD(2) [OF assms(1)] assms(2) same_ports_keeps [OF assms(4)]]
  by (auto simp: world_ok_def slots_linked_same)

lemma handler_ok_cong:
  "nd_rx_handler_data nd' = nd_rx_handler_data nd \<Longrightarrow> nd_master nd' = nd_master nd \<Longrightarrow>
     handler_ok bs d nd' = handler_ok bs d nd"
  by (simp add: handler_ok_def)

lemma world_ok_hold [simp]: "world_ok K (hold i w) = world_ok K w"
proof -
  have "(\<forall>nd. w_devs (hold i w) d = Some nd \<longrightarrow> handler_ok (w_bridges w) d nd) \<longleftrightarrow>
      (\<forall>nd. w_devs w d = Some nd \<longrightarrow> handler_ok (w_bridges w) d nd)" for d
    by (cases "w_devs w d"; cases "d = i") (simp_all add: hold_def handler_ok_def)
  moreover have "w_devs (hold i w) b \<noteq> None \<longleftrightarrow> w_devs w b \<noteq> None" for b
    by (simp add: hold_def)
  moreover have "(\<exists>nd. w_devs (hold i w) d = Some nd \<and> nd_rx_handler_data nd = h) \<longleftrightarrow>
      (\<exists>nd. w_devs w d = Some nd \<and> nd_rx_handler_data nd = h)" for d h
    by (cases "w_devs w d"; cases "d = i") (simp_all add: hold_def)
  then have "slots_linked (w_devs (hold i w)) b br = slots_linked (w_devs w) b br" for b br
    by (simp add: slots_linked_def)
  ultimately show ?thesis by (simp only: world_ok_def hold_frame)
qed

lemma world_ok_hold_port [simp]: "world_ok K (hold_port i w) = world_ok K w"
  by (simp add: hold_port_def)

text \<open>Operations that leave the ports alone.\<close>

lemma bridge_live_fdb:
  "bridge_live K b br \<Longrightarrow> fdb_ok f \<Longrightarrow> bridge_live K b (br\<lparr>br_fdb := f\<rparr>)"
  by (simp add: bridge_live_def bridge_ok_fdb rcu_ok_def)

lemma same_ports_fdb: "same_ports br (br\<lparr>br_fdb := f\<rparr>)"
  by (simp add: same_ports_def)

lemma world_ok_fdb:
  assumes "world_ok K w" "w_bridges w b = Some br" "fdb_ok (br_fdb br) \<Longrightarrow> fdb_ok f"
  shows "world_ok K (br_put b (br\<lparr>br_fdb := f\<rparr>) w)"
  using world_okD(1) [OF assms(1,2)] assms(3)
  by (intro world_ok_put [OF assms(1,2) _ same_ports_fdb] bridge_live_fdb)
    (auto simp: bridge_live_def bridge_ok_def)

lemma world_ok_forward:
  assumes K: "helpers_ok K" and w: "world_ok K w" "w_bridges w b = Some br"
    and f: "ubr_forward K E br s = Inr (r, br', s', ts)" and c: "\<not> cb_ctrl (skb_cb s)"
  shows "world_ok K (br_put b br' w)"
  using forward_frame [OF K c f] world_ok_fdb [OF w] by blast

lemma world_ok_receive:
  assumes K: "helpers_ok K" and w: "world_ok K w" "w_bridges w b = Some br"
    and i: "ubr_vec_test (br_busy br) i"
    and f: "ubr_port_rx_handler K E i br s = Inr (r, br', s', ts)"
  shows "world_ok K (br_put b br' w)"
proof -
  note ok = bridge_liveD(1) [OF world_okD(1) [OF w]]
  from f obtain q where "ubr_forward K E br (enter_port br i s) = Inr (q, br', s', ts)"
    by (auto simp: rx_handler_eq [OF ok i] res_simps)
  then show ?thesis
    by (rule world_ok_forward [OF K w]) (simp add: port_cb(3) [OF ok i])
qed

lemma world_ok_transmit:
  assumes K: "helpers_ok K" and w: "world_ok K w" "w_bridges w b = Some br"
    and f: "ubr_ndo_start_xmit K E br s = Inr (br', ts)"
  shows "world_ok K (br_put b br' w)"
proof -
  note live = world_okD(1) [OF w]
  from f obtain r s' ts' where
    "ubr_forward K E br ((skb_pull s ETH_HLEN)\<lparr>skb_cb := p_ingress_cb (br_ports br 0)\<rparr>) =
       Inr (r, br', s', ts')"
    by (auto simp: ubr_ndo_start_xmit_def res_simps)
  then show ?thesis
    by (rule world_ok_forward [OF K w])
      (simp add: port_cb(3) [OF bridge_liveD(1,4) [OF live]])
qed

text \<open>The netlink handlers.\<close>

lemma same_ports_update [simp]:
  "same_ports br (update_port_vlan a vid add (vlan_add K a vid br))"
  by (simp add: same_ports_def update_port_vlan_ports)

lemma same_ports_vlan_write [simp]: "same_ports br (vlan_write a v br)"
  by (simp add: same_ports_def)

lemma same_ports_refl [simp]: "same_ports br br"
  by (simp add: same_ports_def)

lemma world_ok_vlan_write:
  assumes w: "world_ok K w" "w_bridges w b = Some br" and ok: "bridge_ok K (vlan_write a v br)"
  shows "world_ok K (br_put b (vlan_write a v br) w)"
  using world_okD(1) [OF w] ok
  by (intro world_ok_put [OF w]) (simp_all add: bridge_live_def rcu_ok_def)

lemma world_ok_nl_add:
  assumes w: "world_ok K w" and mem: "\<And>a. mem = Some a \<Longrightarrow> fresh_addr w a"
    and r: "ubr_vlan_nl_add_cmd K N mem info w = Inr (ret, w')"
  shows "world_ok K w'"
  using nl_add_result [OF r]
proof (elim disjE exE conjE)
  fix b br vid r br1
  assume br: "w_bridges w b = Some br" and new: "ubr_vlan_new K mem vid 0 0 br = Inr (r, br1)"
    and rest: "case r of Inl err \<Rightarrow> ret = err \<and> w' = br_put b br1 w
     | Inr a \<Rightarrow> ret = 0 \<and> (\<exists>v. br_heap br1 a = Some v \<and>
         w' = br_put b (update_port_vlan a (vl_vid v) True br1) w)"
  note live = world_okD(1) [OF w br]
  from bridge_okD(1) [OF bridge_liveD(1) [OF live]] new show ?thesis
  proof (cases rule: vlan_new_cases)
    case (3 a)
    have "br_heap br a = None" using mem [OF 3(2)] br by (simp add: fresh_addr_def)
    then have "bridge_ok K (update_port_vlan a vid True (vlan_add K a vid br))"
      using bridge_ok_add_vlan [OF bridge_liveD(1) [OF live] 3(4)] by simp
    then have "bridge_live K b (update_port_vlan a vid True (vlan_add K a vid br))"
      using live by (simp add: bridge_live_def rcu_ok_def)
    then show ?thesis
      using rest 3 world_ok_put [OF w br] by (simp add: fun_upd_same)
  qed (use rest world_ok_put [OF w br live] in simp_all)
qed (use w in simp)

lemma world_ok_nl_attach:
  assumes w: "world_ok K w" and r: "ubr_vlan_nl_attach_cmd K N info w = Inr (ret, w')"
  shows "world_ok K w'"
  using nl_attach_result [OF r]
proof (elim disjE exE conjE)
  fix b br vl vid port br' attrs tagged
  assume br: "w_bridges w b = Some br" and f: "ubr_vlan_find K br vid = Inr vl"
    and p: "0 \<le> ubr_port_find br (Some port)"
    and add: "ubr_vlan_port_add vl (nat (ubr_port_find br (Some port))) (tagged \<noteq> 0) br = Inr (ret, br')"
    and w': "w' = br_put b br' w"
  note ok = bridge_liveD(1) [OF world_okD(1) [OF w br]]
  from p obtain i where i: "ubr_vec_test (br_busy br) i" "nat (ubr_port_find br (Some port)) = i"
    by (rule port_find_nonneg)
  with add obtain a v where v: "vl = Some a" "br_heap br a = Some v"
    "br' = vlan_write a (add_member i (tagged \<noteq> 0) v) br"
    by (auto dest!: vlan_port_add_InrD)
  moreover have "vlan_of K br vid = Some a"
    using f v(1) by (simp add: vlan_of_def)
  ultimately show ?thesis
    using world_ok_vlan_write [OF w br] bridge_ok_add_member [OF ok _ _ i(1)] w' by simp
qed (use w in simp)

lemma world_ok_nl_detach:
  assumes w: "world_ok K w" and r: "ubr_vlan_nl_detach_cmd K N info w = Inr (ret, w')"
  shows "world_ok K w'"
  using nl_detach_result [OF r]
proof (elim disjE exE conjE)
  fix b br vl vid port br'
  assume br: "w_bridges w b = Some br" and f: "ubr_vlan_find K br vid = Inr vl"
    and del: "ubr_vlan_port_del vl (nat (ubr_port_find br (Some port))) br = Inr (ret, br')"
    and w': "w' = br_put b br' w"
  note ok = bridge_liveD(1) [OF world_okD(1) [OF w br]]
  from del obtain a v where v: "vl = Some a" "br_heap br a = Some v"
    "br' = vlan_write a (del_member (nat (ubr_port_find br (Some port))) v) br"
    by (auto dest!: vlan_port_del_InrD)
  moreover have "vlan_of K br vid = Some a"
    using f v(1) by (simp add: vlan_of_def)
  ultimately show ?thesis
    using world_ok_vlan_write [OF w br] bridge_ok_del_member [OF ok] w' by simp
qed (use w in simp_all)

lemma set_port_pvid_with:
  "vlan_table_ok K br \<Longrightarrow> ubr_vlan_find K br pvid = Inr vl \<Longrightarrow>
     set_port_pvid pvid vl p = with_pvid K br pvid p"
  by (simp add: set_port_pvid_def with_pvid_def vlan_find_total(1))

lemma world_ok_nl_port_set:
  assumes w: "world_ok K w" and r: "ubr_port_nl_set_cmd K N info w = Inr (ret, w')"
  shows "world_ok K w'"
  using nl_port_set_result [OF r]
proof (elim disjE exE conjE)
  fix attrs ifindex b br i pvid vl
  assume br: "w_bridges w b = Some br" and i: "ubr_vec_test (br_busy br) i"
    and f: "ubr_vlan_find K br pvid = Inr vl"
    and w': "w' = br_put b (port_write i (set_port_pvid pvid vl (br_ports br i)) br)
                (hold_port ifindex w)"
  note live = world_okD(1) [OF w br]
  note ok = bridge_liveD(1) [OF live]
  let ?b = "port_write i (with_pvid K br pvid (br_ports br i)) br"
  have "bridge_live K b ?b"
    using live bridge_ok_set_pvid [OF ok i] by (simp add: bridge_live_def rcu_ok_def)
  moreover have "same_ports br ?b" by (simp add: same_ports_def)
  ultimately have "world_ok K (br_put b ?b (hold_port ifindex w))"
    using w br by (intro world_ok_put [of K _ b br]) simp_all
  with w' show ?thesis
    by (simp add: set_port_pvid_with [OF bridge_okD(1) [OF ok] f])
qed (use w in simp_all)

lemma world_ok_netlink:
  assumes w: "world_ok K w" and cmd: "cmd \<noteq> UBR_NL_VLAN_DEL"
    and mem: "\<And>a. mem = Some a \<Longrightarrow> fresh_addr w a"
    and r: "ubr_genl_doit K N mem cmd info w = Inr (ret, w')"
  shows "world_ok K w'"
proof (cases cmd)
  case UBR_NL_VLAN_ADD
  with r world_ok_nl_add [OF w mem] show ?thesis by simp
next
  case UBR_NL_VLAN_SET
  with r nl_set_result w show ?thesis by fastforce
next
  case UBR_NL_FDB_FLUSH
  with r nl_flush_result w show ?thesis by fastforce
qed (use r cmd world_ok_nl_attach [OF w] world_ok_nl_detach [OF w] world_ok_nl_port_set [OF w]
    in auto)

text \<open>A new bridge has VLAN 0 and itself in slot 0.\<close>

definition base_bridge :: "kernel \<Rightarrow> newlink_env \<Rightarrow> u64 \<Rightarrow> netdev \<Rightarrow> addr \<Rightarrow> ubr" where
  "base_bridge K L j b a =
     (vlan_add K a 0 (zero_ubr b))\<lparr>br_fdb := snd (ubr_fdb_newlink K j (nl_rht_err L) zero_fdb)\<rparr>"

lemma zero_ubr_simps [simp]:
  "br_dev (zero_ubr b) = b" "br_heap (zero_ubr b) = (\<lambda>_. None)" "br_busy (zero_ubr b) = 0"
  "br_rcu (zero_ubr b) = []" "br_ports (zero_ubr b) = (\<lambda>_. zero_port)"
  "br_vlans (zero_ubr b) = (\<lambda>_. [])" "br_fdb (zero_ubr b) = zero_fdb"
  by (simp_all add: zero_ubr_def)

lemma zero_table: "vlan_table_ok K (zero_ubr b)" "vlan_of K (zero_ubr b) vid = None"
  by (simp_all add: vlan_table_ok_def vlan_of_def ubr_vlan_find_def)

lemma fdb_newlink_ok: "fdb_ok (snd (ubr_fdb_newlink K j err zero_fdb))"
  by (simp add: ubr_fdb_newlink_def Let_def fdb_ok_def zero_fdb_def)

lemma base_bridge_ok: "bridge_ok K (base_bridge K L j b a)"
proof -
  let ?z = "zero_ubr b" and ?b = "vlan_add K a 0 (zero_ubr b)"
  have fresh: "br_heap ?z a = None" by simp
  note add = vt.ok_add [OF zero_table fresh] vt.find_add [OF zero_table fresh]
  have "bridge_ok K ?b"
    unfolding bridge_ok_def using add
    by (auto simp: slots_ok_def pvid_ok_def members_ok_def vlan_members_new zero_table
        fdb_ok_def zero_fdb_def split: if_splits)
  then show ?thesis unfolding base_bridge_def by (rule bridge_ok_fdb) (rule fdb_newlink_ok)
qed

lemma base_bridge_simps [simp]:
  "br_busy (base_bridge K L j b a) = 0" "br_rcu (base_bridge K L j b a) = []"
  "br_dev (base_bridge K L j b a) = b"
  by (simp_all add: base_bridge_def)

lemma base_free_slot: "free_slot (base_bridge K L j b a) = 0"
proof -
  have "search (\<lambda>i. \<not> ubr_vec_test 0 i) UBR_MAX_PORTS = 0"
    by (rule search_eqI) (simp_all add: UBR_MAX_PORTS_256)
  then show ?thesis by (simp add: free_slot_def find_first_zero_bit_def)
qed

lemma base_slot: "free_slot (base_bridge K L j b a) \<noteq> UBR_MAX_PORTS"
  by (simp add: base_free_slot UBR_MAX_PORTS_256)

definition new_bridge :: "kernel \<Rightarrow> newlink_env \<Rightarrow> u64 \<Rightarrow> netdev \<Rightarrow> addr \<Rightarrow> ubr" where
  "new_bridge K L j b a = enslaved K 0 b (base_bridge K L j b a)"

lemma new_bridge_init:
  "ubr_port_init K 0 b (base_bridge K L j b a) = Inr (new_bridge K L j b a)"
  "bridge_ok K (new_bridge K L j b a)" "br_busy (new_bridge K L j b a) = ubr_vec_set 0 0"
  "br_dev (new_bridge K L j b a) = b"
  using enslaved_init [OF base_bridge_ok base_slot, of K L j b a b]
  by (simp_all add: base_free_slot new_bridge_def)

lemma new_bridge_rcu [simp]: "br_rcu (new_bridge K L j b a) = []"
  by (simp add: new_bridge_def enslaved_def split: option.split)

lemma new_bridge_live: "bridge_live K b (new_bridge K L j b a)"
  by (simp add: bridge_live_def rcu_ok_def new_bridge_init vec_simps)

text \<open>Creation on every branch: the bridge is there when the result is 0 and only then.\<close>

lemma newlink_result:
  "ubr_dev_newlink K L b nd w =
     (case nl_mem L of
        None \<Rightarrow> Inr (- ENOMEM, br_put b (zero_ubr b) w)
      | Some a \<Rightarrow>
          if nl_rht_err L \<noteq> 0 then Inr (nl_rht_err L, br_put b (base_bridge K L (w_jiffies w) b a) w)
          else if nl_register_err L \<noteq> 0
          then Inr (nl_register_err L, br_put b
            ((new_bridge K L (w_jiffies w) b a)\<lparr>br_fdb := ubr_fdb_dellink (w_jiffies w) (nl_walk L)
               (br_fdb (new_bridge K L (w_jiffies w) b a))\<rparr>) w)
          else Inr (0, (br_put b (new_bridge K L (w_jiffies w) b a) w)
                 \<lparr>w_devs := (w_devs w)(b := Some nd)\<rparr>))"
proof (cases "nl_mem L")
  case None
  then show ?thesis
    by (simp add: ubr_dev_newlink_def ubr_vlan_newlink_def vlan_new_nomem zero_table)
next
  case (Some a)
  have new: "ubr_vlan_newlink K (Some a) (zero_ubr b) = Inr (0, vlan_add K a 0 (zero_ubr b))"
    by (simp add: ubr_vlan_newlink_def vlan_new_adds zero_table)
  obtain f where f: "ubr_fdb_newlink K (w_jiffies w) (nl_rht_err L) zero_fdb = (nl_rht_err L, f)"
    by (cases "nl_rht_err L = 0") (simp_all add: ubr_fdb_newlink_def Let_def)
  then have base: "(vlan_add K a 0 (zero_ubr b))\<lparr>br_fdb := f\<rparr> = base_bridge K L (w_jiffies w) b a"
    by (simp add: base_bridge_def)
  show ?thesis
    using new_bridge_init(1) [of K b L "w_jiffies w" a]
    by (simp add: Some ubr_dev_newlink_def new f base ubr_vlan_dellink_def Let_def)
qed

lemma handler_ok_more:
  "handler_ok bs d nd \<Longrightarrow> bs b = None \<Longrightarrow> handler_ok (bs(b := Some br)) d nd"
  by (fastforce simp: handler_ok_def)

text \<open>A device that is new is in no slot.\<close>

lemma slots_linked_new: "slots_linked devs b br \<Longrightarrow> devs d = None \<Longrightarrow> slots_linked (devs(d := y)) b br"
  by (fastforce simp: slots_linked_def)

lemma new_bridge_linked: "slots_linked devs b (new_bridge K L j b a)"
  by (simp add: slots_linked_def new_bridge_init vec_simps)

lemma world_ok_newlink:
  assumes w: "world_ok K w" and new: "w_bridges w b = None" "nd_rx_handler_data nd = None" "w_devs w b = None"
    and r: "ubr_dev_newlink K L b nd w = Inr (ret, w')"
  shows "world_ok K (if ret = 0 then w' else w'\<lparr>w_bridges := (w_bridges w')(b := None)\<rparr>)"
proof (cases "ret = 0")
  case True
  with r obtain a where "w' = (br_put b (new_bridge K L (w_jiffies w) b a) w)
      \<lparr>w_devs := (w_devs w)(b := Some nd)\<rparr>"
    unfolding newlink_result by (auto split: option.splits if_splits)
  moreover have "handler_ok bs b nd" for bs using new(2) by (simp add: handler_ok_def)
  ultimately show ?thesis
    using True w new_bridge_live [of K b L "w_jiffies w" a] handler_ok_more [where bs = "w_bridges w" and b = b]
      new(1,3) slots_linked_new [where devs = "w_devs w" and d = b] new_bridge_linked
    by (auto simp: world_ok_def)
next
  case False
  with r obtain br where "w' = br_put b br w"
    unfolding newlink_result by (auto split: option.splits if_splits)
  then have "w'\<lparr>w_bridges := (w_bridges w')(b := None)\<rparr> = w"
    using new(1) by (intro world_eqI) (auto simp: fun_eq_iff)
  with False w show ?thesis by simp
qed

text \<open>A device is enslaved.\<close>

lemma keeps_ports_enslaved:
  assumes "bridge_ok K br" "free_slot br \<noteq> UBR_MAX_PORTS"
    "Port_Cleanup_Rcu (free_slot br) \<notin> set (br_rcu br)"
  shows "keeps_ports br (enslaved K (free_slot br) dev br)"
  using enslaved_init(3,4) [OF assms, of dev] free_slot_idle [OF assms(2)]
  by (auto simp: keeps_ports_def vec_simps)

lemma sans_handler:
  "sans_headroom nd' = sans_headroom nd \<Longrightarrow> nd_rx_handler_data nd' = nd_rx_handler_data nd"
proof -
  assume "sans_headroom nd' = sans_headroom nd"
  then have "nd_rx_handler_data (sans_headroom nd') = nd_rx_handler_data (sans_headroom nd)" by simp
  then show ?thesis by (simp add: sans_headroom_def)
qed

lemma same_devs_world_ok:
  assumes "same_devs w w'" "world_ok K w" shows "world_ok K w'"
proof -
  have "handler_ok (w_bridges w') d nd" if "w_devs w' d = Some nd" for d nd
  proof -
    from assms(1) that obtain nd0 where d: "w_devs w d = Some nd0"
      and e: "sans_headroom nd = sans_headroom nd0"
      by (cases "w_devs w d") (auto simp: same_devs_def dest!: spec [of _ d])
    from e have "nd_rx_handler_data (sans_headroom nd) = nd_rx_handler_data (sans_headroom nd0)"
      "nd_master (sans_headroom nd) = nd_master (sans_headroom nd0)" by simp_all
    then have "handler_ok (w_bridges w) d nd = handler_ok (w_bridges w) d nd0"
      by (intro handler_ok_cong) (simp_all add: sans_headroom_def)
    with world_okD(2) [OF assms(2) d] assms(1) show ?thesis by (simp add: same_devs_def)
  qed
  moreover have "w_devs w' d \<noteq> None \<longleftrightarrow> w_devs w d \<noteq> None" for d
    using assms(1) by (cases "w_devs w d"; cases "w_devs w' d")
      (auto simp: same_devs_def dest!: spec [of _ d])
  moreover have "slots_linked (w_devs w') b br" if "slots_linked (w_devs w) b br" for b br
    using that same_devs_dev [OF assms(1)] sans_handler unfolding slots_linked_def by metis
  ultimately show ?thesis using assms by (auto simp: world_ok_def same_devs_def)
qed

lemma handler_master: "handler_ok bs d nd \<Longrightarrow> nd_master nd = None \<Longrightarrow> nd_rx_handler_data nd = None"
  by (cases "nd_rx_handler_data nd") (auto simp: handler_ok_def)

text \<open>Devices without a handler are in no slot: they may be changed.\<close>

lemma slots_linked_upd:
  assumes "slots_linked devs b br" "devs d = Some x" "nd_rx_handler_data x = None"
  shows "slots_linked (devs(d := y)) b br"
  using assms by (fastforce simp: slots_linked_def)

lemma enslaved_live:
  assumes live: "bridge_live K b br" and slot: "free_slot br \<noteq> UBR_MAX_PORTS"
    "Port_Cleanup_Rcu (free_slot br) \<notin> set (br_rcu br)"
  shows "bridge_live K b (enslaved K (free_slot br) dev br)"
proof -
  let ?e = "enslaved K (free_slot br) dev br"
  note init = enslaved_init [OF bridge_liveD(1) [OF live] slot, of dev]
  have "br_rcu ?e = br_rcu br" by (simp add: enslaved_def split: option.split)
  then have "rcu_ok ?e"
    using bridge_liveD(3) [OF live] slot(2) by (fastforce simp: rcu_ok_def init(3) vec_simps)
  then show ?thesis
    using init bridge_liveD [OF live] by (simp add: bridge_live_def vec_simps)
qed

lemma enslaved_linked:
  assumes "slots_linked devs b br" "devs dev = Some d" "nd_rx_handler_data d = None"
    and "bridge_ok K br" "free_slot br \<noteq> UBR_MAX_PORTS" "Port_Cleanup_Rcu (free_slot br) \<notin> set (br_rcu br)"
  shows "slots_linked (devs(dev \<mapsto> linked b (free_slot br) d)) b (enslaved K (free_slot br) dev br)"
proof -
  note init = enslaved_init [OF assms(4-6), of dev]
  have "slots_linked (devs(dev \<mapsto> linked b (free_slot br) d)) b br"
    using assms(1-3) by (rule slots_linked_upd)
  then show ?thesis
    unfolding slots_linked_def by (auto simp: init(3,4) vec_simps linked_def)
qed

lemma world_ok_add_slave:
  assumes w: "world_ok K w" and P: "first_error P = 0"
    and idle: "\<And>br. w_bridges w b = Some br \<Longrightarrow> Port_Cleanup_Rcu (free_slot br) \<notin> set (br_rcu br)"
    and r: "ubr_ndo_add_slave K P b dev w = Inr (ret, w')"
  shows "world_ok K w'"
proof -
  from r obtain br d where br: "w_bridges w b = Some br" and d: "w_devs w dev = Some d"
    by (auto simp: ubr_ndo_add_slave_def ubr_port_add_def dev_at_def res_simps)
  note live = world_okD(1) [OF w br]
  show ?thesis
  proof (cases "port_add_allowed d \<noteq> 0 \<or> free_slot br = UBR_MAX_PORTS")
    case True
    with r port_add_refused [OF br d, of K P] w show ?thesis
      by (cases "port_add_allowed d = 0") (auto simp: ubr_ndo_add_slave_def)
  next
    case False
    let ?e = "enslaved K (free_slot br) dev br"
    have slot: "free_slot br \<noteq> UBR_MAX_PORTS" "Port_Cleanup_Rcu (free_slot br) \<notin> set (br_rcu br)"
      using False idle [OF br] by auto
    note init = enslaved_init [OF bridge_liveD(1) [OF live] slot, of dev]
    obtain bd where bd: "w_devs w b = Some bd" using world_okD(3) [OF w br] by auto
    have "port_add_allowed d = 0" using False by simp
    from port_add_done [OF br d bd bridge_liveD(1,2) [OF live] this slot, of P] P r
    have same: "same_devs (br_put b ?e (dev_upd dev (linked b (free_slot br)) w)) w'"
      by (simp add: ubr_ndo_add_slave_def)
    note e = enslaved_live [OF live slot, of dev]
    have none: "nd_rx_handler_data d = None"
      using handler_master [OF world_okD(2) [OF w d] allowed_no_master] False by simp
    have "handler_ok ((w_bridges w)(b := Some ?e)) x nd"
      if "w_devs (dev_upd dev (linked b (free_slot br)) w) x = Some nd" for x nd
    proof (cases "x = dev")
      case True
      with that d have "nd = linked b (free_slot br) d" by simp
      moreover have "free_slot br \<noteq> 0"
        using free_slot_idle [OF slot(1)] bridge_liveD(4) [OF live] by metis
      ultimately show ?thesis
        using True init(3,4) free_slot_idle [OF slot(1)]
        by (simp add: handler_ok_def linked_def vec_simps)
    next
      case False
      with that have "w_devs w x = Some nd" by simp
      from world_okD(2) [OF w this] br
        keeps_ports_enslaved [OF bridge_liveD(1) [OF live] slot, of dev]
      show ?thesis by (rule handler_ok_put)
    qed
    moreover have "w_devs (dev_upd dev (linked b (free_slot br)) w) x \<noteq> None \<longleftrightarrow> w_devs w x \<noteq> None"
      for x by simp
    moreover have "slots_linked ((w_devs w)(dev \<mapsto> linked b (free_slot br) d)) b ?e"
      using world_okD(4) [OF w br] d none bridge_liveD(1) [OF live] slot by (rule enslaved_linked)
    moreover have "slots_linked ((w_devs w)(dev \<mapsto> linked b (free_slot br) d)) b' br'"
      if "w_bridges w b' = Some br'" for b' br'
      using world_okD(4) [OF w that] d none by (rule slots_linked_upd)
    ultimately have "world_ok K (br_put b ?e (dev_upd dev (linked b (free_slot br)) w))"
      using w e bd d by (auto simp: world_ok_def)
    with same show ?thesis by (rule same_devs_world_ok)
  qed
qed

text \<open>A device that is free to go is released.\<close>

lemma released_live:
  assumes "bridge_live K b br" "no_member K br i" "i \<noteq> 0"
  shows "bridge_live K b (released i br)"
proof -
  have "rcu_ok (released i br)"
    using bridge_liveD(3) [OF assms(1)] by (auto simp: rcu_ok_def released_def vec_simps)
  moreover have "br_dev (released i br) = b" "ubr_vec_test (br_busy (released i br)) 0"
    using bridge_liveD(2,4) [OF assms(1)] assms(3) by (simp_all add: released_def vec_simps)
  ultimately show ?thesis
    using bridge_ok_released [OF bridge_liveD(1) [OF assms(1)] assms(2)] by (simp add: bridge_live_def)
qed

lemma world_ok_port_del:
  assumes w: "world_ok K w" and free: "free_to_go K w dev"
    and r: "ubr_port_del b dev w = Inr (ret, w')"
  shows "world_ok K w'"
proof -
  from r obtain d p i where d: "w_devs w dev = Some d" "nd_rx_handler_data d = Some (p, i)"
    and b: "w_bridges w b \<noteq> None"
    by (auto simp: ubr_port_del_def netdev_priv_Inr_iff dev_at_def Let_def res_simps split: option.splits)
  from world_okD(2) [OF w d(1)] d(2) obtain br where h: "i \<noteq> 0" "w_bridges w p = Some br"
    "ubr_vec_test (br_busy br) i" "p_dev (br_ports br i) = Some dev"
    by (auto simp: handler_ok_def)
  note live = world_okD(1) [OF w h(2)]
  have "slot_ok i (br_ports br i)"
    using slots_okD [OF bridge_okD(3) [OF bridge_liveD(1) [OF live]] h(3)] .
  with r port_del_eq [OF d h(2) _ b] have w': "w' = br_put p (released i br) (dev_upd dev (unlinked b) w)"
    by simp
  have "no_member K br i" using free d h(2) by (simp add: free_to_go_def)
  note new = released_live [OF live this h(1)]
  have other: "nd_rx_handler_data nd = Some (b', j) \<Longrightarrow> (b', j) \<noteq> (p, i)"
    if "w_devs w x = Some nd" "x \<noteq> dev" for x nd b' j
    using world_okD(2) [OF w that(1)] h(2,4) that(2) by (auto simp: handler_ok_def)
  have "slots_linked (w_devs (dev_upd dev (unlinked b) w)) b' br'"
    if br': "(if b' = p then Some (released i br) else w_bridges w b') = Some br'" for b' br'
    unfolding slots_linked_def
  proof (intro allI impI)
    fix j
    assume j: "ubr_vec_test (br_busy br') j \<and> j \<noteq> 0"
    define br0 where "br0 = (if b' = p then br else br')"
    have br0: "w_bridges w b' = Some br0" "ubr_vec_test (br_busy br0) j"
      "br_ports br' = br_ports br0" "(b', j) \<noteq> (p, i)"
      using br' h(2) j by (auto simp: br0_def released_def vec_simps split: if_splits)
    with world_okD(4) [OF w br0(1)] j obtain x nd where x: "p_dev (br_ports br' j) = Some x"
      "w_devs w x = Some nd" "nd_rx_handler_data nd = Some (b', j)"
      by (auto simp: slots_linked_def)
    with d br0(4) have "x \<noteq> dev" by auto
    with x show "\<exists>d nd. p_dev (br_ports br' j) = Some d \<and>
        w_devs (dev_upd dev (unlinked b) w) d = Some nd \<and> nd_rx_handler_data nd = Some (b', j)"
      by auto
  qed
  moreover have "handler_ok ((w_bridges w)(p \<mapsto> released i br)) x nd"
    if nd: "w_devs (dev_upd dev (unlinked b) w) x = Some nd" for x nd
  proof (cases "x = dev")
    case True
    with nd d show ?thesis by (auto simp: handler_ok_def unlinked_def)
  next
    case False
    with nd have x: "w_devs w x = Some nd" by simp
    show ?thesis
      using world_okD(2) [OF w x] other [OF x False] h(2)
      by (fastforce simp: handler_ok_def released_def vec_simps)
  qed
  ultimately show ?thesis
    using world_okD(1,3) [OF w] world_okD(3) [OF w h(2)] new d(1) unfolding w' world_ok_def
    by (auto split: if_splits)
qed

lemma world_ok_event:
  assumes w: "world_ok K w" and free: "ev = NETDEV_UNREGISTER \<Longrightarrow> free_to_go K w dev"
    and r: "ubr_device_event ev dev w = Inr (ret, w')"
  shows "world_ok K w'"
proof (cases "ev = NETDEV_UNREGISTER \<and> (\<exists>d. w_devs w dev = Some d \<and> netif_is_ubr_port d)")
  case True
  with r obtain b ret' where "ubr_port_del b dev w = Inr (ret', w')"
    by (auto simp: ubr_device_event_def dev_at_def res_simps split: option.splits)
  with True show ?thesis by (auto intro: world_ok_port_del [OF w free])
next
  case False
  with r have "w' = w"
    by (auto simp: ubr_device_event_def dev_at_def res_simps split: option.splits if_splits netdev_event.splits)
  with w show ?thesis by simp
qed

text \<open>A grace period ends: a slot that was released is cleared.\<close>

lemma world_ok_grace:
  assumes w: "world_ok K w" and br: "w_bridges w b = Some br" and cb: "br_rcu br = cb # cbs"
    and r: "rcu_run cb (br\<lparr>br_rcu := cbs\<rparr>) = Inr br'"
  shows "world_ok K (br_put b br' w)"
proof -
  note live = world_okD(1) [OF w br]
  from bridge_liveD(3) [OF live] cb obtain i where i: "cb = Port_Cleanup_Rcu i" "\<not> ubr_vec_test (br_busy br) i"
    by (auto simp: rcu_ok_def)
  with r have br': "br' = port_cleanup_rcu i (br\<lparr>br_rcu := cbs\<rparr>)" by (simp add: rcu_run_def)
  have ok: "bridge_ok K br'"
    unfolding br' using bridge_liveD(1) [OF live] cb [unfolded i(1)] i(2) by (rule bridge_ok_cleanup)
  have "rcu_ok br'"
    using bridge_liveD(3) [OF live] cb by (simp add: br' rcu_ok_def port_cleanup_rcu_def port_write_def)
  with ok have "bridge_live K b br'"
    using bridge_liveD(2,4) [OF live] by (simp add: bridge_live_def) (simp add: br' port_cleanup_rcu_def port_write_def)
  moreover have "same_ports br br'"
    using i(2) by (auto simp: same_ports_def br' port_cleanup_rcu_def port_write_def)
  ultimately show ?thesis by (rule world_ok_put [OF w br])
qed

section \<open>Runs\<close>

lemma world_ok_step:
  assumes K: "helpers_ok K" and w: "world_ok K w" and adm: "orderly K w e"
    and s: "wstep K N w e w'"
  shows "world_ok K w'"
  using s
proof (cases rule: wstep.cases)
  case (step_netlink mem cmd info ret)
  with w adm show ?thesis by (auto simp: orderly_def intro: world_ok_netlink)
next
  case (step_newlink L b nd ret w'')
  moreover from this adm have "w_bridges w b = None" "nd_rx_handler_data nd = None" "w_devs w b = None"
    by (simp_all add: orderly_def)
  ultimately show ?thesis using world_ok_newlink [OF w] by simp
next
  case (step_dellink walk b)
  with adm show ?thesis by (simp add: orderly_def)
next
  case (step_event ev dev r)
  with adm show ?thesis by (auto simp: orderly_def intro: world_ok_event [OF w])
next
  case (step_add_slave P b dev ret)
  with adm show ?thesis by (auto simp: orderly_def intro: world_ok_add_slave [OF w])
next
  case (step_del_slave b dev ret)
  with adm show ?thesis by (auto simp: orderly_def ubr_ndo_del_slave_def intro: world_ok_port_del [OF w])
next
  case (step_receive d nd b i br E s r br' s' ts)
  have br: "w_bridges w b = Some br" using step_receive by (simp add: netdev_priv_Inr_iff)
  have "ubr_vec_test (br_busy br) i"
    using world_okD(2) [OF w] step_receive br by (fastforce simp: handler_ok_def)
  with step_receive world_ok_receive [OF K w br] show ?thesis by simp
next
  case (step_transmit b br E s br' ts)
  with world_ok_transmit [OF K w] show ?thesis by (simp add: netdev_priv_Inr_iff)
next
  case (step_age b br walk)
  with world_ok_fdb [OF w] fdb_age_ok show ?thesis by (simp add: netdev_priv_Inr_iff)
next
  case (step_grace b br cb cbs br')
  with world_ok_grace [OF w] show ?thesis by (simp add: netdev_priv_Inr_iff)
next
  case (step_clock j)
  with w show ?thesis by (simp add: world_ok_def)
qed

interpretation gs: guarded_system "wstep K N" "orderly K" "\<lambda>w. helpers_ok K \<and> world_ok K w"
  for K N
  by unfold_locales (auto intro: world_ok_step)

text \<open>The machine before the first bridge.\<close>

definition boot :: "(netdev \<Rightarrow> net_device option) \<Rightarrow> u64 \<Rightarrow> world" where
  "boot devs j = \<lparr>w_devs = devs, w_bridges = (\<lambda>_. None), w_jiffies = j\<rparr>"

lemma world_ok_boot:
  "(\<And>d nd. devs d = Some nd \<Longrightarrow> nd_rx_handler_data nd = None) \<Longrightarrow> world_ok K (boot devs j)"
  by (fastforce simp: world_ok_def boot_def handler_ok_def)

text \<open>A port that no VLAN has is released, and the grace period ends.\<close>

lemma port_leaves:
  assumes w: "world_ok K w" "w_bridges w b = Some br" "br_rcu br = []"
    and d: "w_devs w dev = Some nd" "nd_rx_handler_data nd = Some (b, i)" and none: "no_member K br i"
  obtains w' where "runs (wstep K N) (orderly K) w [Del_Slave b dev, Grace_Period b] w'"
    "w_bridges w' b = Some (port_cleanup_rcu i ((released i br)\<lparr>br_rcu := []\<rparr>))"
    "w_devs w' = (w_devs w)(dev \<mapsto> unlinked b nd)"
proof -
  let ?w1 = "br_put b (released i br) (dev_upd dev (unlinked b) w)"
  let ?r = "port_cleanup_rcu i ((released i br)\<lparr>br_rcu := []\<rparr>)"
  have "slot_ok i (br_ports br i)"
    using world_okD(2) [OF w(1) d(1)] d(2) w(2) slots_okD [OF bridge_okD(3) [OF bridge_liveD(1) [OF world_okD(1) [OF w(1,2)]]]]
    by (auto simp: handler_ok_def)
  then have "wstep K N w (Del_Slave b dev) ?w1"
    using port_del_eq [OF d w(2), of b] w(2) by (intro step_del_slave) (simp add: ubr_ndo_del_slave_def)
  moreover have "wstep K N ?w1 (Grace_Period b) (br_put b ?r ?w1)"
    by (rule step_grace [of _ _ "released i br" "Port_Cleanup_Rcu i" "[]"])
      (simp_all add: netdev_priv_def rcu_run_def released_def w(3))
  moreover have "orderly K w (Del_Slave b dev)" "orderly K ?w1 (Grace_Period b)"
    using d w(2) none by (simp_all add: orderly_def free_to_go_def)
  ultimately have "runs (wstep K N) (orderly K) w [Del_Slave b dev, Grace_Period b] (br_put b ?r ?w1)"
    by (auto intro: runs.intros)
  moreover have "w_bridges (br_put b ?r ?w1) b = Some ?r" "w_devs (br_put b ?r ?w1) = (w_devs w)(dev \<mapsto> unlinked b nd)"
    using d(1) by simp_all
  ultimately show thesis by (rule that)
qed

text \<open>The callbacks that wait are run, one grace period after the other.\<close>

lemma grace_drains:
  assumes "world_ok K w" "w_bridges w b = Some br"
  shows "\<exists>n w' br'. runs (wstep K N) (orderly K) w (replicate n (Grace_Period b)) w' \<and>
    w_devs w' = w_devs w \<and> w_bridges w' = (w_bridges w)(b \<mapsto> br') \<and> bridge_live K b br' \<and>
    br_rcu br' = [] \<and> br_busy br' = br_busy br \<and> br_heap br' = br_heap br \<and>
    (\<forall>i. ubr_vec_test (br_busy br) i \<longrightarrow> br_ports br' i = br_ports br i)"
  using assms
proof (induction "br_rcu br" arbitrary: w br)
  case Nil
  then have "runs (wstep K N) (orderly K) w (replicate 0 (Grace_Period b)) w" by simp
  with Nil show ?case
    by (intro exI [of _ 0] exI [of _ w] exI [of _ br]) (auto simp: world_okD(1))
next
  case (Cons cb cbs)
  note live = world_okD(1) [OF Cons(3,4)]
  from bridge_liveD(3) [OF live] Cons(2) obtain i where i: "cb = Port_Cleanup_Rcu i" "\<not> ubr_vec_test (br_busy br) i"
    by (metis rcu_ok_def list.set_intros(1))
  let ?b = "port_cleanup_rcu i (br\<lparr>br_rcu := cbs\<rparr>)"
  let ?w = "br_put b ?b w"
  have run: "rcu_run cb (br\<lparr>br_rcu := cbs\<rparr>) = Inr ?b" by (simp add: i(1) rcu_run_def)
  have step: "wstep K N w (Grace_Period b) ?w"
    by (rule step_grace [OF _ _ run]) (simp_all add: netdev_priv_def Cons(4) Cons(2) [symmetric])
  have "world_ok K ?w" by (rule world_ok_grace [OF Cons(3,4) Cons(2) [symmetric] run])
  moreover have "w_bridges ?w b = Some ?b" by simp
  moreover have "cbs = br_rcu ?b" by (simp add: port_cleanup_rcu_def)
  ultimately obtain n w' br' where
    "runs (wstep K N) (orderly K) ?w (replicate n (Grace_Period b)) w'"
    and w': "w_devs w' = w_devs ?w" "w_bridges w' = (w_bridges ?w)(b \<mapsto> br')" "bridge_live K b br'"
    "br_rcu br' = []" "br_busy br' = br_busy ?b" "br_heap br' = br_heap ?b"
    "\<forall>i. ubr_vec_test (br_busy ?b) i \<longrightarrow> br_ports br' i = br_ports ?b i"
    using Cons(1) by blast
  with step have "runs (wstep K N) (orderly K) w (replicate (Suc n) (Grace_Period b)) w'"
    by (auto intro: runs.intros simp: orderly_def)
  moreover have "br_ports br' j = br_ports br j" if "ubr_vec_test (br_busy br) j" for j
    using w'(7) that i(2) by (auto simp: port_cleanup_rcu_def)
  ultimately show ?case
    using w' by (intro exI [of _ "Suc n"] exI [of _ w'] exI [of _ br']) (simp add: port_cleanup_rcu_def)
qed

end
