(* ===== verification/Ubr_Decay.thy ===== *)
theory Ubr_Decay
  imports Ubr_System
begin

unbundle bit_operations_syntax

text \<open>
  What deletions leave behind (kernel/ubr-vlan.c, \<^verbatim>\<open>ubr_vlan_del\<close>, and kernel/ubr-port.c,
  \<^verbatim>\<open>ubr_port_del\<close>): a deleted VLAN stays on its hash bucket, and a detached port stays a
  member of its VLANs, while the grace period frees the one and clears the other.
\<close>

section \<open>A VLAN that is freed and still hashed\<close>

lemma vlan_scan_dangling:
  "a \<in> set as \<Longrightarrow> br_heap br a = None \<Longrightarrow>
     \<forall>b \<in> set as. b \<noteq> a \<longrightarrow> (\<exists>v. br_heap br b = Some v \<and> vl_vid v \<noteq> vid) \<Longrightarrow>
     vlan_scan br as vid = Inl UseAfterFree"
  by (induction as) (auto split: if_splits)

text \<open>The bridge after the delete handler, and after the grace period.\<close>

definition vlan_deleted :: "addr \<Rightarrow> ubr_vlan \<Rightarrow> ubr \<Rightarrow> ubr" where
  "vlan_deleted a v br =
     (vlan_write a (v\<lparr>vl_members := ubr_vec_zero\<rparr>) (update_port_vlan a (vl_vid v) False br))
       \<lparr>br_rcu := br_rcu br @ [Vlan_Del_Rcu a]\<rparr>"

lemma vlan_deleted_simps [simp]:
  "br_vlans (vlan_deleted a v br) = br_vlans br"
  "br_heap (vlan_deleted a v br) = (br_heap br)(a := Some (v\<lparr>vl_members := ubr_vec_zero\<rparr>))"
  "br_rcu (vlan_deleted a v br) = br_rcu br @ [Vlan_Del_Rcu a]"
  by (simp_all add: vlan_deleted_def)

lemma vlan_deleted_table:
  assumes "vlan_table_ok K br" "br_heap br a = Some v"
  shows "vlan_table_ok K (vlan_deleted a v br)" "vlan_of K (vlan_deleted a v br) = vlan_of K br"
proof -
  let ?w = "vlan_write a (v\<lparr>vl_members := ubr_vec_zero\<rparr>) br"
  have "vlan_table_ok K (vlan_deleted a v br) = vlan_table_ok K ?w"
    "vlan_of K (vlan_deleted a v br) = vlan_of K ?w"
    by (rule vlan_table_cong; simp)+
  with vt.ok_put [OF assms] vt.find_put [OF assms]
  show "vlan_table_ok K (vlan_deleted a v br)" "vlan_of K (vlan_deleted a v br) = vlan_of K br"
    by simp_all
qed

lemma nl_del_deleted:
  assumes "get_vid N info = Inr (attrs, vid)" "ubr_netlink_dev info w = Inr (Some b, w1)"
    and "w_bridges w b = Some br" "vlan_table_ok K br" "vlan_of K br vid = Some a"
    and "br_heap br a = Some v"
  shows "ubr_vlan_nl_del_cmd K N info w = Inr (0, br_put b (vlan_deleted a v br) w)"
  using nl_del_eq [OF assms] by (simp add: vlan_deleted_def)

text \<open>Once the object is freed every lookup of its VID reads freed memory.\<close>

lemma find_freed:
  assumes "vlan_table_ok K br" "vlan_of K br vid = Some a"
    and "br_vlans br' = br_vlans br" "br_heap br' a = None"
    and "\<And>b. b \<noteq> a \<Longrightarrow> br_heap br' b = br_heap br b"
  shows "ubr_vlan_find K br' vid = Inl UseAfterFree"
proof -
  let ?b = "br_vlans br (k_hash_min K vid)"
  have a: "a \<in> set ?b" using vlan_of_SomeD(2) [OF assms(1,2)] .
  have "vl_vid v \<noteq> vid" if "b \<in> set ?b" "b \<noteq> a" "br_heap br b = Some v" for b v
    using vlan_of_eqI [OF assms(1) that(1,3)] that(2) assms(2) by auto
  with vlan_table_live [OF assms(1)] assms(5)
  have "\<forall>b \<in> set ?b. b \<noteq> a \<longrightarrow> (\<exists>v. br_heap br' b = Some v \<and> vl_vid v \<noteq> vid)" by metis
  from vlan_scan_dangling [OF a assms(4) this] show ?thesis
    by (simp add: ubr_vlan_find_def assms(3))
qed

section \<open>A member that is gone\<close>

lemma deliver_dead:
  assumes K: "helpers_ok K" and clones: "\<And>j. fe_clone E j"
    and x: "ubr_vec_test (cb_vec (skb_cb s)) x" "x \<noteq> 0" "p_dev (br_ports br x) = None"
  shows "\<not> no_fault (ubr_deliver K E br s)"
proof
  assume "no_fault (ubr_deliver K E br s)"
  then obtain ts where r: "ubr_deliver K E br s = Inr ts" by (auto simp: no_fault_iff)
  have ne: "vec_ports (cb_vec (skb_cb s)) \<noteq> {}" using x(1) by (auto simp: vec_ports_def)
  note exact = deliver_exact [OF K clones r ne]
  have "x \<in> set (egress_order (cb_vec (skb_cb s)))"
    using x(1) by (simp add: set_egress_order vec_ports_def)
  then have "port_netdev br x \<in> set (map (port_netdev br) (egress_order (cb_vec (skb_cb s))))"
    by simp
  then have "None \<in> set (map tx_dev ts)"
    using exact(1) x by (simp add: port_netdev_def)
  then show False using exact(2) by auto
qed

text \<open>
  A frame for an unknown destination entering at a port without filtering, in a VLAN with a
  member whose slot has been cleared.
\<close>

lemma flood_dead:
  assumes K: "helpers_ok K" and clones: "\<And>j. fe_clone E j"
    and k: "slot_ok k (br_ports br k)" "\<not> cb_vlan_filtering (p_ingress_cb (br_ports br k))"
    and a: "cb_vlan (p_ingress_cb (br_ports br k)) = Some a" "br_heap br a = Some v"
    and x: "ubr_vec_test (vl_members v) x" "x \<noteq> k" "x \<noteq> 0" "p_dev (br_ports br x) = None"
    and dst: "f_nodes (br_fdb br) (dst_key K (vl_vid v) s) = None" "skb_h_dest s \<noteq> skb_h_source s"
    and mask: "ubr_vec_test (flood_filter v s) x"
  shows "\<not> no_fault (ubr_port_rx_handler K E k br s)"
proof -
  let ?e = "s\<lparr>skb_cb := p_ingress_cb (br_ports br k)\<rparr>"
  let ?s0 = "narrow (vl_members v) ?e"
  let ?f = "fdb_after E v ?s0 (br_fdb br)"
  let ?s1 = "narrow (fdb_filter K E v ?s0 ?f) ?s0"
  have same: "dst_key K (vl_vid v) ?e = dst_key K (vl_vid v) s"
    by (simp add: dst_key_def cong del: if_weak_cong)
  have "dst_key K (vl_vid v) ?s0 \<noteq> src_key (vl_vid v) ?s0"
    using dst by (intro dst_not_src) simp
  then have "f_nodes ?f (dst_key K (vl_vid v) ?s0) = None"
    using dst(1) same by (simp add: fdb_after_other)
  then have flt: "fdb_filter K E v ?s0 ?f = flood_filter v s"
    by (simp add: fdb_filter_def flood_filter_def)
  have ing: "ubr_vlan_ingress K br ?e = Inr (True, Some ?s0)"
    using k(2) a by (simp add: ubr_vlan_ingress_def ingress_out_eq)
  have vec: "ubr_vec_test (cb_vec (skb_cb ?s1)) x"
    using k(1) x mask flt by (auto simp: slot_ok_def vec_simps dest: test_bound)
  have "\<not> no_fault (ubr_deliver K E (br\<lparr>br_fdb := ?f\<rparr>) ?s1)"
    by (rule deliver_dead [OF K clones vec x(3)]) (simp add: x(4))
  then obtain e where fault: "ubr_deliver K E (br\<lparr>br_fdb := ?f\<rparr>) ?s1 = Inl e"
    by (cases "ubr_deliver K E (br\<lparr>br_fdb := ?f\<rparr>) ?s1") simp_all
  have fwd: "ubr_forward K E br ?e =
      andthen (ubr_deliver K E (br\<lparr>br_fdb := ?f\<rparr>) ?s1) (\<lambda>ts. Inr (False, br\<lparr>br_fdb := ?f\<rparr>, ?s1, ts))"
    using k(1) a by (simp add: forward_eq [OF ing] fdb_forward_eq [of ?s0 a] slot_ok_def)
  have "ubr_from_port br k = Inr br" using k(1) by (simp add: ubr_from_port_def slot_ok_def)
  then show ?thesis
    by (simp only: ubr_port_rx_handler_def fwd fault andthen.simps no_fault_simps not_False_eq_True)
qed

section \<open>Removing a bridge\<close>

lemma linked_slot:
  assumes "slots_linked (w_devs w) b br" "slots_ok br" "ubr_vec_test (br_busy br) i" "i \<noteq> 0"
  obtains d nd where "slot_ok i (br_ports br i)" "p_dev (br_ports br i) = Some d"
    "w_devs w d = Some nd" "nd_rx_handler_data nd = Some (b, i)"
  using assms slots_okD [OF assms(2,3)] unfolding slots_linked_def by blast

text \<open>The ports removed by the time the loop has reached slot \<open>k\<close>.\<close>

definition gone_ports :: "nat \<Rightarrow> ubr \<Rightarrow> nat list" where
  "gone_ports k br = filter (\<lambda>i. i \<noteq> 0 \<and> ubr_vec_test (br_busy br) i) [0..<k]"

lemma gone_ports_Suc:
  "gone_ports (Suc k) br =
     gone_ports k br @ (if k \<noteq> 0 \<and> ubr_vec_test (br_busy br) k then [k] else [])"
  by (simp add: gone_ports_def)

definition cleared :: "nat \<Rightarrow> ubr \<Rightarrow> ubr" where
  "cleared k br = br\<lparr>br_busy := fold ubr_vec_clear (gone_ports k br) (br_busy br),
     br_rcu := br_rcu br @ map Port_Cleanup_Rcu (gone_ports k br)\<rparr>"

definition half_gone :: "netdev \<Rightarrow> ubr \<Rightarrow> nat \<Rightarrow> world \<Rightarrow> world" where
  "half_gone b br k w =
     (br_put b (cleared k br) w)
       \<lparr>w_devs := (\<lambda>d. map_option (\<lambda>nd. if \<exists>i \<in> set (gone_ports k br). p_dev (br_ports br i) = Some d
           then unlinked b nd else nd) (w_devs w d))\<rparr>"

lemma test_fold_clear:
  "ubr_vec_test (fold ubr_vec_clear is v) j \<longleftrightarrow> ubr_vec_test v j \<and> j \<notin> set is"
  by (induction "is" arbitrary: v) (auto simp: vec_simps)

lemma dellink_step_eq:
  assumes "slots_linked (w_devs w) b br" "slots_ok br" "w_bridges w b = Some br"
  shows "dellink_step b k (half_gone b br k w) = Inr (half_gone b br (Suc k) w)"
proof -
  let ?w = "half_gone b br k w"
  have br: "w_bridges ?w b = Some (cleared k br)" by (simp add: half_gone_def)
  have busy: "ubr_vec_test (br_busy (cleared k br)) k = ubr_vec_test (br_busy br) k"
    by (auto simp: cleared_def test_fold_clear gone_ports_def)
  show ?thesis
  proof (cases "k \<noteq> 0 \<and> ubr_vec_test (br_busy br) k")
    case False
    then have "half_gone b br (Suc k) w = ?w"
      by (simp only: half_gone_def cleared_def gone_ports_Suc) simp
    with False br busy show ?thesis by (auto simp: dellink_step_def netdev_priv_def)
  next
    case True
    then obtain d nd where slot: "slot_ok k (br_ports br k)" "p_dev (br_ports br k) = Some d"
      "w_devs w d = Some nd" "nd_rx_handler_data nd = Some (b, k)"
      using linked_slot [OF assms(1,2)] by blast
    have new: "\<not> (\<exists>i \<in> set (gone_ports k br). p_dev (br_ports br i) = Some d)"
    proof
      assume "\<exists>i \<in> set (gone_ports k br). p_dev (br_ports br i) = Some d"
      then obtain i where i: "i < k" "i \<noteq> 0" "ubr_vec_test (br_busy br) i" "p_dev (br_ports br i) = Some d"
        by (auto simp: gone_ports_def)
      from linked_slot [OF assms(1,2) i(3,2)] i(4) slot(3,4) i(1) show False by force
    qed
    with slot(3) have d: "w_devs ?w d = Some nd" by (simp add: half_gone_def)
    have ports: "br_ports (cleared k br) = br_ports br" by (simp add: cleared_def)
    have "dellink_step b k ?w = Inr (br_put b (released k (cleared k br)) (dev_upd d (unlinked b) ?w))"
      using True slot br busy port_del_eq [OF d slot(4) br, of b] ports
      by (simp add: dellink_step_def netdev_priv_def)
    moreover have "released k (cleared k br) = cleared (Suc k) br"
      using True by (simp add: released_def cleared_def gone_ports_Suc)
    moreover have "w_devs (dev_upd d (unlinked b) ?w) = w_devs (half_gone b br (Suc k) w)"
    proof
      fix x
      show "w_devs (dev_upd d (unlinked b) ?w) x = w_devs (half_gone b br (Suc k) w) x"
        using True d slot(2,3) new by (cases "x = d") (auto simp: half_gone_def gone_ports_Suc)
    qed
    ultimately show ?thesis
      by (auto intro!: world_eqI simp: half_gone_def)
  qed
qed

lemma half_gone_0: "w_bridges w b = Some br \<Longrightarrow> half_gone b br 0 w = w"
  by (rule world_eqI) (auto simp: half_gone_def gone_ports_def cleared_def option.map_ident)

lemma dellink_loop:
  assumes "slots_linked (w_devs w) b br" "slots_ok br" "w_bridges w b = Some br"
  shows "foldres (dellink_step b) [0..<k] w = Inr (half_gone b br k w)"
proof (induction k)
  case 0
  show ?case by (simp add: half_gone_0 [OF assms(3)])
next
  case (Suc k)
  then show ?case by (simp add: foldres_append dellink_step_eq [OF assms])
qed

lemma gone_ports_all: "gone_ports UBR_MAX_PORTS br = filter (\<lambda>i. i \<noteq> 0) (ubr_vec_foreach (br_busy br))"
  by (simp add: gone_ports_def ubr_vec_foreach_def vec_bits_from_def conj_commute)

lemma dev_dellink_eq:
  assumes "slots_linked (w_devs w) b br" "slots_ok br" "w_bridges w b = Some br"
  shows "ubr_dev_dellink walk b w =
    (let w1 = half_gone b br UBR_MAX_PORTS w; br1 = cleared UBR_MAX_PORTS br in
     Inr ((br_put b (br1\<lparr>br_fdb := ubr_fdb_dellink (w_jiffies w) walk (br_fdb br)\<rparr>) w1)
       \<lparr>w_devs := (w_devs w1)(b := None)\<rparr>))"
  by (simp add: ubr_dev_dellink_def dellink_loop [OF assms] netdev_priv_def half_gone_def
      ubr_vlan_dellink_def cleared_def Let_def)

end
