(* ===== verification/Ubr_Sample.thy ===== *)
theory Ubr_Sample
  imports Ubr_Decay
begin

text \<open>
  A concrete machine: a kernel whose helpers do what their documentation says in the plainest
  way, a bridge of three ports with two VLANs, frames. The witnesses of the properties are
  stated on them.
\<close>

section \<open>A kernel\<close>

definition payload_tci :: "sk_buff \<Rightarrow> u16" where
  "payload_tci s =
     (case skb_payload s of
        hi # lo # _ \<Rightarrow> push_bit 8 (ucast hi) OR ucast lo
      | _ \<Rightarrow> 0)"

definition plain_untag :: "sk_buff \<Rightarrow> skb_result" where
  "plain_untag s =
     (if length (skb_payload s) < 4 then SkbGone
      else SkbSame ((vlan_hwaccel_put_tag s (skb_protocol s) (payload_tci s))
             \<lparr>skb_payload := drop 4 (skb_payload s)\<rparr>))"

definition plain_insert_tag :: "sk_buff \<Rightarrow> u16 \<Rightarrow> u16 \<Rightarrow> sk_buff" where
  "plain_insert_tag s proto tci =
     (vlan_hwaccel_clear_tag s)\<lparr>skb_protocol := proto,
        skb_payload := [ucast (drop_bit 8 tci), ucast tci, ucast (drop_bit 8 (skb_protocol s)),
                        ucast (skb_protocol s)] @ skb_payload s\<rparr>"

definition plain_push :: "sk_buff \<Rightarrow> u16 \<Rightarrow> u16 \<Rightarrow> sk_buff" where
  "plain_push s proto tci =
     vlan_hwaccel_put_tag
       (if skb_vlan_tag_present s then plain_insert_tag s (skb_vlan_proto s) (skb_vlan_tci s) else s)
       proto tci"

definition plain_kernel :: kernel where
  "plain_kernel =
     \<lparr>k_big_endian = False, k_config_ipv6 = True,
      k_hash_min = (\<lambda>vid. unat vid mod 256),
      k_msecs_to_jiffies = (\<lambda>ms. ucast ms div 4),
      k_skb_vlan_untag = plain_untag,
      k_vlan_insert_tag_set_proto = (\<lambda>s p t. Some (plain_insert_tag s p t)),
      k_skb_vlan_push = plain_push,
      k_vlan_get_protocol = (\<lambda>s p. (if p = 0 then 8 else p, ETH_HLEN))\<rparr>"

lemma plain_kernel_ok: "helpers_ok plain_kernel" "protocol_ok plain_kernel"
  by (auto simp: helpers_ok_def protocol_ok_def plain_kernel_def plain_untag_def
      plain_insert_tag_def plain_push_def keeps_frame_def split: if_splits)

definition plain_env :: "u64 \<Rightarrow> frame_env" where
  "plain_env j = \<lparr>fe_jiffies = j, fe_node_alloc = True, fe_insert_err = 0,
     fe_clone = (\<lambda>_. True), fe_dev_addr = 0x020000000001\<rparr>"

lemma plain_env_simps [simp]:
  "fe_jiffies (plain_env j) = j" "fe_node_alloc (plain_env j)" "fe_insert_err (plain_env j) = 0"
  "fe_clone (plain_env j) i"
  by (simp_all add: plain_env_def)

section \<open>A bridge\<close>

text \<open>
  Device 1 is the bridge, devices 2 and 3 are in slots 1 and 2. VLAN 0 has them all. VLAN 10
  is the PVID of slots 1 and 2 and has slot 1 untagged and slot 2 tagged.
\<close>

definition sample_vec :: "nat list \<Rightarrow> ubr_vec" where
  "sample_vec is = fold ubr_vec_set is 0"

definition sample_port :: "nat \<Rightarrow> netdev \<Rightarrow> addr \<Rightarrow> u16 \<Rightarrow> ubr_port" where
  "sample_port i dev vl pvid =
     \<lparr>p_dev = Some dev,
      p_ingress_cb = \<lparr>cb_pidx = of_nat i, cb_vlan_filtering = (pvid \<noteq> 0), cb_sa_filterning = False,
        cb_sa_learning = True, cb_ctrl = False, cb_vlan = Some vl,
        cb_vec = ubr_vec_clear i ubr_vec_fill\<rparr>,
      p_pvid = pvid\<rparr>"

definition sample_vlan :: "u16 \<Rightarrow> nat list \<Rightarrow> nat list \<Rightarrow> ubr_vlan" where
  "sample_vlan vid ms tags =
     (new_vlan 1 vid)\<lparr>vl_members := sample_vec ms, vl_tagged := sample_vec tags\<rparr>"

definition sample_fdb :: ubr_fdb where
  "sample_fdb = \<lparr>f_nodes = (\<lambda>_. None), f_ageing_timeout = 75000, f_age_work = Some 37500\<rparr>"

definition sample :: ubr where
  "sample =
     \<lparr>br_dev = 1, br_active = 0, br_vlan_proto = ETH_P_8021Q,
      br_vlans = (\<lambda>h. if h = 0 then [100] else if h = 10 then [101] else []),
      br_fdb = sample_fdb, br_busy = sample_vec [0, 1, 2],
      br_ports = (\<lambda>_. zero_port)(0 := sample_port 0 1 100 0, 1 := sample_port 1 2 101 10,
                               2 := sample_port 2 3 101 10),
      br_heap = [100 \<mapsto> sample_vlan 0 [0, 1, 2] [], 101 \<mapsto> sample_vlan 10 [1, 2] [2]],
      br_rcu = []\<rparr>"

lemma test_sample_vec [simp]: "ubr_vec_test (sample_vec is) j \<longleftrightarrow> j \<in> set is \<and> j < 256"
proof -
  have "ubr_vec_test (fold ubr_vec_set is v) j \<longleftrightarrow> (j \<in> set is \<and> j < 256) \<or> ubr_vec_test v j" for v
    by (induction "is" arbitrary: v) (auto simp: vec_simps)
  then show ?thesis by (simp add: sample_vec_def)
qed

lemma sample_vlan_simps [simp]:
  "vl_vid (sample_vlan vid ms ts) = vid" "vl_members (sample_vlan vid ms ts) = sample_vec ms"
  "vl_tagged (sample_vlan vid ms ts) = sample_vec ts" "vl_sa_learning (sample_vlan vid ms ts)"
  "vl_ucflood (sample_vlan vid ms ts) = ubr_vec_fill"
  "vl_bcflood (sample_vlan vid ms ts) = ubr_vec_fill"
  "vl_mcflood (sample_vlan vid ms ts) = ubr_vec_fill"
  by (simp_all add: sample_vlan_def)

lemma sample_simps [simp]:
  "br_busy sample = sample_vec [0, 1, 2]" "br_fdb sample = sample_fdb" "br_rcu sample = []"
  "br_dev sample = 1" "br_heap sample 100 = Some (sample_vlan 0 [0, 1, 2] [])"
  "br_heap sample 101 = Some (sample_vlan 10 [1, 2] [2])"
  "br_ports sample 0 = sample_port 0 1 100 0" "br_ports sample (Suc 0) = sample_port 1 2 101 10"
  "br_ports sample 1 = sample_port 1 2 101 10" "br_ports sample 2 = sample_port 2 3 101 10"
  by (simp_all add: sample_def)

lemma sample_port_simps [simp]:
  "p_dev (sample_port i d vl v) = Some d" "p_pvid (sample_port i d vl v) = v"
  by (simp_all add: sample_port_def)

lemma sample_heap: "br_heap sample a = Some v \<Longrightarrow> vlan_members_ok (br_busy sample) v"
  by (auto simp: sample_def vlan_members_ok_def split: if_splits)

lemma sample_vlan_of [simp]:
  "vlan_of plain_kernel sample 0 = Some 100" "vlan_of plain_kernel sample 10 = Some 101"
  by (simp_all add: vlan_of_def ubr_vlan_find_def sample_def plain_kernel_def)

lemma sample_table: "vlan_table_ok plain_kernel sample"
  by (auto simp: vlan_table_ok_def sample_def plain_kernel_def)

lemma sample_ok: "bridge_ok plain_kernel sample"
proof -
  have cases: "i = 0 \<or> i = 1 \<or> i = 2" if "ubr_vec_test (br_busy sample) i" for i
    using that by auto
  have "slot_ok i (br_ports sample i)" if "ubr_vec_test (br_busy sample) i" for i
    using cases [OF that] by (auto simp: slot_ok_def sample_port_def)
  moreover have "br_ports sample i = zero_port" if "\<not> ubr_vec_test (br_busy sample) i" for i
    using that by (auto simp: sample_def)
  ultimately have "slots_ok sample" by (simp add: slots_ok_def)
  moreover have "port_vlan_ok plain_kernel sample (br_ports sample i)"
    if "ubr_vec_test (br_busy sample) i" for i
    using cases [OF that] by (auto simp: port_vlan_ok_def sample_port_def)
  then have "pvid_ok plain_kernel sample" by (simp add: pvid_ok_def)
  moreover have "members_ok plain_kernel sample"
    using sample_heap by (auto simp: members_ok_def)
  moreover have "fdb_ok sample_fdb" by (simp add: fdb_ok_def sample_fdb_def)
  ultimately show ?thesis using sample_table by (simp add: bridge_ok_def)
qed

section \<open>Frames\<close>

definition sample_frame :: "mac \<Rightarrow> mac \<Rightarrow> sk_buff" where
  "sample_frame dst src =
     \<lparr>skb_dev = None, skb_protocol = 8, skb_vlan_tag_present = False, skb_vlan_proto = 0,
      skb_vlan_tci = 0, skb_h_dest = dst, skb_h_source = src, skb_ip_daddr = 0,
      skb_ip6_daddr = 0, skb_pkt_type = PACKET_OTHERHOST, skb_data = 14, skb_mac_len = 14,
      skb_network_header = 14, skb_payload = [], skb_cb = zero_cb\<rparr>"

lemma sample_frame_simps [simp]:
  "skb_h_dest (sample_frame d s) = d" "skb_h_source (sample_frame d s) = s"
  by (simp_all add: sample_frame_def)

text \<open>An untagged frame belongs to the VLAN of its port.\<close>

lemma sample_ingress [simp]:
  "ingress_vlan plain_kernel sample (enter_port sample 1 (sample_frame d s)) = Some 101"
  "ingress_vlan plain_kernel sample (enter_port sample (Suc 0) (sample_frame d s)) = Some 101"
  "ingress_vlan plain_kernel sample (enter_port sample 2 (sample_frame d s)) = Some 101"
  by (simp_all add: ingress_vlan_def ingress_untag_def ingress_classify_def frame_vlan_def
      sample_port_def enter_port_def sample_frame_def sample_def ETH_P_8021Q_def)

lemma sample_rx:
  assumes "i = 1 \<or> i = 2" "bridge_ok plain_kernel (sample\<lparr>br_fdb := f\<rparr>)"
  shows "\<exists>x. ubr_port_rx_handler plain_kernel E i (sample\<lparr>br_fdb := f\<rparr>) (sample_frame d s) = Inr x"
proof -
  have i: "ubr_vec_test (br_busy (sample\<lparr>br_fdb := f\<rparr>)) i" using assms by auto
  show ?thesis
    using rx_no_fault [OF plain_kernel_ok assms(2) i, of E "sample_frame d s"] assms(1)
    by (auto simp: no_fault_iff)
qed

lemma sample_same: "sample\<lparr>br_fdb := sample_fdb\<rparr> = sample"
  by (simp add: sample_def)

text \<open>
  With an empty table a frame from slot 1 floods VLAN 10: to slot 2, as slot 1 has sent it.
\<close>

lemma sample_flood:
  assumes "d \<noteq> s"
  obtains r br' s' t where
    "ubr_port_rx_handler plain_kernel (plain_env j) 1 sample (sample_frame d s) = Inr (r, br', s', [t])"
    "tx_dev t = Some 3" "cb_vlan (skb_cb s') = Some 101"
proof -
  let ?rx = "ubr_port_rx_handler plain_kernel (plain_env j) 1 sample (sample_frame d s)"
  have i: "ubr_vec_test (br_busy sample) 1" by simp
  obtain r br' s' ts where rx: "?rx = Inr (r, br', s', ts)"
    using sample_rx [of 1 sample_fdb "plain_env j" d s] sample_ok by (auto simp: sample_same)
  note facts = plain_kernel_ok(1) sample_ok i rx
  have vl: "cb_vlan (skb_cb s') = Some 101" using rx_cb_vlan [OF facts] by simp
  have "fdb_filter plain_kernel (plain_env j) (sample_vlan 10 [1, 2] [2]) s' (br_fdb br') =
      flood_filter (sample_vlan 10 [1, 2] [2]) s'"
    by (rule rx_unknown(1) [OF facts vl]) (use assms in \<open>simp_all add: sample_fdb_def\<close>)
  then have out: "{2} = {x. x \<noteq> 1 \<and> ubr_vec_test (vl_members (sample_vlan 10 [1, 2] [2])) x \<and>
      ubr_vec_test (fdb_filter plain_kernel (plain_env j) (sample_vlan 10 [1, 2] [2]) s'
        (br_fdb br')) x}"
    by (auto simp: flood_filter_def vec_simps)
  have "\<exists>js. distinct js \<and> set js = {2} \<and> map tx_dev ts = map (port_netdev sample) js"
    using rx_exact [OF facts _ vl _ _ out] by simp
  then obtain js where "distinct js" "set js = {2}" and ts: "map tx_dev ts = map (port_netdev sample) js"
    by blast
  then have "js = [2]" by (cases js; cases "tl js") auto
  with ts obtain t where "ts = [t]" "tx_dev t = Some 3" by (auto simp: port_netdev_def)
  with rx vl show thesis by (intro that) simp_all
qed

section \<open>A run\<close>

text \<open>A run that creates a bridge and enslaves a device.\<close>

definition plain_dev :: "mac \<Rightarrow> net_device" where
  "plain_dev m = \<lparr>nd_is_ubr = False, nd_flags = 0, nd_type = ARPHRD_ETHER, nd_addr_len = ETH_ALEN,
     nd_dev_addr = m, nd_uses_dsa = False, nd_master = None, nd_priv_flags = 0,
     nd_promiscuity = 0, nd_allmulti = 0, nd_rx_handler_data = None, nd_needed_headroom = 0,
     nd_fwd_headroom = 32, nd_rx_headroom = 0, nd_refcnt = 1\<rparr>"

definition all_ok :: port_add_env where
  "all_ok = \<lparr>pa_link = 0, pa_promisc = 0, pa_allmulti = 0, pa_rx = 0\<rparr>"

definition plain_new :: newlink_env where
  "plain_new = \<lparr>nl_mem = Some 100, nl_rht_err = 0, nl_register_err = 0, nl_walk = []\<rparr>"

definition bridge_dev :: net_device where
  "bridge_dev = ubr_dev_setup 0x020000000001 (plain_dev 0)"

lemma plain_dev_allowed:
  "is_valid_ether_addr m \<Longrightarrow> port_add_allowed (plain_dev m) = 0"
  by (simp add: port_add_allowed_def plain_dev_def)

lemma all_ok_error [simp]: "first_error all_ok = 0"
  by (simp add: first_error_def all_ok_def)

definition sample_bridge :: ubr where
  "sample_bridge = new_bridge plain_kernel plain_new 0 1 100"

definition sample_world :: world where
  "sample_world = \<lparr>w_devs = [1 \<mapsto> bridge_dev, 2 \<mapsto> plain_dev 0x020000000002],
     w_bridges = [1 \<mapsto> sample_bridge], w_jiffies = 0\<rparr>"

lemma sample_world_simps [simp]:
  "w_devs sample_world 1 = Some bridge_dev"
  "w_devs sample_world 2 = Some (plain_dev 0x020000000002)"
  "w_bridges sample_world 1 = Some sample_bridge" "w_jiffies sample_world = 0"
  by (simp_all add: sample_world_def)

lemma sample_bridge_facts:
  "bridge_ok plain_kernel sample_bridge" "br_dev sample_bridge = 1" "br_rcu sample_bridge = []"
  "br_busy sample_bridge = sample_vec [0]" "free_slot sample_bridge = 1"
proof -
  show "bridge_ok plain_kernel sample_bridge" "br_dev sample_bridge = 1" "br_rcu sample_bridge = []"
    using new_bridge_live [of plain_kernel 1 plain_new 0 100]
    by (simp_all add: bridge_live_def sample_bridge_def)
  show busy: "br_busy sample_bridge = sample_vec [0]"
    by (simp add: sample_bridge_def new_bridge_init(3) sample_vec_def)
  have "search (\<lambda>i. \<not> ubr_vec_test (sample_vec [0]) i) UBR_MAX_PORTS = 1"
    by (rule search_eqI) (simp_all add: UBR_MAX_PORTS_256)
  then show "free_slot sample_bridge = 1"
    by (simp add: free_slot_def find_first_zero_bit_def busy)
qed

text \<open>A table that has one station of VLAN 10.\<close>

definition station_key :: "mac \<Rightarrow> ubr_fdb_addr" where
  "station_key m = \<lparr>a_addr = UBR_ADDR_MAC m, a_vid = 10\<rparr>"

definition station_node :: "mac \<Rightarrow> nat \<Rightarrow> u64 \<Rightarrow> ubr_fdb_node" where
  "station_node m i t = \<lparr>n_addr = station_key m, n_vec = sample_vec [i],
     n_proto = UBR_FDB_DYNAMIC, n_offloaded = False, n_tstamp = t\<rparr>"

definition station_fdb :: "mac \<Rightarrow> nat \<Rightarrow> u64 \<Rightarrow> ubr_fdb" where
  "station_fdb m i t = sample_fdb\<lparr>f_nodes := [station_key m \<mapsto> station_node m i t]\<rparr>"

definition port_flush_op :: "u8 \<Rightarrow> ubr_fdb_flush_op" where
  "port_flush_op i = \<lparr>op_per_port = True, op_pidx = i, op_per_vlan = False, op_vid = 0,
     op_per_proto = False, op_proto = UBR_FDB_DYNAMIC, op_old = False\<rparr>"

text \<open>The new bridge has its own device in slot 0 and VLAN 0 at address 100.\<close>

lemma sample_base:
  "vlan_of plain_kernel (base_bridge plain_kernel plain_new 0 1 100) 0 = Some 100"
  "br_heap (base_bridge plain_kernel plain_new 0 1 100) 100 = Some (new_vlan 1 0)"
  by (simp_all add: base_bridge_def vlan_add_def vlan_of_def ubr_vlan_find_def hash_add_def
      plain_kernel_def)

lemma sample_bridge_port: "p_dev (br_ports sample_bridge 0) = Some 1"
  by (simp add: sample_bridge_def new_bridge_def enslaved_def sample_base)

lemma sample_bridge_vlan:
  "vlan_of plain_kernel sample_bridge 0 = Some 100"
  "br_heap sample_bridge 100 = Some (add_member 0 False (new_vlan 1 0))"
proof -
  have "vlan_table_ok plain_kernel (base_bridge plain_kernel plain_new 0 1 100)"
    by (rule bridge_okD(1) [OF base_bridge_ok])
  from vlan_write_find [OF this sample_base(2), of "add_member 0 False (new_vlan 1 0)"]
  show "vlan_of plain_kernel sample_bridge 0 = Some 100"
    by (simp add: sample_bridge_def new_bridge_def enslaved_def sample_base take_slot_table
        add_member_def)
  show "br_heap sample_bridge 100 = Some (add_member 0 False (new_vlan 1 0))"
    by (simp add: sample_bridge_def new_bridge_def enslaved_def sample_base)
qed

lemma sample_newlink:
  "ubr_dev_newlink plain_kernel plain_new 1 bridge_dev (boot [2 \<mapsto> plain_dev 0x020000000002] 0) =
     Inr (0, sample_world)"
  by (simp add: newlink_result plain_new_def boot_def sample_world_def sample_bridge_def
      br_put_def fun_eq_iff)

text \<open>Enslaving device 2, with whatever outcome of the four calls.\<close>

lemma sample_add:
  "\<exists>w'. ubr_port_add plain_kernel P 1 2 sample_world = Inr (first_error P, w') \<and>
    (if first_error P = 0
     then same_devs (br_put 1 (enslaved plain_kernel 1 2 sample_bridge)
            (dev_upd 2 (linked 1 1) sample_world)) w'
     else same_devs (br_put 1 (leftover plain_kernel 1 sample_bridge) sample_world) w')"
proof -
  have allowed: "port_add_allowed (plain_dev 0x020000000002) = 0"
    by (rule plain_dev_allowed) (simp add: is_valid_ether_addr_def is_multicast_ether_addr_def)
  have slot: "free_slot sample_bridge \<noteq> UBR_MAX_PORTS"
    "Port_Cleanup_Rcu (free_slot sample_bridge) \<notin> set (br_rcu sample_bridge)"
    by (simp_all add: sample_bridge_facts UBR_MAX_PORTS_256)
  show ?thesis
    using port_add_done [OF sample_world_simps(3,2,1) sample_bridge_facts(1,2) allowed slot, of P]
    unfolding sample_bridge_facts(5) .
qed

section \<open>Requests\<close>

text \<open>A netlink library that reads the first attribute of each type.\<close>

definition attr_u16 :: "nat \<Rightarrow> nested \<Rightarrow> u16 option" where
  "attr_u16 t nest = (case map_of nest t of Some (NlU16 x) \<Rightarrow> Some x | _ \<Rightarrow> None)"

definition attr_u32 :: "nat \<Rightarrow> nested \<Rightarrow> u32 option" where
  "attr_u32 t nest = (case map_of nest t of Some (NlU32 x) \<Rightarrow> Some x | _ \<Rightarrow> None)"

definition plain_netlink :: netlink_lib where
  "plain_netlink =
     \<lparr>nl_parse_vlan = (\<lambda>nest. (0, \<lparr>va_vid = attr_u16 UBR_NLA_VLAN_VID nest,
        va_port = attr_u32 UBR_NLA_VLAN_PORT nest, va_tagged = attr_u32 UBR_NLA_VLAN_TAGGED nest,
        va_learning = attr_u32 UBR_NLA_VLAN_LEARNING nest\<rparr>)),
      nl_parse_port = (\<lambda>nest. (0, \<lparr>pa_ifindex = attr_u32 UBR_NLA_PORT_IFINDEX nest,
        pa_pvid = attr_u16 UBR_NLA_PORT_PVID nest\<rparr>))\<rparr>"

definition request :: "netdev \<Rightarrow> nested option \<Rightarrow> nested option \<Rightarrow> genl_info" where
  "request b vlan port = \<lparr>gi_attrs = Some \<lparr>ia_ifindex = Some b, ia_fdb = None, ia_vlan = vlan,
     ia_port = port\<rparr>\<rparr>"

definition vlan_request :: "u16 \<Rightarrow> genl_info" where
  "vlan_request vid = request 1 (Some [(UBR_NLA_VLAN_VID, NlU16 vid)]) None"

definition member_request :: "u16 \<Rightarrow> netdev \<Rightarrow> u32 \<Rightarrow> genl_info" where
  "member_request vid port tagged = request 1 (Some [(UBR_NLA_VLAN_VID, NlU16 vid),
     (UBR_NLA_VLAN_PORT, NlU32 port), (UBR_NLA_VLAN_TAGGED, NlU32 tagged)]) None"

definition pvid_request :: "netdev \<Rightarrow> u16 \<Rightarrow> genl_info" where
  "pvid_request port pvid = request 1 None (Some [(UBR_NLA_PORT_IFINDEX, NlU32 port),
     (UBR_NLA_PORT_PVID, NlU16 pvid)])"

lemmas nla_nums = UBR_NLA_VLAN_VID_def UBR_NLA_VLAN_PORT_def UBR_NLA_VLAN_TAGGED_def
  UBR_NLA_VLAN_LEARNING_def UBR_NLA_PORT_IFINDEX_def UBR_NLA_PORT_PVID_def

lemmas request_defs = request_def vlan_request_def member_request_def pvid_request_def
  plain_netlink_def attr_u16_def attr_u32_def nla_nums

lemma request_vid [simp]:
  "\<exists>attrs. get_vid plain_netlink (vlan_request vid) = Inr (attrs, vid)"
  by (simp add: get_vid_def request_defs)

lemma member_request_attrs:
  obtains attrs where "get_vid plain_netlink (member_request vid port tagged) = Inr (attrs, vid)"
    "get_port attrs = Inr (port, tagged)"
  by (simp add: get_vid_def get_port_def request_defs)

lemma pvid_request_attrs:
  obtains attrs where "get_port_attrs plain_netlink (pvid_request port pvid) = Inr (attrs, port)"
    "pa_pvid attrs = Some pvid"
  by (simp add: get_port_attrs_def request_defs)

text \<open>The bridge \<open>sample\<close> with its devices.\<close>

definition office :: world where
  "office = \<lparr>w_devs = [1 \<mapsto> bridge_dev, 2 \<mapsto> plain_dev 0x020000000002,
     3 \<mapsto> plain_dev 0x020000000003, 4 \<mapsto> plain_dev 0x020000000004],
     w_bridges = [1 \<mapsto> sample], w_jiffies = 0\<rparr>"

lemma office_simps [simp]:
  "w_devs office 1 = Some bridge_dev" "w_devs office 2 = Some (plain_dev 0x020000000002)"
  "w_devs office 3 = Some (plain_dev 0x020000000003)"
  "w_devs office 4 = Some (plain_dev 0x020000000004)"
  "w_bridges office 1 = Some sample" "w_jiffies office = 0"
  by (simp_all add: office_def)

lemma office_dev:
  "ubr_netlink_dev (request 1 v p) w = Inr (Some 1, hold 1 w)" if "w_devs w 1 = Some bridge_dev"
  using that
  by (simp add: ubr_netlink_dev_def request_def get_by_index_eq dev_at_def hold_def
      bridge_dev_def ubr_dev_setup_def)

lemma office_requests [simp]:
  "ubr_netlink_dev (vlan_request vid) office = Inr (Some 1, hold 1 office)"
  "ubr_netlink_dev (member_request vid port t) office = Inr (Some 1, hold 1 office)"
  "ubr_netlink_dev (pvid_request port pvid) office = Inr (Some 1, hold 1 office)"
  by (simp_all add: vlan_request_def member_request_def pvid_request_def office_dev)

lemma sample_port_of:
  "ubr_port_find sample (Some 2) = 1" "ubr_port_find sample (Some 3) = 2"
  "ubr_port_find sample (Some 4) = - ENOENT"
proof -
  have busy: "i = 0 \<or> i = 1 \<or> i = 2" if "ubr_vec_test (br_busy sample) i" for i
    using that by auto
  show "ubr_port_find sample (Some 2) = 1"
    by (rule port_find_result [of sample 2]) (use busy in \<open>force dest: busy\<close>)+
  show "ubr_port_find sample (Some 3) = 2"
    by (rule port_find_result [of sample 3]) (use busy in \<open>force dest: busy\<close>)+
  show "ubr_port_find sample (Some 4) = - ENOENT"
    by (rule port_find_result [of sample 4]) (use busy in \<open>force dest: busy\<close>)+
qed

section \<open>A port that leaves and comes back\<close>

definition joined_bridge :: ubr where
  "joined_bridge = enslaved plain_kernel 1 2 sample_bridge"

lemma sample_slot:
  "free_slot sample_bridge \<noteq> UBR_MAX_PORTS"
  "Port_Cleanup_Rcu (free_slot sample_bridge) \<notin> set (br_rcu sample_bridge)"
  by (simp_all add: sample_bridge_facts UBR_MAX_PORTS_256)

lemmas joined_init = enslaved_init [OF sample_bridge_facts(1) sample_slot, of 2,
  unfolded sample_bridge_facts(5), folded joined_bridge_def]

lemma joined_bridge_busy:
  "ubr_vec_test (br_busy joined_bridge) i \<longleftrightarrow> i = 0 \<or> i = 1"
  "ubr_vec_clear 1 (br_busy joined_bridge) = br_busy sample_bridge"
proof -
  have "\<not> ubr_vec_test (br_busy sample_bridge) 1" by (simp add: sample_bridge_facts(4))
  from pv.set_then_clear [OF this] show "ubr_vec_clear 1 (br_busy joined_bridge) = br_busy sample_bridge"
    unfolding joined_init(3) .
  show "ubr_vec_test (br_busy joined_bridge) i \<longleftrightarrow> i = 0 \<or> i = 1"
    by (auto simp: joined_init(3) sample_bridge_facts(4) vec_simps)
qed

lemma joined_bridge_dev:
  "ubr_vec_test (br_busy joined_bridge) i \<Longrightarrow> p_dev (br_ports joined_bridge i) = Some 2 \<longleftrightarrow> i = 1"
proof -
  have "p_dev (br_ports sample_bridge 0) = Some 1"
    using enslaved_init(4) [OF base_bridge_ok base_slot, of plain_kernel plain_new 0 1 100 1 0]
    by (simp add: sample_bridge_def new_bridge_def base_free_slot)
  then show "ubr_vec_test (br_busy joined_bridge) i \<Longrightarrow> ?thesis"
    by (auto simp: joined_init(4) joined_bridge_busy(1))
qed

lemma joined_bridge_facts:
  "bridge_ok plain_kernel joined_bridge" "br_rcu joined_bridge = []"
  "ubr_port_find joined_bridge (Some 2) = int 1"
  by (rule joined_init(2), simp add: joined_bridge_def enslaved_def sample_bridge_facts(3) split: option.split)
    (rule port_find_result [of joined_bridge 2], use joined_bridge_dev joined_bridge_busy(1) in auto)

lemma joined_bridge_pvid: "p_pvid (br_ports joined_bridge i) = 0"
  by (auto simp: joined_bridge_def sample_bridge_def new_bridge_def enslaved_def base_bridge_def
      init_port_def zero_port_def split: option.splits)

lemma joined_bridge_heap: "br_heap joined_bridge a \<noteq> None \<Longrightarrow> a = 100"
  by (auto simp: joined_bridge_def enslaved_def sample_bridge_def new_bridge_def base_bridge_def
      split: option.splits if_splits)

lemma sample_joined:
  obtains w bd nd where
    "runs (wstep plain_kernel N) (orderly plain_kernel) (boot [2 \<mapsto> plain_dev 0x020000000002] 0)
       [New_Bridge plain_new 1 bridge_dev, Add_Slave all_ok 1 2] w"
    "w_bridges w 1 = Some joined_bridge" "w_devs w 1 = Some bd" "nd_is_ubr bd" "w_devs w 2 = Some nd"
    "sans_headroom nd = sans_headroom (linked 1 1 (plain_dev 0x020000000002))"
proof -
  let ?boot = "boot [2 \<mapsto> plain_dev 0x020000000002] 0"
  obtain w where add: "ubr_port_add plain_kernel all_ok 1 2 sample_world = Inr (0, w)"
    and w: "same_devs (br_put 1 joined_bridge (dev_upd 2 (linked 1 1) sample_world)) w"
    using sample_add [of all_ok] by (auto simp: joined_bridge_def)
  have "wstep plain_kernel N ?boot (New_Bridge plain_new 1 bridge_dev) sample_world"
    using step_newlink [OF sample_newlink, of N] by simp
  moreover have "wstep plain_kernel N sample_world (Add_Slave all_ok 1 2) w"
    using add by (intro step_add_slave) (simp add: ubr_ndo_add_slave_def)
  moreover have "orderly plain_kernel ?boot (New_Bridge plain_new 1 bridge_dev)"
    "orderly plain_kernel sample_world (Add_Slave all_ok 1 2)"
    by (simp_all add: orderly_def boot_def bridge_dev_def ubr_dev_setup_def plain_dev_def sample_bridge_facts)
  ultimately have run: "runs (wstep plain_kernel N) (orderly plain_kernel) ?boot
       [New_Bridge plain_new 1 bridge_dev, Add_Slave all_ok 1 2] w"
    by (auto intro: runs.intros)
  obtain bd where bd: "w_devs w 1 = Some bd" "sans_headroom bd = sans_headroom bridge_dev"
    using same_devs_dev [OF w, of 1 bridge_dev] by auto
  from bd(2) have "nd_is_ubr (sans_headroom bd) = nd_is_ubr (sans_headroom bridge_dev)" by simp
  then have ubr: "nd_is_ubr bd" by (simp add: sans_headroom_def bridge_dev_def ubr_dev_setup_def)
  obtain nd where "w_devs w 2 = Some nd"
    "sans_headroom nd = sans_headroom (linked 1 1 (plain_dev 0x020000000002))"
    using same_devs_dev [OF w, of 2 "linked 1 1 (plain_dev 0x020000000002)"] by auto
  moreover have "w_bridges w 1 = Some joined_bridge" using w by (simp add: same_devs_def)
  ultimately show thesis using run bd(1) ubr by (intro that)
qed

lemma sample_boot_ok: "world_ok K (boot [2 \<mapsto> plain_dev m] 0)"
  by (rule world_ok_boot) (auto simp: plain_dev_def split: if_splits)

text \<open>The port of the sample is taken out of VLAN 0, the only VLAN it is a member of.\<close>

lemma joined_detached:
  assumes w: "world_ok plain_kernel w" "w_bridges w 1 = Some joined_bridge" "w_devs w 1 = Some bd"
    "nd_is_ubr bd" "w_devs w 2 = Some nd"
  obtains br where
    "wstep plain_kernel plain_netlink w (Netlink UBR_NL_VLAN_DETACH (member_request 0 2 0) None) (br_put 1 br w)"
    "orderly plain_kernel w (Netlink UBR_NL_VLAN_DETACH (member_request 0 2 0) None)"
    "world_ok plain_kernel (br_put 1 br w)" "no_member plain_kernel br 1" "br_rcu br = []"
    "br_busy br = br_busy joined_bridge" "br_ports br = br_ports joined_bridge"
proof -
  let ?K = plain_kernel and ?info = "member_request 0 2 0"
  note ok = joined_bridge_facts(1)
  obtain a v where a: "vlan_of ?K joined_bridge 0 = Some a" "br_heap joined_bridge a = Some v"
    using bridge_okD(1,2) [OF ok] vlan_of_SomeD(1) by blast
  let ?l = "vlan_write a (del_member 1 v) joined_bridge"
  obtain attrs where at: "get_vid plain_netlink ?info = Inr (attrs, 0)" "get_port attrs = Inr (2, 0)"
    by (rule member_request_attrs)
  have "ubr_netlink_dev ?info w = Inr (Some 1, hold 1 w)"
    using w(3,4) by (simp add: ubr_netlink_dev_def member_request_def request_def get_by_index_eq dev_at_def hold_def)
  from nl_detach_eq [OF at this _ w(2) bridge_okD(1) [OF ok]] w(5) joined_bridge_facts(3) a
  have step: "wstep ?K plain_netlink w (Netlink UBR_NL_VLAN_DETACH ?info None) (br_put 1 ?l w)"
    by (intro step_netlink) simp
  have o: "orderly ?K w (Netlink UBR_NL_VLAN_DETACH ?info None)" by (simp add: orderly_def)
  have "a = 100" using joined_bridge_heap a(2) by simp
  then have "no_member ?K ?l 1"
    using joined_bridge_heap
    by (fastforce simp: no_member_def del_member_def vec_simps split: if_splits)
  with step o world_ok_step [OF plain_kernel_ok(1) w(1) o step] show thesis
    by (intro that [of ?l]) (simp_all add: joined_bridge_facts(2))
qed

lemma sample_left:
  obtains w br nd bd where
    "runs (wstep plain_kernel plain_netlink) (orderly plain_kernel) (boot [2 \<mapsto> plain_dev 0x020000000002] 0)
       [New_Bridge plain_new 1 bridge_dev, Add_Slave all_ok 1 2,
        Netlink UBR_NL_VLAN_DETACH (member_request 0 2 0) None, Del_Slave 1 2, Grace_Period 1] w"
    "w_bridges w 1 = Some br" "br_busy br = br_busy sample_bridge" "br_rcu br = []"
    "w_devs w 1 = Some bd" "w_devs w 2 = Some nd" "port_add_allowed nd = 0"
proof -
  let ?K = plain_kernel and ?boot = "boot [2 \<mapsto> plain_dev 0x020000000002] 0"
    and ?info = "member_request 0 2 0" and ?m = "0x020000000002 :: mac"
  obtain w bd nd where run: "runs (wstep ?K plain_netlink) (orderly ?K) ?boot
       [New_Bridge plain_new 1 bridge_dev, Add_Slave all_ok 1 2] w"
    and w: "w_bridges w 1 = Some joined_bridge" "w_devs w 1 = Some bd" "nd_is_ubr bd" "w_devs w 2 = Some nd"
    and nd: "sans_headroom nd = sans_headroom (linked 1 1 (plain_dev ?m))"
    by (rule sample_joined)
  from gs.run_inv [OF run] plain_kernel_ok(1) sample_boot_ok have "world_ok ?K w" by blast
  then obtain l where step: "wstep ?K plain_netlink w (Netlink UBR_NL_VLAN_DETACH ?info None) (br_put 1 l w)"
    "orderly ?K w (Netlink UBR_NL_VLAN_DETACH ?info None)"
    and l: "world_ok ?K (br_put 1 l w)" "no_member ?K l 1" "br_rcu l = []" "br_busy l = br_busy joined_bridge"
      "br_ports l = br_ports joined_bridge"
    using w by (rule joined_detached)
  then have run1: "runs (wstep ?K plain_netlink) (orderly ?K) ?boot
      ([New_Bridge plain_new 1 bridge_dev, Add_Slave all_ok 1 2] @ [Netlink UBR_NL_VLAN_DETACH ?info None]) (br_put 1 l w)"
    by (intro runs_snoc [OF run])
  obtain w' where run2: "runs (wstep ?K plain_netlink) (orderly ?K) (br_put 1 l w) [Del_Slave 1 2, Grace_Period 1] w'"
    and w': "w_bridges w' 1 = Some (port_cleanup_rcu 1 ((released 1 l)\<lparr>br_rcu := []\<rparr>))"
    "w_devs w' = (w_devs (br_put 1 l w))(2 \<mapsto> unlinked 1 nd)"
    by (rule port_leaves [OF l(1), of 1 l 2 nd 1 plain_netlink])
      (use l w(4) linked_sans(1) [OF nd] in simp_all)
  have "unlinked 1 (linked 1 1 (sans_headroom (plain_dev ?m))) = sans_headroom (plain_dev ?m)"
    by (rule unlinked_linked) (simp_all add: plain_dev_def sans_headroom_def)
  then have "sans_headroom (unlinked 1 nd) = sans_headroom (plain_dev ?m)" by (simp only: sans_swap nd)
  then have "port_add_allowed (unlinked 1 nd) = port_add_allowed (plain_dev ?m)" by (metis allowed_sans)
  also have "\<dots> = 0" by (rule plain_dev_allowed) (simp add: is_valid_ether_addr_def is_multicast_ether_addr_def)
  finally have allowed: "port_add_allowed (unlinked 1 nd) = 0" .
  have "runs (wstep ?K plain_netlink) (orderly ?K) ?boot (([New_Bridge plain_new 1 bridge_dev, Add_Slave all_ok 1 2] @
      [Netlink UBR_NL_VLAN_DETACH ?info None]) @ [Del_Slave 1 2, Grace_Period 1]) w'"
    unfolding runs_append [of _ _ _ "_ @ _"] using run1 run2 by blast
  then show thesis
    using w' w(2) allowed joined_bridge_busy(2) l(4)
    by (intro that [OF _ w'(1)]) (simp_all add: port_cleanup_rcu_def released_def)
qed

lemma sample_return:
  obtains w nd i where
    "runs (wstep plain_kernel plain_netlink) (orderly plain_kernel) (boot [2 \<mapsto> plain_dev 0x020000000002] 0)
       [New_Bridge plain_new 1 bridge_dev, Add_Slave all_ok 1 2,
        Netlink UBR_NL_VLAN_DETACH (member_request 0 2 0) None, Del_Slave 1 2, Grace_Period 1,
        Add_Slave all_ok 1 2] w"
    "w_devs w 2 = Some nd" "nd_rx_handler_data nd = Some (1, i)"
proof -
  let ?K = plain_kernel
  obtain w br nd bd where run: "runs (wstep ?K plain_netlink) (orderly ?K) (boot [2 \<mapsto> plain_dev 0x020000000002] 0)
       [New_Bridge plain_new 1 bridge_dev, Add_Slave all_ok 1 2,
        Netlink UBR_NL_VLAN_DETACH (member_request 0 2 0) None, Del_Slave 1 2, Grace_Period 1] w"
    and br: "w_bridges w 1 = Some br" "br_busy br = br_busy sample_bridge" "br_rcu br = []"
    and d: "w_devs w 1 = Some bd" "w_devs w 2 = Some nd" "port_add_allowed nd = 0"
    by (rule sample_left)
  from gs.run_inv [OF run] plain_kernel_ok(1) sample_boot_ok have "world_ok ?K w" by blast
  note live = world_okD(1) [OF this br(1)]
  have free: "free_slot br = 1" using br(2) sample_bridge_facts(5) by (simp add: free_slot_def)
  have slot: "free_slot br \<noteq> UBR_MAX_PORTS" "Port_Cleanup_Rcu (free_slot br) \<notin> set (br_rcu br)"
    by (simp_all add: free br(3) UBR_MAX_PORTS_256)
  obtain w' where w': "ubr_port_add ?K all_ok 1 2 w = Inr (0, w')"
    "same_devs (br_put 1 (enslaved ?K 1 2 br) (dev_upd 2 (linked 1 1) w)) w'"
    using port_add_done [OF br(1) d(2,1) bridge_liveD(1,2) [OF live] d(3) slot, of all_ok]
    unfolding free by auto
  have "wstep ?K plain_netlink w (Add_Slave all_ok 1 2) w'"
    using w'(1) by (intro step_add_slave) (simp add: ubr_ndo_add_slave_def)
  moreover have "orderly ?K w (Add_Slave all_ok 1 2)" using br by (simp add: orderly_def)
  ultimately have "runs (wstep ?K plain_netlink) (orderly ?K) (boot [2 \<mapsto> plain_dev 0x020000000002] 0)
      ([New_Bridge plain_new 1 bridge_dev, Add_Slave all_ok 1 2,
        Netlink UBR_NL_VLAN_DETACH (member_request 0 2 0) None, Del_Slave 1 2, Grace_Period 1] @
       [Add_Slave all_ok 1 2]) w'"
    by (intro runs_snoc [OF run])
  moreover obtain nd' where nd': "w_devs w' 2 = Some nd'" "sans_headroom nd' = sans_headroom (linked 1 1 nd)"
    using same_devs_dev [OF w'(2), of 2 "linked 1 1 nd"] d(2) by auto
  ultimately show thesis by (intro that [OF _ nd'(1) linked_sans(1) [OF nd'(2)]]) simp
qed

end
