(* ===== verification/Ubr_Console.thy ===== *)
theory Ubr_Console
  imports Ubr_Requests Ubr_Sample
begin

text \<open>
  The tool and the module together: what a command line makes the kernel do. The netlink
  transport and the parsers of the kernel are parameters; what is documented of them
  (\<open>transport_ok\<close>, \<open>parse_ok\<close>) is that attributes of different types, of the types the
  policies ask for, arrive.
\<close>

section \<open>From the tool to the kernel\<close>

fun attr_type :: "nlattr \<Rightarrow> nat" where
  "attr_type (Attr t v) = t"
| "attr_type (Nest t nest) = t"

fun top_u32 :: "nat \<Rightarrow> nlattr list \<Rightarrow> u32 option" where
  "top_u32 t [] = None"
| "top_u32 t (Attr t' (NlU32 x) # as) = (if t = t' then Some x else top_u32 t as)"
| "top_u32 t (a # as) = top_u32 t as"

fun top_nest :: "nat \<Rightarrow> nlattr list \<Rightarrow> nested option" where
  "top_nest t [] = None"
| "top_nest t (Nest t' n # as) = (if t = t' then Some n else top_nest t as)"
| "top_nest t (a # as) = top_nest t as"

definition transport_ok :: "(nlmsg \<Rightarrow> genl_info) \<Rightarrow> bool" where
  "transport_ok T \<longleftrightarrow> (\<forall>m. distinct (map attr_type (nh_attrs m)) \<longrightarrow>
     gi_attrs (T m) = Some \<lparr>ia_ifindex = top_u32 UBR_NLA_IFINDEX (nh_attrs m),
       ia_fdb = top_nest UBR_NLA_FDB (nh_attrs m), ia_vlan = top_nest UBR_NLA_VLAN (nh_attrs m),
       ia_port = top_nest UBR_NLA_PORT (nh_attrs m)\<rparr>)"

definition vlan_typed :: "nat \<times> nlval \<Rightarrow> bool" where
  "vlan_typed a = (case a of
     (t, NlU16 x) \<Rightarrow> t = UBR_NLA_VLAN_VID
   | (t, NlU32 x) \<Rightarrow> t \<in> {UBR_NLA_VLAN_PORT, UBR_NLA_VLAN_TAGGED, UBR_NLA_VLAN_LEARNING}
   | (t, NlStr s) \<Rightarrow> False)"

definition port_typed :: "nat \<times> nlval \<Rightarrow> bool" where
  "port_typed a = (case a of
     (t, NlU16 x) \<Rightarrow> t = UBR_NLA_PORT_PVID
   | (t, NlU32 x) \<Rightarrow> t = UBR_NLA_PORT_IFINDEX
   | (t, NlStr s) \<Rightarrow> False)"

definition parse_ok :: "netlink_lib \<Rightarrow> bool" where
  "parse_ok N \<longleftrightarrow>
     (\<forall>nest. distinct (map fst nest) \<longrightarrow> list_all vlan_typed nest \<longrightarrow>
        nl_parse_vlan N nest = (0, \<lparr>va_vid = attr_u16 UBR_NLA_VLAN_VID nest,
          va_port = attr_u32 UBR_NLA_VLAN_PORT nest, va_tagged = attr_u32 UBR_NLA_VLAN_TAGGED nest,
          va_learning = attr_u32 UBR_NLA_VLAN_LEARNING nest\<rparr>)) \<and>
     (\<forall>nest. distinct (map fst nest) \<longrightarrow> list_all port_typed nest \<longrightarrow>
        nl_parse_port N nest = (0, \<lparr>pa_ifindex = attr_u32 UBR_NLA_PORT_IFINDEX nest,
          pa_pvid = attr_u16 UBR_NLA_PORT_PVID nest\<rparr>))"

text \<open>What the kernel does with a message.\<close>

definition kernel_request ::
  "kernel \<Rightarrow> netlink_lib \<Rightarrow> (nlmsg \<Rightarrow> genl_info) \<Rightarrow> addr option \<Rightarrow> nlmsg \<Rightarrow> world \<Rightarrow> handler_result" where
  "kernel_request K N T mem m w =
     (case nh_genl m of
        None \<Rightarrow> Inr (- EOPNOTSUPP, w)
      | Some (cmd, version) \<Rightarrow> ubr_genl_doit K N mem cmd (T m) w)"

lemmas nla_tops = UBR_NLA_IFINDEX_def UBR_NLA_FDB_def UBR_NLA_VLAN_def UBR_NLA_PORT_def

text \<open>Requests that name the bridge and one VLAN or port.\<close>

lemma transport_vlan:
  assumes "transport_ok T" "nh_attrs m = [Attr UBR_NLA_IFINDEX (NlU32 b), Nest UBR_NLA_VLAN nest]"
  shows "gi_attrs (T m) = Some \<lparr>ia_ifindex = Some b, ia_fdb = None, ia_vlan = Some nest, ia_port = None\<rparr>"
  using assms by (simp add: transport_ok_def nla_tops)

lemma transport_port:
  assumes "transport_ok T" "nh_attrs m = [Attr UBR_NLA_IFINDEX (NlU32 b), Nest UBR_NLA_PORT nest]"
  shows "gi_attrs (T m) = Some \<lparr>ia_ifindex = Some b, ia_fdb = None, ia_vlan = None, ia_port = Some nest\<rparr>"
  using assms by (simp add: transport_ok_def nla_tops)

lemma netlink_dev_named:
  assumes "gi_attrs info = Some ia" "ia_ifindex ia = Some b" "w_devs w b = Some bd" "nd_is_ubr bd"
  shows "ubr_netlink_dev info w = Inr (Some b, hold b w)"
  using assms by (simp add: ubr_netlink_dev_def get_by_index_eq dev_at_def hold_def)

lemma get_vid_named:
  assumes "parse_ok N" "gi_attrs info = Some ia" "ia_vlan ia = Some ((UBR_NLA_VLAN_VID, NlU16 vid) # rest)"
    and "distinct (UBR_NLA_VLAN_VID # map fst rest)" "list_all vlan_typed rest"
  shows "get_vid N info = Inr (\<lparr>va_vid = Some vid, va_port = attr_u32 UBR_NLA_VLAN_PORT rest,
    va_tagged = attr_u32 UBR_NLA_VLAN_TAGGED rest, va_learning = attr_u32 UBR_NLA_VLAN_LEARNING rest\<rparr>, vid)"
proof -
  have "vlan_typed (UBR_NLA_VLAN_VID, NlU16 vid)" by (simp add: vlan_typed_def)
  with assms(1) [unfolded parse_ok_def, THEN conjunct1, rule_format,
      of "(UBR_NLA_VLAN_VID, NlU16 vid) # rest"] assms(4,5)
  have "nl_parse_vlan N ((UBR_NLA_VLAN_VID, NlU16 vid) # rest) =
      (0, \<lparr>va_vid = Some vid, va_port = attr_u32 UBR_NLA_VLAN_PORT rest,
         va_tagged = attr_u32 UBR_NLA_VLAN_TAGGED rest,
         va_learning = attr_u32 UBR_NLA_VLAN_LEARNING rest\<rparr>)"
    by (simp add: attr_u16_def attr_u32_def nla_nums)
  with assms(2,3) show ?thesis by (simp add: get_vid_def)
qed

section \<open>A tool that reaches the kernel\<close>

definition working :: "cli_env \<Rightarrow> bool" where
  "working E \<longleftrightarrow> ce_buf E \<and> 0 < fst (get_family E) \<and> (\<forall>m. fst (msg_send (ce_sock E m)))"

lemma init_working:
  assumes "working E"
  obtains m k where "msg_init E cmd st = (Some m, st\<lparr>g_sockets := k\<rparr>)"
    "nh_genl m = Some (cmd, 1)"
    "nh_attrs m = (if g_brindex st = 0 then [] else [Attr UBR_NLA_IFINDEX (NlU32 (g_brindex st))])"
proof (cases rule: msg_init_cases [of E cmd st])
  case (fails k)
  then show thesis using assms
    by (auto simp: msg_init_def msg_header_def working_def Let_def split: prod.splits option.splits if_splits)
qed (rule that)

lemma doit_working:
  assumes "working E"
  obtains ret k where "msg_doit E m st = (ret, st\<lparr>g_sockets := k,
    g_io := g_io st @ [Genl (m\<lparr>nh_flags := NLM_F_REQUEST OR NLM_F_ACK\<rparr>)]\<rparr>)"
proof -
  let ?m = "m\<lparr>nh_flags := NLM_F_REQUEST OR NLM_F_ACK\<rparr>"
  have "fst (msg_send (ce_sock E ?m))" using assms by (simp add: working_def)
  then show thesis using that [of _ "g_sockets st"]
    by (auto simp: msg_doit_def exchange_def msg_query_def msg_send_def Let_def split: if_splits)
qed

text \<open>The request of a command, made and sent.\<close>

lemma request_working:
  assumes "working E"
  obtains ret m k where
    "(case msg_init E cmd st of (None, st1) \<Rightarrow> Inr (- 1, st1)
      | (Some m, st1) \<Rightarrow> Inr (msg_doit E (f m st1) st1)) =
        (Inr (ret, st\<lparr>g_sockets := k, g_io := g_io st @ [Genl m]\<rparr>) :: (int \<times> cli) res)"
    "\<exists>m0 k0. m = (f m0 (st\<lparr>g_sockets := k0\<rparr>))\<lparr>nh_flags := NLM_F_REQUEST OR NLM_F_ACK\<rparr> \<and>
      nh_genl m0 = Some (cmd, 1) \<and>
      nh_attrs m0 = (if g_brindex st = 0 then [] else [Attr UBR_NLA_IFINDEX (NlU32 (g_brindex st))])"
proof -
  obtain m0 k0 where m0: "msg_init E cmd st = (Some m0, st\<lparr>g_sockets := k0\<rparr>)"
    "nh_genl m0 = Some (cmd, 1)"
    "nh_attrs m0 = (if g_brindex st = 0 then [] else [Attr UBR_NLA_IFINDEX (NlU32 (g_brindex st))])"
    using init_working [OF assms] by blast
  obtain ret k where "msg_doit E (f m0 (st\<lparr>g_sockets := k0\<rparr>)) (st\<lparr>g_sockets := k0\<rparr>) =
      (ret, st\<lparr>g_sockets := k0, g_sockets := k, g_io := g_io st @
        [Genl ((f m0 (st\<lparr>g_sockets := k0\<rparr>))\<lparr>nh_flags := NLM_F_REQUEST OR NLM_F_ACK\<rparr>)]\<rparr>)"
    using doit_working [OF assms, of "f m0 (st\<lparr>g_sockets := k0\<rparr>)" "st\<lparr>g_sockets := k0\<rparr>"] by auto
  with m0 show thesis by (intro that [of ret _ k]) auto
qed

section \<open>Command lines\<close>

text \<open>
  The state in which the arguments of a command of bridge \<open>br\<close> are read: argument \<open>i\<close> is next.
\<close>

record target =
  t_help :: bool
  t_vid :: u16
  t_ifname :: "string option"
  t_ifindex :: u32

definition no_target :: target where
  "no_target = \<lparr>t_help = False, t_vid = 0, t_ifname = None, t_ifindex = 0\<rparr>"

lemma no_target_help [simp]: "t_help no_target = False"
  by (simp add: no_target_def)

definition at_arg :: "string \<Rightarrow> netdev \<Rightarrow> target \<Rightarrow> nat \<Rightarrow> string list \<Rightarrow> cli" where
  "at_arg br b t i argv = \<lparr>g_help_flag = t_help t, g_bridge = br, g_brindex = b, g_vid = t_vid t,
     g_ifname = t_ifname t, g_ifindex = t_ifindex t,
     g_cmdl = \<lparr>cl_optind = i, cl_argc = length argv, cl_argv = argv\<rparr>, g_sockets = 0, g_io = []\<rparr>"

lemma at_arg_simps [simp]:
  "g_help_flag (at_arg br b t i argv) = t_help t" "g_brindex (at_arg br b t i argv) = b"
  "g_vid (at_arg br b t i argv) = t_vid t" "g_ifname (at_arg br b t i argv) = t_ifname t"
  "g_ifindex (at_arg br b t i argv) = t_ifindex t"
  "g_cmdl (at_arg br b t i argv) = \<lparr>cl_optind = i, cl_argc = length argv, cl_argv = argv\<rparr>"
  "g_io (at_arg br b t i argv) = []" "g_bridge (at_arg br b t i argv) = br"
  by (simp_all add: at_arg_def)

lemma at_arg_moves [simp]:
  "(at_arg br b t i argv)\<lparr>g_cmdl := \<lparr>cl_optind = j, cl_argc = length argv, cl_argv = argv\<rparr>\<rparr> = at_arg br b t j argv"
  "(at_arg br b t i argv)\<lparr>g_vid := vid\<rparr> = at_arg br b (t\<lparr>t_vid := vid\<rparr>) i argv"
  "(at_arg br b t i argv)\<lparr>g_ifname := n, g_ifindex := x\<rparr> = at_arg br b (t\<lparr>t_ifname := n, t_ifindex := x\<rparr>) i argv"
  by (simp_all add: at_arg_def)

definition exit_status :: "(int \<times> cli) res \<Rightarrow> (int \<times> cli) res" where
  "exit_status r = andthen r (\<lambda>(res, st). Inr (if res \<noteq> 0 then 1 else 0, st))"

lemma exit_status_Inr [simp]: "exit_status (Inr (res, st)) = Inr (if res \<noteq> 0 then 1 else 0, st)"
  by (simp add: exit_status_def)

context command_table
begin

lemma run_at_arg:
  assumes "c \<in> set cmds" "argv = pre @ c_cmd c # args" "i = length pre"
  shows "run_cmd caller cmds E (at_arg br b t i argv) =
    c_func c E (c_help c) (at_arg br b t (Suc i) argv)"
proof -
  have "cl_argv (g_cmdl (at_arg br b t i argv)) = pre @ c_cmd c # args" using assms(2) by simp
  from run_exact [OF assms(1) this] show ?thesis by (simp add: argv_ok_def assms(3))
qed

end

lemma main_run:
  assumes "ce_nametoindex E br = b" "b \<noteq> 0" "c \<in> set main_cmds" "argv = pre @ c_cmd c # args"
  shows "main E [Opt_i br] (length pre) argv =
    exit_status (c_func c E (c_help c) (at_arg br b no_target (Suc (length pre)) argv))"
proof -
  have st: "cli_init\<lparr>g_bridge := br, g_brindex := b,
      g_cmdl := \<lparr>cl_optind = length pre, cl_argc = length argv, cl_argv = argv\<rparr>\<rparr> =
      at_arg br b no_target (length pre) argv"
    by (simp add: at_arg_def cli_init_def no_target_def)
  show ?thesis using assms(1,2) st main_t.run_at_arg [OF assms(3,4) refl, of "Some ''ubr''" E br b no_target]
    by (simp add: main_def exit_status_def cli_init_def)
qed

lemma vlan_run:
  assumes "ce_nametoindex E br = b" "b \<noteq> 0" "read_vid E s = Some vid" "c \<in> set vlan_cmds"
    and "argv = pre @ ''vlan'' # s # c_cmd c # args"
  shows "main E [Opt_i br] (length pre) argv =
    exit_status (c_func c E (c_help c) (at_arg br b (no_target\<lparr>t_vid := vid\<rparr>) (length pre + 3) argv))"
proof -
  let ?c = "\<lparr>c_cmd = ''vlan'', c_func = cmd_vlan, c_help = Some ''vlan''\<rparr>"
  have "main E [Opt_i br] (length pre) argv =
      exit_status (cmd_vlan E (Some ''vlan'') (at_arg br b no_target (Suc (length pre)) argv))"
    using main_run [OF assms(1,2), of ?c argv pre] assms(5) by (simp add: main_cmds_def)
  moreover have "argv ! Suc (length pre) = s" "Suc (length pre) < length argv"
    using assms(5) by (simp_all add: nth_append)
  moreover have "run_cmd h vlan_cmds E (at_arg br b t (Suc (Suc (length pre))) argv) =
      c_func c E (c_help c) (at_arg br b t (length pre + 3) argv)" for h t
    using vlan_t.run_at_arg [OF assms(4), of argv "pre @ [''vlan'', s]"] assms(5)
    by (simp add: numeral_eq_Suc)
  ultimately show ?thesis
    using assms(3) by (simp add: cmd_vlan_def shift_cmdl_eq argv_ok_def)
qed

lemma port_run:
  assumes "ce_nametoindex E br = b" "b \<noteq> 0" "ce_nametoindex E ifname = p" "p \<noteq> 0"
    and "c \<in> set port_cmds" "argv = pre @ ''port'' # ifname # c_cmd c # args"
  shows "main E [Opt_i br] (length pre) argv =
    exit_status (c_func c E (c_help c) (at_arg br b
      (no_target\<lparr>t_ifname := Some ifname, t_ifindex := p\<rparr>) (length pre + 3) argv))"
proof -
  let ?c = "\<lparr>c_cmd = ''port'', c_func = cmd_port, c_help = Some ''port''\<rparr>"
  have "main E [Opt_i br] (length pre) argv =
      exit_status (cmd_port E (Some ''port'') (at_arg br b no_target (Suc (length pre)) argv))"
    using main_run [OF assms(1,2), of ?c argv pre] assms(6) by (simp add: main_cmds_def)
  moreover have "argv ! Suc (length pre) = ifname" "Suc (length pre) < length argv"
    using assms(6) by (simp_all add: nth_append)
  moreover have "run_cmd h port_cmds E (at_arg br b t (Suc (Suc (length pre))) argv) =
      c_func c E (c_help c) (at_arg br b t (length pre + 3) argv)" for h t
    using port_t.run_at_arg [OF assms(5), of argv "pre @ [''port'', ifname]"] assms(6)
    by (simp add: numeral_eq_Suc)
  ultimately show ?thesis
    using assms(3,4) by (simp add: cmd_port_def shift_cmdl_eq argv_ok_def Let_def)
qed

section \<open>What the command lines send\<close>

lemma read_vid_decimal:
  assumes "1 \<le> decimal s" "decimal s \<le> 4095"
  shows "read_vid E s = Some (of_int (decimal s))"
proof -
  have "atoi (ce_atoi_ovf E) s = decimal s" using assms by (intro decimal_fits) auto
  moreover have "uint (of_int (decimal s) :: u16) = decimal s"
    using assms by (simp add: unsigned_of_int take_bit_int_eq_self)
  ultimately show ?thesis
    using assms by (auto simp: read_vid_def UINT16_MAX_def word_less_def word_le_def)
qed

lemma at_arg_sockets [simp]:
  "g_brindex ((at_arg br b t i argv)\<lparr>g_sockets := k\<rparr>) = b"
  "g_vid ((at_arg br b t i argv)\<lparr>g_sockets := k\<rparr>) = t_vid t"
  "g_ifindex ((at_arg br b t i argv)\<lparr>g_sockets := k\<rparr>) = t_ifindex t"
  "g_io ((at_arg br b t i argv)\<lparr>g_sockets := k, g_io := io\<rparr>) = io"
  by (simp_all add: at_arg_def)

text \<open>A run that sends one message, with its attributes.\<close>

definition sends :: "(int \<times> cli) res \<Rightarrow> ubr_nl_cmd \<Rightarrow> nlattr list \<Rightarrow> bool" where
  "sends r cmd attrs \<longleftrightarrow> (\<exists>status st m. r = Inr (status, st) \<and> g_io st = [Genl m] \<and>
     nh_genl m = Some (cmd, 1) \<and> nh_attrs m = attrs)"

text \<open>A command that makes one request of its bridge sends that request and nothing else.\<close>

lemma sends_request:
  assumes "working E" "b \<noteq> 0"
    and "\<And>m k. nh_genl (f m ((at_arg br b t i argv)\<lparr>g_sockets := k\<rparr>)) = nh_genl m"
    and "\<And>m k. nh_attrs (f m ((at_arg br b t i argv)\<lparr>g_sockets := k\<rparr>)) = nh_attrs m @ [a]"
  shows "sends (exit_status
      (case msg_init E cmd (at_arg br b t i argv) of (None, st1) \<Rightarrow> Inr (- 1, st1)
      | (Some m, st1) \<Rightarrow> Inr (msg_doit E (f m st1) st1)))
    cmd [Attr UBR_NLA_IFINDEX (NlU32 b), a]"
proof -
  let ?st = "at_arg br b t i argv"
  obtain ret m k where r: "(case msg_init E cmd ?st of (None, st1) \<Rightarrow> Inr (- 1, st1)
      | (Some m, st1) \<Rightarrow> Inr (msg_doit E (f m st1) st1)) =
        (Inr (ret, ?st\<lparr>g_sockets := k, g_io := g_io ?st @ [Genl m]\<rparr>) :: (int \<times> cli) res)"
    and m: "\<exists>m0 k0. m = (f m0 (?st\<lparr>g_sockets := k0\<rparr>))\<lparr>nh_flags := NLM_F_REQUEST OR NLM_F_ACK\<rparr> \<and>
      nh_genl m0 = Some (cmd, 1) \<and>
      nh_attrs m0 = (if g_brindex ?st = 0 then [] else [Attr UBR_NLA_IFINDEX (NlU32 (g_brindex ?st))])"
    by (rule request_working [OF assms(1)])
  from m have "nh_genl m = Some (cmd, 1)" "nh_attrs m = [Attr UBR_NLA_IFINDEX (NlU32 b), a]"
    using assms(2-4) by auto
  with r show ?thesis by (auto simp: sends_def)
qed

lemma vlan_add_sends:
  assumes "working E" "b \<noteq> 0" "t_vid t \<noteq> 0"
  shows "sends (exit_status (cmd_vlan_add E h (at_arg br b t i argv))) UBR_NL_VLAN_ADD
    [Attr UBR_NLA_IFINDEX (NlU32 b), Nest UBR_NLA_VLAN [(UBR_NLA_VLAN_VID, NlU16 (t_vid t))]]"
  unfolding cmd_vlan_add_def at_arg_simps if_not_P [OF assms(3)]
  by (rule sends_request [OF assms(1,2)]) (simp_all add: put_vid_def)

lemma vlan_attach_sends:
  assumes "working E" "b \<noteq> 0" "t_vid t \<noteq> 0" "ce_nametoindex E ifname = p" "p \<noteq> 0"
    and "i = length pre" "argv = pre @ ifname # args" "args = (if tagged then [''tagged''] else [])"
  shows "sends (exit_status (cmd_vlan_attach E (Some h) (at_arg br b t i argv))) UBR_NL_VLAN_ATTACH
    [Attr UBR_NLA_IFINDEX (NlU32 b), Nest UBR_NLA_VLAN [(UBR_NLA_VLAN_VID, NlU16 (t_vid t)),
       (UBR_NLA_VLAN_TAGGED, NlU32 (if tagged then 1 else 0)), (UBR_NLA_VLAN_PORT, NlU32 p)]]"
proof -
  let ?cl = "\<lparr>cl_optind = Suc i, cl_argc = length argv, cl_argv = argv\<rparr>"
  have opts: "find_opt attach_opts ''tagged'' = Some 0"
    by (simp add: find_opt_def attach_opts_def)
  have "drop (Suc i) argv = args" using assms(6,7) by simp
  moreover have "opts_spec attach_opts args = Some (attach_opts[0 := (attach_opts ! 0)
      \<lparr>o_val := (if tagged then Some ''tagged'' else None)\<rparr>], if tagged then 1 else 0)"
    using assms(8) opts by (auto simp: attach_opts_def OPT_KEY_def OPT_KEYVAL_def)
  ultimately obtain n os j where parse: "parse_opts attach_opts ?cl = Inr (n, os, ?cl\<lparr>cl_optind := j\<rparr>)"
    "0 \<le> n" "os = attach_opts[0 := (attach_opts ! 0)\<lparr>o_val := (if tagged then Some ''tagged'' else None)\<rparr>]"
    using parse_opts_from_eq [of ?cl "Suc i" attach_opts 0] unfolding parse_opts_def
    by (auto simp: argv_ok_def)
  have "has_opt os ''tagged'' = tagged"
    by (simp add: parse(3) attach_opts_def has_opt_def get_opt_def)
  moreover have "argv ! i = ifname" "i < length argv" using assms(6,7) by (simp_all add: nth_append)
  ultimately have "cmd_vlan_attach E (Some h) (at_arg br b t i argv) =
      (case msg_init E UBR_NL_VLAN_ATTACH (at_arg br b t j argv) of (None, st3) \<Rightarrow> Inr (- 1, st3)
       | (Some m, st3) \<Rightarrow> Inr (msg_doit E (attr_put (Nest UBR_NLA_VLAN [put_vid st3,
           (UBR_NLA_VLAN_TAGGED, NlU32 (if tagged then 1 else 0)), (UBR_NLA_VLAN_PORT, NlU32 p)]) m) st3))"
    using assms(3-5) parse(1,2)
    by (simp add: cmd_vlan_attach_def read_port_def shift_cmdl_eq argv_ok_def Let_def split: prod.split option.split)
  then show ?thesis
    by (simp only:) (rule sends_request [OF assms(1,2)], simp_all add: put_vid_def)
qed

text \<open>The attribute an option value for the PVID becomes.\<close>

definition pvid_attr :: "cli_env \<Rightarrow> opt list \<Rightarrow> nested" where
  "pvid_attr E os =
     (case get_opt os ''pvid'' of
        None \<Rightarrow> []
      | Some opt1 \<Rightarrow>
          let val = atoi (ce_atoi_ovf E) (the (o_val opt1))
          in if val = - 1 then [] else [(UBR_NLA_PORT_PVID, NlU16 (of_int val))])"

lemma port_set_sends:
  assumes "working E" "b \<noteq> 0" "t_ifname t \<noteq> None"
    and "argv = pre @ args" "i = length pre" "opts_spec port_opts args = Some (os, n)"
  shows "sends (exit_status (cmd_port_set E (Some h) (at_arg br b t i argv))) UBR_NL_PORT_SET
    [Attr UBR_NLA_IFINDEX (NlU32 b),
     Nest UBR_NLA_PORT ((UBR_NLA_PORT_IFINDEX, NlU32 (t_ifindex t)) # pvid_attr E os)]"
proof -
  let ?cl = "\<lparr>cl_optind = i, cl_argc = length argv, cl_argv = argv\<rparr>"
  obtain n j where parse: "parse_opts port_opts ?cl = Inr (n, os, ?cl\<lparr>cl_optind := j\<rparr>)" "0 \<le> n"
    using parse_opts_from_eq [of ?cl i port_opts 0] assms(4-6) unfolding parse_opts_def
    by (auto simp: argv_ok_def)
  have "cmd_port_set E (Some h) (at_arg br b t i argv) =
      (case msg_init E UBR_NL_PORT_SET (at_arg br b t j argv) of (None, st2) \<Rightarrow> Inr (- 1, st2)
       | (Some m, st2) \<Rightarrow> Inr (msg_doit E (attr_put (Nest UBR_NLA_PORT
           ((UBR_NLA_PORT_IFINDEX, NlU32 (g_ifindex st2)) # pvid_attr E os)) m) st2))"
    using assms(3) parse unfolding cmd_port_set_def
    by (auto simp: Let_def pvid_attr_def split: prod.split option.split dest!: get_opt_val)
  then show ?thesis
    by (simp only:) (rule sends_request [OF assms(1,2)], simp_all)
qed

text \<open>The attribute an option value for learning becomes.\<close>

definition learning_attr :: "opt list \<Rightarrow> nested" where
  "learning_attr os =
     (case get_opt os ''learning'' of
        None \<Rightarrow> []
      | Some opt1 \<Rightarrow>
          if atob (o_val opt1) = - 1 then []
          else [(UBR_NLA_VLAN_LEARNING, NlU32 (of_int (atob (o_val opt1))))])"

lemma vlan_set_sends:
  assumes "working E" "b \<noteq> 0" "t_vid t \<noteq> 0"
    and "argv = pre @ args" "i = length pre" "opts_spec set_opts args = Some (os, n)"
  shows "sends (exit_status (cmd_vlan_set E (Some h) (at_arg br b t i argv))) UBR_NL_VLAN_SET
    [Attr UBR_NLA_IFINDEX (NlU32 b),
     Nest UBR_NLA_VLAN ((UBR_NLA_VLAN_VID, NlU16 (t_vid t)) # learning_attr os)]"
proof -
  let ?cl = "\<lparr>cl_optind = i, cl_argc = length argv, cl_argv = argv\<rparr>"
  obtain n j where parse: "parse_opts set_opts ?cl = Inr (n, os, ?cl\<lparr>cl_optind := j\<rparr>)" "0 \<le> n"
    using parse_opts_from_eq [of ?cl i set_opts 0] assms(4-6) unfolding parse_opts_def
    by (auto simp: argv_ok_def)
  have "cmd_vlan_set E (Some h) (at_arg br b t i argv) =
      (case msg_init E UBR_NL_VLAN_SET (at_arg br b t j argv) of (None, st2) \<Rightarrow> Inr (- 1, st2)
       | (Some m, st2) \<Rightarrow>
           Inr (msg_doit E (attr_put (Nest UBR_NLA_VLAN (put_vid st2 # learning_attr os)) m) st2))"
    using assms(3) parse unfolding cmd_vlan_set_def
    by (auto simp: Let_def learning_attr_def split: prod.split option.split)
  then show ?thesis
    by (simp only:) (rule sends_request [OF assms(1,2)], simp_all add: put_vid_def)
qed

section \<open>Whole command lines\<close>

lemma vlan_add_line:
  assumes "working E" "ce_nametoindex E br = b" "b \<noteq> 0" "read_vid E s = Some vid"
  shows "sends (main E [Opt_i br] (length pre) (pre @ [''vlan'', s, ''add''])) UBR_NL_VLAN_ADD
    [Attr UBR_NLA_IFINDEX (NlU32 b), Nest UBR_NLA_VLAN [(UBR_NLA_VLAN_VID, NlU16 vid)]]"
proof -
  have "vid \<noteq> 0" using read_vid_range [OF assms(4)] by auto
  then show ?thesis
    using vlan_run [OF assms(2-4), of "\<lparr>c_cmd = ''add'', c_func = cmd_vlan_add, c_help = Some ''vlan VID add''\<rparr>" _ pre "[]"]
      vlan_add_sends [OF assms(1,3), of "no_target\<lparr>t_vid := vid\<rparr>"]
    by (simp add: vlan_cmds_def)
qed

lemma vlan_attach_line:
  assumes "working E" "ce_nametoindex E br = b" "b \<noteq> 0" "read_vid E s = Some vid"
    and "ce_nametoindex E port = p" "p \<noteq> 0"
  shows "sends (main E [Opt_i br] (length pre)
      (pre @ ''vlan'' # s # ''attach'' # port # (if tagged then [''tagged''] else []))) UBR_NL_VLAN_ATTACH
    [Attr UBR_NLA_IFINDEX (NlU32 b), Nest UBR_NLA_VLAN [(UBR_NLA_VLAN_VID, NlU16 vid),
       (UBR_NLA_VLAN_TAGGED, NlU32 (if tagged then 1 else 0)), (UBR_NLA_VLAN_PORT, NlU32 p)]]"
proof -
  let ?args = "if tagged then [''tagged''] else []"
  let ?argv = "pre @ ''vlan'' # s # ''attach'' # port # ?args"
  have "vid \<noteq> 0" using read_vid_range [OF assms(4)] by auto
  then have "t_vid (no_target\<lparr>t_vid := vid\<rparr>) \<noteq> 0" by simp
  moreover have "length pre + 3 = length (pre @ [''vlan'', s, ''attach''])"
    "?argv = (pre @ [''vlan'', s, ''attach'']) @ port # ?args" by simp_all
  moreover have "main E [Opt_i br] (length pre) ?argv = exit_status (cmd_vlan_attach E (Some ''vlan VID attach'')
      (at_arg br b (no_target\<lparr>t_vid := vid\<rparr>) (length pre + 3) ?argv))"
    using vlan_run [OF assms(2-4), of "\<lparr>c_cmd = ''attach'', c_func = cmd_vlan_attach,
        c_help = Some ''vlan VID attach''\<rparr>" ?argv pre "port # ?args"]
    by (simp add: vlan_cmds_def)
  ultimately show ?thesis
    using vlan_attach_sends [OF assms(1,3) _ assms(5,6) _ _ refl, of "no_target\<lparr>t_vid := vid\<rparr>"
        "length pre + 3" "pre @ [''vlan'', s, ''attach'']" ?argv tagged "''vlan VID attach''" br]
    by simp
qed

lemma vlan_set_line:
  assumes "working E" "ce_nametoindex E br = b" "b \<noteq> 0" "read_vid E s = Some vid"
    and "atob (Some word) \<noteq> - 1"
  shows "sends (main E [Opt_i br] (length pre) (pre @ [''vlan'', s, ''set'', ''learning'', word]))
    UBR_NL_VLAN_SET [Attr UBR_NLA_IFINDEX (NlU32 b), Nest UBR_NLA_VLAN [(UBR_NLA_VLAN_VID, NlU16 vid),
       (UBR_NLA_VLAN_LEARNING, NlU32 (of_int (atob (Some word))))]]"
proof -
  let ?argv = "pre @ [''vlan'', s, ''set'', ''learning'', word]"
  let ?t = "no_target\<lparr>t_vid := vid\<rparr>" and ?os = "set_opts[0 := (set_opts ! 0)\<lparr>o_val := Some word\<rparr>]"
  have "find_opt set_opts ''learning'' = Some 0" by (simp add: find_opt_def set_opts_def)
  moreover have "o_flag (set_opts ! 0) AND OPT_KEYVAL \<noteq> 0" by (simp add: set_opts_def OPT_KEYVAL_def)
  ultimately have os: "opts_spec set_opts [''learning'', word] = Some (?os, 1)" by simp
  have "get_opt ?os ''learning'' = Some ((set_opts ! 0)\<lparr>o_val := Some word\<rparr>)"
    by (simp add: get_opt_def set_opts_def)
  with assms(5) have attr: "learning_attr ?os = [(UBR_NLA_VLAN_LEARNING, NlU32 (of_int (atob (Some word))))]"
    by (simp add: learning_attr_def)
  have vid: "t_vid ?t \<noteq> 0" using read_vid_range [OF assms(4)] by auto
  have argv: "?argv = (pre @ [''vlan'', s, ''set'']) @ [''learning'', word]"
    "length pre + 3 = length (pre @ [''vlan'', s, ''set''])" by simp_all
  have "main E [Opt_i br] (length pre) ?argv = exit_status (cmd_vlan_set E (Some ''vlan VID set'')
      (at_arg br b ?t (length pre + 3) ?argv))"
    using vlan_run [OF assms(2-4), of "\<lparr>c_cmd = ''set'', c_func = cmd_vlan_set,
        c_help = Some ''vlan VID set''\<rparr>" ?argv pre "[''learning'', word]"]
    by (simp add: vlan_cmds_def)
  with vlan_set_sends [OF assms(1,3) vid argv os, of "''vlan VID set''" br] show ?thesis
    unfolding attr by simp
qed

lemma port_set_line:
  assumes "working E" "ce_nametoindex E br = b" "b \<noteq> 0" "ce_nametoindex E port = p" "p \<noteq> 0"
    and "args = [] \<or> args = [''pvid'']"
  shows "sends (main E [Opt_i br] (length pre) (pre @ ''port'' # port # ''set'' # args)) UBR_NL_PORT_SET
    [Attr UBR_NLA_IFINDEX (NlU32 b), Nest UBR_NLA_PORT [(UBR_NLA_PORT_IFINDEX, NlU32 p)]]"
proof -
  let ?argv = "pre @ ''port'' # port # ''set'' # args"
  let ?t = "no_target\<lparr>t_ifname := Some port, t_ifindex := p\<rparr>"
  have find: "find_opt port_opts ''pvid'' = Some 0"
    by (simp add: find_opt_def port_opts_def)
  have flag: "o_flag (port_opts ! 0) AND OPT_KEYVAL \<noteq> 0"
    by (simp add: port_opts_def OPT_KEYVAL_def)
  have none: "pvid_attr E port_opts = []" "pvid_attr E (port_opts[0 := (port_opts ! 0)\<lparr>o_val := None\<rparr>]) = []"
    by (simp_all add: pvid_attr_def get_opt_def port_opts_def)
  have "\<exists>os n. opts_spec port_opts args = Some (os, n) \<and> pvid_attr E os = []"
    using assms(6)
  proof
    assume "args = []"
    with none(1) show ?thesis by simp
  next
    assume "args = [''pvid'']"
    with find flag none(2) show ?thesis by simp
  qed
  then obtain os n where os: "opts_spec port_opts args = Some (os, n)" "pvid_attr E os = []" by blast
  have "main E [Opt_i br] (length pre) ?argv = exit_status (cmd_port_set E (Some ''port IFNAME set'')
      (at_arg br b ?t (length pre + 3) ?argv))"
    using port_run [OF assms(2-5), of "\<lparr>c_cmd = ''set'', c_func = cmd_port_set,
        c_help = Some ''port IFNAME set''\<rparr>" ?argv pre args]
    by (simp add: port_cmds_def)
  moreover have argv: "?argv = (pre @ [''port'', port, ''set'']) @ args"
    "length pre + 3 = length (pre @ [''port'', port, ''set''])" by simp_all
  have t: "t_ifname ?t \<noteq> None" by simp
  note port_set_sends [OF assms(1,3) t argv os(1), of "''port IFNAME set''" br]
  moreover have "t_ifindex ?t = p" by simp
  ultimately show ?thesis unfolding os(2) by (simp only:)
qed

section \<open>What the kernel makes of them\<close>

lemma parse_port_named:
  assumes "parse_ok N" "gi_attrs info = Some ia"
    and "ia_port ia = Some ((UBR_NLA_PORT_IFINDEX, NlU32 p) # rest)" "rest = [] \<or> rest = [(UBR_NLA_PORT_PVID, NlU16 v)]"
  shows "get_port_attrs N info = Inr (\<lparr>pa_ifindex = Some p, pa_pvid = attr_u16 UBR_NLA_PORT_PVID rest\<rparr>, p)"
proof -
  have "list_all port_typed ((UBR_NLA_PORT_IFINDEX, NlU32 p) # rest)"
    "distinct (map fst ((UBR_NLA_PORT_IFINDEX, NlU32 p) # rest))"
    using assms(4) by (auto simp: port_typed_def nla_nums)
  with assms(1) [unfolded parse_ok_def, THEN conjunct2, rule_format,
      of "(UBR_NLA_PORT_IFINDEX, NlU32 p) # rest"]
  have "nl_parse_port N ((UBR_NLA_PORT_IFINDEX, NlU32 p) # rest) =
      (0, \<lparr>pa_ifindex = Some p, pa_pvid = attr_u16 UBR_NLA_PORT_PVID rest\<rparr>)"
    by (simp add: attr_u16_def attr_u32_def nla_nums)
  with assms(2,3) show ?thesis by (simp add: get_port_attrs_def)
qed

lemma nl_set_eq:
  assumes "get_vid N info = Inr (attrs, vid)" "ubr_netlink_dev info w = Inr (Some b, hold b w)"
  shows "ubr_vlan_nl_set_cmd N info w = Inr (0, w)"
  using assms by (simp add: ubr_vlan_nl_set_cmd_def Let_def)

section \<open>A machine to run it on\<close>

definition plain_sock :: sock_env where
  "plain_sock = \<lparr>se_open = True, se_bind = 0, se_sendto = 0, se_cb = [0], se_last = 0\<rparr>"

definition plain_cli_env :: cli_env where
  "plain_cli_env = \<lparr>ce_nametoindex = (\<lambda>s. if s = ''br0'' then 1 else if s = ''eth0'' then 2 else
       if s = ''eth1'' then 3 else 0), ce_buf = True, ce_family_sock = plain_sock, ce_family_id = 26,
     ce_sock = (\<lambda>_. plain_sock), ce_atoi_ovf = (\<lambda>_. 0)\<rparr>"

definition plain_transport :: "nlmsg \<Rightarrow> genl_info" where
  "plain_transport m = \<lparr>gi_attrs = Some \<lparr>ia_ifindex = top_u32 UBR_NLA_IFINDEX (nh_attrs m),
     ia_fdb = top_nest UBR_NLA_FDB (nh_attrs m), ia_vlan = top_nest UBR_NLA_VLAN (nh_attrs m),
     ia_port = top_nest UBR_NLA_PORT (nh_attrs m)\<rparr>\<rparr>"

lemma plain_working: "working plain_cli_env"
  by (simp add: working_def plain_cli_env_def plain_sock_def get_family_def msg_query_def msg_send_def)

lemma plain_names [simp]:
  "ce_nametoindex plain_cli_env ''br0'' = 1" "ce_nametoindex plain_cli_env ''eth0'' = 2"
  "ce_nametoindex plain_cli_env ''eth1'' = 3" "ce_nametoindex plain_cli_env ''ubr0'' = 0"
  "ce_buf plain_cli_env"
  by (simp_all add: plain_cli_env_def)

lemma plain_transport_ok: "transport_ok plain_transport"
  by (simp add: transport_ok_def plain_transport_def)

lemma plain_parse_ok: "parse_ok plain_netlink"
  by (simp add: parse_ok_def plain_netlink_def)

lemma decimal_20: "decimal ''20'' = 20"
  by (simp add: decimal_def digits_value_def is_digit_def is_space_def)

section \<open>Properties of the tool\<close>



text \<open>
  With the help option the tool changes nothing but one thing: it prints usage texts, and
  the only message it ever sends is the request to flush the forwarding database.
\<close>

theorem help_changes_nothing_but_fdb:
  assumes "ce_buf E" "Opt_h \<in> set os" "main E os i argv = Inr (status, st)" "x \<in> set (g_io st)"
  shows "(\<exists>h. x = Usage h) \<or> (\<exists>m. x = Genl m \<and> nh_genl m = Some (UBR_NL_FDB_FLUSH, 1))"
proof (cases "main_options os cli_init")
  case None
  then have "st = cli_init" using assms(3) by (simp add: main_def)
  then show ?thesis using assms(4) by (simp add: cli_init_def)
next
  case (Some st0)
  then have "cli_ok st" "g_help_flag st"
    using good_main [OF assms(1), of os i argv] assms(2,3) by auto
  then have "io_ok True x" using assms(4) by (auto simp: cli_ok_def)
  then show ?thesis by (cases x) auto
qed

theorem help_changes_nothing_but_fdb_witness:
  "\<exists>status st. main plain_cli_env [Opt_h] 1 [''ubr'', ''vlan'', ''add''] = Inr (status, st) \<and>
     (\<forall>m. Route m \<notin> set (g_io st))"
proof -
  obtain status st where run: "main plain_cli_env [Opt_h] 1 [''ubr'', ''vlan'', ''add''] = Inr (status, st)"
    using good_main [OF plain_names(5)] by blast
  have "Opt_h \<in> set [Opt_h]" by simp
  from help_changes_nothing_but_fdb [OF plain_names(5) this run] run show ?thesis by blast
qed

text \<open>
  C38. Asking for help on flushing crashes the kernel: when the default bridge does not exist,
  the tool sends the flush request all the same, without an interface index, and the handler
  reads the name of the NULL device.
\<close>

theorem help_on_flush_crashes_the_kernel:
  assumes "working E" "ce_nametoindex E ''ubr0'' = 0" "transport_ok T"
  shows "\<exists>status st m. main E [Opt_h] (length pre) (pre @ [''fdb'', ''flush'']) = Inr (status, st) \<and>
    g_io st = [Genl m] \<and> kernel_request K N T mem m w = Inl NullDeref"
proof -
  let ?argv = "pre @ [''fdb'', ''flush'']"
  let ?st = "\<lambda>i. at_arg ''ubr0'' 0 (no_target\<lparr>t_help := True\<rparr>) i ?argv"
  obtain ret m k where r: "cmd_fdb_flush E (Some ''fdb flush'') (?st (length pre + 2)) =
      Inr (ret, (?st (length pre + 2))\<lparr>g_sockets := k, g_io := g_io (?st (length pre + 2)) @ [Genl m]\<rparr>)"
    and sent: "\<exists>m0 (k0 :: nat). m = m0\<lparr>nh_flags := NLM_F_REQUEST OR NLM_F_ACK\<rparr> \<and>
      nh_genl m0 = Some (UBR_NL_FDB_FLUSH, 1) \<and>
      nh_attrs m0 = (if g_brindex (?st (length pre + 2)) = 0 then []
        else [Attr UBR_NLA_IFINDEX (NlU32 (g_brindex (?st (length pre + 2))))])"
    unfolding cmd_fdb_flush_def
    by (rule request_working [OF assms(1), where f = "\<lambda>m st. m" and cmd = UBR_NL_FDB_FLUSH
        and st = "?st (length pre + 2)"])
  from sent have m: "nh_genl m = Some (UBR_NL_FDB_FLUSH, 1)" "nh_attrs m = []" by auto
  have "run_cmd h fdb_cmds E (?st (Suc (length pre))) = cmd_fdb_flush E (Some ''fdb flush'') (?st (length pre + 2))" for h
    using fdb_t.run_at_arg [of "\<lparr>c_cmd = ''flush'', c_func = cmd_fdb_flush, c_help = Some ''fdb flush''\<rparr>"
        ?argv "pre @ [''fdb'']" "[]"]
    by (simp add: fdb_cmds_def)
  moreover have "run_cmd h main_cmds E (?st (length pre)) = cmd_fdb E (Some ''fdb'') (?st (Suc (length pre)))" for h
    using main_t.run_at_arg [of "\<lparr>c_cmd = ''fdb'', c_func = cmd_fdb, c_help = Some ''fdb''\<rparr>"
        ?argv pre "[''flush'']"]
    by (simp add: main_cmds_def)
  moreover have "cli_init\<lparr>g_help_flag := True, g_brindex := 0,
      g_cmdl := \<lparr>cl_optind = length pre, cl_argc = length ?argv, cl_argv = ?argv\<rparr>\<rparr> = ?st (length pre)"
    by (simp add: at_arg_def cli_init_def no_target_def)
  ultimately have "main E [Opt_h] (length pre) ?argv = exit_status (Inr (ret,
      (?st (length pre + 2))\<lparr>g_sockets := k, g_io := g_io (?st (length pre + 2)) @ [Genl m]\<rparr>))"
    using assms(2) r by (simp add: main_def cmd_fdb_def exit_status_def cli_init_def)
  moreover have "kernel_request K N T mem m w = Inl NullDeref"
    using assms(3) m
    by (simp add: kernel_request_def transport_ok_def ubr_fdb_nl_flush_cmd_def ubr_netlink_dev_def)
  ultimately show ?thesis by simp
qed

theorem help_on_flush_crashes_the_kernel_witness:
  "\<exists>status st m. main plain_cli_env [Opt_h] 1 [''ubr'', ''fdb'', ''flush''] = Inr (status, st) \<and>
    g_io st = [Genl m] \<and>
    kernel_request plain_kernel plain_netlink plain_transport None m office = Inl NullDeref"
  using help_on_flush_crashes_the_kernel [OF plain_working plain_names(4) plain_transport_ok,
      of "[''ubr'']" plain_kernel plain_netlink None office]
  by simp

text \<open>
  C36. From the command line to the table: \<^verbatim>\<open>ubr -i BRIDGE vlan VID add\<close> sends one message,
  and the kernel's handler for it gives the bridge that VLAN and keeps the others.
\<close>

theorem tool_adds_a_vlan:
  assumes "working E" "ce_nametoindex E name = b" "b \<noteq> 0" "1 \<le> decimal s" "decimal s \<le> 4095"
    and "transport_ok T" "parse_ok N"
    and "w_devs w b = Some bd" "nd_is_ubr bd" "w_bridges w b = Some br" "bridge_ok K br"
    and "vlan_of K br (of_int (decimal s)) = None" "br_heap br a = None"
  shows "\<exists>status st m w' br'.
    main E [Opt_i name] (length pre) (pre @ [''vlan'', s, ''add'']) = Inr (status, st) \<and>
    g_io st = [Genl m] \<and> kernel_request K N T (Some a) m w = Inr (0, w') \<and>
    w_bridges w' b = Some br' \<and> bridge_ok K br' \<and>
    vlan_of K br' = (vlan_of K br)(of_int (decimal s) := Some a)"
proof -
  let ?vid = "of_int (decimal s) :: u16"
  note table = bridge_okD(1) [OF assms(11)]
  obtain status st m where run:
      "main E [Opt_i name] (length pre) (pre @ [''vlan'', s, ''add'']) = Inr (status, st)"
    and m: "g_io st = [Genl m]" "nh_genl m = Some (UBR_NL_VLAN_ADD, 1)"
      "nh_attrs m = [Attr UBR_NLA_IFINDEX (NlU32 b), Nest UBR_NLA_VLAN [(UBR_NLA_VLAN_VID, NlU16 ?vid)]]"
    using vlan_add_line [OF assms(1-3) read_vid_decimal [OF assms(4,5)], of pre] unfolding sends_def by blast
  note at = transport_vlan [OF assms(6) m(3)]
  have vid: "get_vid N (T m) = Inr (\<lparr>va_vid = Some ?vid, va_port = None, va_tagged = None, va_learning = None\<rparr>, ?vid)"
    using get_vid_named [OF assms(7) at, of ?vid "[]"] by (simp add: attr_u32_def)
  have dev: "ubr_netlink_dev (T m) w = Inr (Some b, hold b w)"
    by (rule netlink_dev_named [OF at _ assms(8,9)]) simp
  let ?b = "update_port_vlan a ?vid True (vlan_add K a ?vid br)"
  have "kernel_request K N T (Some a) m w = Inr (0, br_put b ?b w)"
    using nl_add_eq [OF vid dev assms(10) table, of "Some a"] assms(12) by (simp add: kernel_request_def m(2))
  moreover have "vlan_of K ?b = vlan_of K (vlan_add K a ?vid br)" by (rule vlan_table_cong) simp_all
  then have "vlan_of K ?b = (vlan_of K br)(?vid := Some a)"
    by (auto simp: vt.find_add [OF table assms(12,13)])
  ultimately show ?thesis
    using run m(1) bridge_ok_add_vlan [OF assms(11-13)]
    by (intro exI [of _ status] exI [of _ st] exI [of _ m] exI [of _ "br_put b ?b w"] exI [of _ ?b]) simp
qed

theorem tool_adds_a_vlan_witness:
  "\<exists>status st m w' br'.
    main plain_cli_env [Opt_i ''br0''] 1 [''ubr'', ''vlan'', ''20'', ''add''] = Inr (status, st) \<and>
    g_io st = [Genl m] \<and>
    kernel_request plain_kernel plain_netlink plain_transport (Some 102) m office = Inr (0, w') \<and>
    w_bridges w' 1 = Some br' \<and> vlan_of plain_kernel br' 20 = Some 102"
proof -
  have none: "vlan_of plain_kernel sample (of_int (decimal ''20'')) = None"
    by (simp add: decimal_20 vlan_of_def ubr_vlan_find_def sample_def plain_kernel_def)
  have fresh: "br_heap sample 102 = None" by (simp add: sample_def)
  have "nd_is_ubr bridge_dev" by (simp add: bridge_dev_def ubr_dev_setup_def)
  note tool_adds_a_vlan [OF plain_working plain_names(1) _ _ _ plain_transport_ok plain_parse_ok
      office_simps(1) this office_simps(5) sample_ok none fresh, of "[''ubr'']"]
  then obtain status st m w' br' where
    "main plain_cli_env [Opt_i ''br0''] 1 [''ubr'', ''vlan'', ''20'', ''add''] = Inr (status, st)"
    "g_io st = [Genl m]"
    "kernel_request plain_kernel plain_netlink plain_transport (Some 102) m office = Inr (0, w')"
    "w_bridges w' 1 = Some br'"
    "vlan_of plain_kernel br' = (vlan_of plain_kernel sample)(of_int (decimal ''20'') := Some 102)"
    by (auto simp: decimal_20)
  then show ?thesis by (auto simp: decimal_20)
qed

text \<open>
  C37. \<^verbatim>\<open>ubr -i BRIDGE vlan VID attach PORT [tagged]\<close> makes the port a member of the VLAN,
  tagged when the word is there and untagged, or as it was, when it is not.
\<close>

theorem tool_attaches_a_port:
  assumes "working E" "ce_nametoindex E name = b" "b \<noteq> 0" "1 \<le> decimal s" "decimal s \<le> 4095"
    and "ce_nametoindex E port = p" "p \<noteq> 0" "transport_ok T" "parse_ok N"
    and "w_devs w b = Some bd" "nd_is_ubr bd" "w_bridges w b = Some br" "bridge_ok K br"
    and "w_devs w p \<noteq> None" "ubr_port_find br (Some p) = int i"
    and "vlan_of K br (of_int (decimal s)) = Some a" "br_heap br a = Some v"
  shows "\<exists>status st m.
    main E [Opt_i name] (length pre)
      (pre @ ''vlan'' # s # ''attach'' # port # (if tagged then [''tagged''] else [])) = Inr (status, st) \<and>
    g_io st = [Genl m] \<and>
    kernel_request K N T mem m w = Inr (0, br_put b (vlan_write a (add_member i tagged v) br) w)"
proof -
  let ?vid = "of_int (decimal s) :: u16" and ?t = "if tagged then 1 else 0 :: u32"
  note table = bridge_okD(1) [OF assms(13)]
  obtain status st m where run: "main E [Opt_i name] (length pre)
      (pre @ ''vlan'' # s # ''attach'' # port # (if tagged then [''tagged''] else [])) = Inr (status, st)"
    and m: "g_io st = [Genl m]" "nh_genl m = Some (UBR_NL_VLAN_ATTACH, 1)"
      "nh_attrs m = [Attr UBR_NLA_IFINDEX (NlU32 b), Nest UBR_NLA_VLAN [(UBR_NLA_VLAN_VID, NlU16 ?vid),
         (UBR_NLA_VLAN_TAGGED, NlU32 ?t), (UBR_NLA_VLAN_PORT, NlU32 p)]]"
    using vlan_attach_line [OF assms(1-3) read_vid_decimal [OF assms(4,5)] assms(6,7), of pre tagged]
    unfolding sends_def by blast
  note at = transport_vlan [OF assms(8) m(3)]
  have "distinct (UBR_NLA_VLAN_VID # map fst [(UBR_NLA_VLAN_TAGGED, NlU32 ?t), (UBR_NLA_VLAN_PORT, NlU32 p)])"
    "list_all vlan_typed [(UBR_NLA_VLAN_TAGGED, NlU32 ?t), (UBR_NLA_VLAN_PORT, NlU32 p)]"
    by (simp_all add: nla_nums vlan_typed_def)
  note vid = get_vid_named [OF assms(9) at _ this, of ?vid, simplified]
  have dev: "ubr_netlink_dev (T m) w = Inr (Some b, hold b w)"
    by (rule netlink_dev_named [OF at _ assms(10,11)]) simp
  have port: "get_port \<lparr>va_vid = Some ?vid,
      va_port = attr_u32 UBR_NLA_VLAN_PORT [(UBR_NLA_VLAN_TAGGED, NlU32 ?t), (UBR_NLA_VLAN_PORT, NlU32 p)],
      va_tagged = attr_u32 UBR_NLA_VLAN_TAGGED [(UBR_NLA_VLAN_TAGGED, NlU32 ?t), (UBR_NLA_VLAN_PORT, NlU32 p)],
      va_learning = attr_u32 UBR_NLA_VLAN_LEARNING [(UBR_NLA_VLAN_TAGGED, NlU32 ?t), (UBR_NLA_VLAN_PORT, NlU32 p)]\<rparr> =
      Inr (p, ?t)"
    by (simp add: get_port_def attr_u32_def nla_nums)
  have "kernel_request K N T mem m w = Inr (0, br_put b (vlan_write a (add_member i tagged v) br) w)"
    using nl_attach_eq [OF vid port dev assms(14,12) table] assms(15-17)
    by (simp add: kernel_request_def m(2))
  then show ?thesis using run m(1) by blast
qed

theorem tool_attaches_a_port_witness:
  "\<exists>status st m. main plain_cli_env [Opt_i ''br0''] 1
      [''ubr'', ''vlan'', ''10'', ''attach'', ''eth0'', ''tagged''] = Inr (status, st) \<and>
    g_io st = [Genl m] \<and>
    kernel_request plain_kernel plain_netlink plain_transport None m office =
      Inr (0, br_put 1 (vlan_write 101 (add_member 1 True (sample_vlan 10 [1, 2] [2])) sample) office)"
proof -
  have ten: "decimal ''10'' = 10"
    by (simp add: decimal_def digits_value_def is_digit_def is_space_def)
  have vid: "vlan_of plain_kernel sample (of_int (decimal ''10'')) = Some 101" by (simp add: ten)
  have port: "ubr_port_find sample (Some 2) = int 1" by (simp add: sample_port_of)
  have ubr: "nd_is_ubr bridge_dev" by (simp add: bridge_dev_def ubr_dev_setup_def)
  have dev: "w_devs office 2 \<noteq> None" by simp
  have "(1 :: u32) \<noteq> 0" "(2 :: u32) \<noteq> 0" "1 \<le> decimal ''10''" "decimal ''10'' \<le> 4095"
    by (simp_all add: ten)
  from tool_attaches_a_port [OF plain_working plain_names(1) this(1,3,4) plain_names(2) this(2)
      plain_transport_ok plain_parse_ok office_simps(1) ubr office_simps(5) sample_ok dev port vid
      sample_simps(6), of "[''ubr'']" True None]
  show ?thesis by simp
qed

text \<open>
  A PVID that is not given is a PVID of 0: \<^verbatim>\<open>ubr -i BRIDGE port PORT set\<close>, and the same
  with the word \<^verbatim>\<open>pvid\<close> and nothing after it, are accepted, and the kernel takes the port's
  PVID away and turns its VLAN filtering off.
\<close>

theorem missing_pvid_clears_it:
  assumes "working E" "ce_nametoindex E name = b" "b \<noteq> 0" "ce_nametoindex E port = p" "p \<noteq> 0"
    and "args = [] \<or> args = [''pvid'']" "transport_ok T" "parse_ok N"
    and "w_devs w b = Some bd" "nd_is_ubr bd" "w_bridges w b = Some br" "bridge_ok K br"
    and "w_devs w p \<noteq> None" "ubr_port_find br (Some p) = int i" "i < UBR_MAX_PORTS"
  shows "\<exists>status st m w' br'.
    main E [Opt_i name] (length pre) (pre @ ''port'' # port # ''set'' # args) = Inr (status, st) \<and>
    g_io st = [Genl m] \<and> kernel_request K N T mem m w = Inr (0, w') \<and>
    w_bridges w' b = Some br' \<and> p_pvid (br_ports br' i) = 0 \<and>
    \<not> cb_vlan_filtering (p_ingress_cb (br_ports br' i))"
proof -
  note table = bridge_okD(1) [OF assms(12)]
  obtain status st m where run:
      "main E [Opt_i name] (length pre) (pre @ ''port'' # port # ''set'' # args) = Inr (status, st)"
    and m: "g_io st = [Genl m]" "nh_genl m = Some (UBR_NL_PORT_SET, 1)"
      "nh_attrs m = [Attr UBR_NLA_IFINDEX (NlU32 b), Nest UBR_NLA_PORT [(UBR_NLA_PORT_IFINDEX, NlU32 p)]]"
    using port_set_line [OF assms(1-6), of pre] unfolding sends_def by blast
  note at = transport_port [OF assms(7) m(3)]
  have attrs: "get_port_attrs N (T m) = Inr (\<lparr>pa_ifindex = Some p, pa_pvid = None\<rparr>, p)"
    using parse_port_named [OF assms(8) at, of p "[]"] by (simp add: attr_u16_def)
  obtain bd' where bd': "w_devs (hold p w) b = Some bd'" "nd_is_ubr bd'"
    using assms(9,10) by (cases "b = p") (auto simp: hold_def)
  have dev: "ubr_netlink_dev (T m) (hold p w) = Inr (Some b, hold b (hold p w))"
    by (rule netlink_dev_named [OF at _ bd']) simp
  have "kernel_request K N T mem m w = Inr (0, br_put b (port_write i
      (set_port_pvid 0 (vlan_of K br 0) (br_ports br i)) br) (hold p w))"
    using nl_port_set_eq [OF attrs assms(13) dev assms(11) table assms(14,15) refl]
    by (simp add: kernel_request_def m(2))
  then show ?thesis using run m(1) by (auto simp: set_port_pvid_def)
qed

theorem missing_pvid_clears_it_witness:
  "\<exists>status st m w' br'.
    main plain_cli_env [Opt_i ''br0''] 1 [''ubr'', ''port'', ''eth0'', ''set'', ''pvid''] = Inr (status, st) \<and>
    g_io st = [Genl m] \<and>
    kernel_request plain_kernel plain_netlink plain_transport None m office = Inr (0, w') \<and>
    w_bridges w' 1 = Some br' \<and> p_pvid (br_ports sample 1) = 10 \<and> p_pvid (br_ports br' 1) = 0"
proof -
  have port: "ubr_port_find sample (Some 2) = int 1" by (simp add: sample_port_of)
  have ubr: "nd_is_ubr bridge_dev" by (simp add: bridge_dev_def ubr_dev_setup_def)
  have "(1 :: u32) \<noteq> 0" "(2 :: u32) \<noteq> 0" "w_devs office 2 \<noteq> None" "1 < UBR_MAX_PORTS"
    "[''pvid''] = [] \<or> [''pvid''] = [''pvid'']"
    by (simp_all add: UBR_MAX_PORTS_256)
  from missing_pvid_clears_it [OF plain_working plain_names(1) this(1) plain_names(2) this(2,5)
      plain_transport_ok plain_parse_ok office_simps(1) ubr office_simps(5) sample_ok this(3) port this(4),
      of "[''ubr'']" None]
  show ?thesis by auto
qed

text \<open>
  Learning cannot be set: \<^verbatim>\<open>ubr -i BRIDGE vlan VID set learning WORD\<close> sends the value, the
  kernel's handler answers that all is well, for any VID, whether the bridge has it or not, and
  nothing changes.
\<close>

theorem learning_is_accepted_and_ignored:
  assumes "working E" "ce_nametoindex E name = b" "b \<noteq> 0" "1 \<le> decimal s" "decimal s \<le> 4095"
    and "atob (Some word) \<noteq> - 1" "transport_ok T" "parse_ok N"
    and "w_devs w b = Some bd" "nd_is_ubr bd"
  shows "\<exists>status st m nest.
    main E [Opt_i name] (length pre) (pre @ [''vlan'', s, ''set'', ''learning'', word]) = Inr (status, st) \<and>
    g_io st = [Genl m] \<and> Nest UBR_NLA_VLAN nest \<in> set (nh_attrs m) \<and>
    attr_u32 UBR_NLA_VLAN_LEARNING nest = Some (of_int (atob (Some word))) \<and>
    kernel_request K N T mem m w = Inr (0, w)"
proof -
  let ?vid = "of_int (decimal s) :: u16" and ?on = "of_int (atob (Some word)) :: u32"
  let ?rest = "[(UBR_NLA_VLAN_LEARNING, NlU32 ?on)]"
  obtain status st m where run:
      "main E [Opt_i name] (length pre) (pre @ [''vlan'', s, ''set'', ''learning'', word]) = Inr (status, st)"
    and m: "g_io st = [Genl m]" "nh_genl m = Some (UBR_NL_VLAN_SET, 1)"
      "nh_attrs m = [Attr UBR_NLA_IFINDEX (NlU32 b), Nest UBR_NLA_VLAN ((UBR_NLA_VLAN_VID, NlU16 ?vid) # ?rest)]"
    using vlan_set_line [OF assms(1-3) read_vid_decimal [OF assms(4,5)] assms(6), of pre]
    unfolding sends_def by blast
  note at = transport_vlan [OF assms(7) m(3)]
  have "distinct (UBR_NLA_VLAN_VID # map fst ?rest)" "list_all vlan_typed ?rest"
    by (simp_all add: nla_nums vlan_typed_def)
  note vid = get_vid_named [OF assms(8) at _ this, of ?vid, simplified]
  have dev: "ubr_netlink_dev (T m) w = Inr (Some b, hold b w)"
    by (rule netlink_dev_named [OF at _ assms(9,10)]) simp
  have "attr_u32 UBR_NLA_VLAN_LEARNING ((UBR_NLA_VLAN_VID, NlU16 ?vid) # ?rest) = Some ?on"
    by (simp add: attr_u32_def nla_nums)
  moreover have "kernel_request K N T mem m w = Inr (0, w)"
    using nl_set_eq [OF vid dev] by (simp add: kernel_request_def m(2))
  ultimately show ?thesis using run m(1,3)
    by (intro exI [of _ status] exI [of _ st] exI [of _ m]
        exI [of _ "(UBR_NLA_VLAN_VID, NlU16 ?vid) # ?rest"]) simp
qed

theorem learning_is_accepted_and_ignored_witness:
  "\<exists>status st m. main plain_cli_env [Opt_i ''br0''] 1
      [''ubr'', ''vlan'', ''20'', ''set'', ''learning'', ''off''] = Inr (status, st) \<and>
    g_io st = [Genl m] \<and>
    kernel_request plain_kernel plain_netlink plain_transport None m office = Inr (0, office)"
proof -
  have "nd_is_ubr bridge_dev" by (simp add: bridge_dev_def ubr_dev_setup_def)
  moreover have "atob (Some ''off'') \<noteq> - 1"
    by (simp add: atob_def atob_alt_def strncasecmp_eq_def strncmp_eq_def tolower_def)
  moreover have "(1 :: u32) \<noteq> 0" "1 \<le> decimal ''20''" "decimal ''20'' \<le> 4095"
    by (simp_all add: decimal_20)
  ultimately have "\<exists>status st m nest. main plain_cli_env [Opt_i ''br0''] (length [''ubr''])
      ([''ubr''] @ [''vlan'', ''20'', ''set'', ''learning'', ''off'']) = Inr (status, st) \<and>
    g_io st = [Genl m] \<and> Nest UBR_NLA_VLAN nest \<in> set (nh_attrs m) \<and>
    attr_u32 UBR_NLA_VLAN_LEARNING nest = Some (of_int (atob (Some ''off''))) \<and>
    kernel_request plain_kernel plain_netlink plain_transport None m office = Inr (0, office)"
    by (intro learning_is_accepted_and_ignored [OF plain_working plain_names(1) _ _ _ _
        plain_transport_ok plain_parse_ok office_simps(1)])
  then show ?thesis by auto
qed

text \<open>
  Commands by abbreviation. A word selects the command it is a prefix of when there is
  exactly one in the table, and none otherwise.
\<close>

theorem command_by_unique_prefix:
  "find_cmd cmds str = Some c \<longleftrightarrow>
     (\<exists>i < length cmds. c = cmds ! i \<and> prefix str (c_cmd (cmds ! i)) \<and>
        (\<forall>j < length cmds. prefix str (c_cmd (cmds ! j)) \<longrightarrow> j = i))"
  by (rule find_cmd_iff)

theorem command_by_unique_prefix_witness:
  "find_cmd main_cmds ''v'' = Some \<lparr>c_cmd = ''vlan'', c_func = cmd_vlan, c_help = Some ''vlan''\<rparr> \<and>
   find_cmd vlan_cmds ''a'' = None"
proof -
  have "find_cmd vlan_cmds ''a'' \<noteq> Some c" for c
    unfolding command_by_unique_prefix
    by (auto simp: vlan_cmds_def less_Suc_eq all_conj_distrib numeral_eq_Suc)
  moreover have "find_cmd main_cmds ''v'' = Some \<lparr>c_cmd = ''vlan'', c_func = cmd_vlan, c_help = Some ''vlan''\<rparr>"
    unfolding command_by_unique_prefix
    by (rule exI [of _ 4]) (auto simp: main_cmds_def less_Suc_eq numeral_eq_Suc)
  ultimately show ?thesis by (auto simp: not_Some_eq [symmetric] simp del: not_Some_eq)
qed



text \<open>
  Booleans on the command line: any word that starts with off or false is 0, any that
  starts with on or tru is 1, in either case, and any other is refused. The entry for true
  gives its length as 3, so that a word like trump is taken for true.
\<close>

theorem words_for_booleans:
  "atob (Some s) =
     (let l = map tolower s in
      if prefix ''off'' l \<or> prefix ''false'' l then 0
      else if prefix ''on'' l \<or> prefix ''tru'' l then 1
      else - 1)"
proof -
  have "strncasecmp_eq ''off'' s 3 \<longleftrightarrow> prefix ''off'' (map tolower s)"
    "strncasecmp_eq ''on'' s 2 \<longleftrightarrow> prefix ''on'' (map tolower s)"
    "strncasecmp_eq ''false'' s 5 \<longleftrightarrow> prefix ''false'' (map tolower s)"
    "strncasecmp_eq ''true'' s 3 \<longleftrightarrow> prefix ''tru'' (map tolower s)"
    by (simp_all add: strncasecmp_prefix tolower_alt del: list.map)
  moreover have "\<not> (prefix ''on'' l \<and> prefix ''false'' l)" for l
    by (cases l) auto
  ultimately show ?thesis
    unfolding atob_def atob_alt_def option.case atob_scan.simps Let_def by auto
qed

end
