(* ===== verification/Ubr_Usage.thy ===== *)
theory Ubr_Usage
  imports Ubr_Console
begin

text \<open>
  The usage texts of the tool (the help functions of src/ubr.c, vlan.c, port.c and fdb.c), each
  a function of the name the program was called by, and how they agree with the tables of
  commands and with what the tool does when it is asked for help.
\<close>

section \<open>The texts\<close>

definition line :: "string \<Rightarrow> string" where
  "line s = s @ [CHR 0x0A]"

definition usage :: "string \<Rightarrow> string \<Rightarrow> string" where
  "usage arg0 s = ''Usage: '' @ arg0 @ s"

definition VLAN_OPTS :: string where "VLAN_OPTS = ''[learning on|off] ''"

definition cmd_vlan_add_help :: "string \<Rightarrow> string" where
  "cmd_vlan_add_help arg0 =
     usage arg0 (line ('' vlan VID add [protocol VLAN-PROTO] [set '' @ VLAN_OPTS @ '']''))"

definition cmd_vlan_del_help :: "string \<Rightarrow> string" where
  "cmd_vlan_del_help arg0 = usage arg0 (line '' vlan VID del'')"

definition cmd_vlan_attach_help :: "string \<Rightarrow> string" where
  "cmd_vlan_attach_help arg0 = usage arg0 (line '' vlan VID attach PORT-LIST [tagged]'')"

definition cmd_vlan_detach_help :: "string \<Rightarrow> string" where
  "cmd_vlan_detach_help arg0 = usage arg0 '' vlan VID detach PORT-LIST [tagged]''"

definition cmd_vlan_set_help :: "string \<Rightarrow> string" where
  "cmd_vlan_set_help arg0 = usage arg0 (line ('' vlan VID set '' @ VLAN_OPTS))"

definition vlan_overview :: "string list" where
  "vlan_overview =
     ['' vlan VID COMMAND [OPTS] ...'',
      '''',
      ''COMMANDS'',
      '' add         Add VLAN to bridge'',
      '' del         Remove VLAN from bridge'',
      '' attach      Attach port(s) to VLAN'',
      '' detach      Detach port(s) from VLAN'',
      '' set         Set various VLAN properties'']"

definition PORT_OPTS :: string where "PORT_OPTS = ''[pvid none|VID]''"

definition cmd_port_set_help :: "string \<Rightarrow> string" where
  "cmd_port_set_help arg0 = usage arg0 (line ('' port IFNAME set '' @ PORT_OPTS))"

definition cmd_port_attach_help :: "string \<Rightarrow> string" where
  "cmd_port_attach_help arg0 = usage arg0 (line ('' port IFNAME attach '' @ PORT_OPTS))"

definition cmd_port_detach_help :: "string \<Rightarrow> string" where
  "cmd_port_detach_help arg0 = usage arg0 (line '' port IFNAME detach'')"

definition port_overview :: "string list" where
  "port_overview =
     ['' port PORT-LIST COMMAND [OPTS] ...'',
      '''',
      ''COMMANDS'',
      '' attach      Attach port(s) to bridge'',
      '' detach      Detach port(s) from bridge'',
      '' set         Set various port properties'']"

definition cmd_fdb_flush_help :: "string \<Rightarrow> string" where
  "cmd_fdb_flush_help arg0 = usage arg0 (line '' fdb flush'')"

definition fdb_overview :: "string list" where
  "fdb_overview =
     ['' fdb COMMAND [OPTS] ...'',
      '''',
      ''COMMANDS'',
      '' flush       Set flush forwarding database'']"

definition cmd_add_help :: "string \<Rightarrow> string" where
  "cmd_add_help arg0 = usage arg0 '' -i NAME add''"

definition cmd_del_help :: "string \<Rightarrow> string" where
  "cmd_del_help arg0 = usage arg0 '' -i NAME del''"

definition about :: "string list" where
  "about =
     ['' [OPTIONS] COMMAND [ARGS] ...'',
      '''',
      ''Options:'',
      '' -i, --iface BRIDGE  Bridge interface to manage, default ubr0'',
      '' -h, --help          Show help for last given command'',
      '' -j, --json          Read JSON from STDIN, or write to STDOUT'',
      '''',
      ''Commands:'',
      '' add                 Create a new bridge'',
      '' del                 Delete a bridge'',
      '' fdb                 Manage forwarding (MAC) database'',
      '' port PORT           Manage bridge ports'',
      '' vlan VID            Manage bridge VLANs'']"

text \<open>The help functions by the names the command tables of \<^verbatim>\<open>Ubr_Tool\<close> have for them.\<close>

definition overview :: "string list \<Rightarrow> string \<Rightarrow> string" where
  "overview ls arg0 = usage arg0 (concat (map line ls))"

definition help_functions :: "(string \<times> (string \<Rightarrow> string)) list" where
  "help_functions =
     [(''vlan VID add'', cmd_vlan_add_help), (''vlan VID del'', cmd_vlan_del_help),
      (''vlan VID attach'', cmd_vlan_attach_help), (''vlan VID detach'', cmd_vlan_detach_help),
      (''vlan VID set'', cmd_vlan_set_help), (''vlan'', overview vlan_overview),
      (''port IFNAME attach'', cmd_port_attach_help), (''port IFNAME detach'', cmd_port_detach_help),
      (''port IFNAME set'', cmd_port_set_help), (''port'', overview port_overview),
      (''fdb flush'', cmd_fdb_flush_help), (''fdb'', overview fdb_overview),
      (''add'', cmd_add_help), (''del'', cmd_del_help), (''ubr'', overview about)]"

text \<open>What a run has printed.\<close>

fun printed :: "string \<Rightarrow> io \<Rightarrow> string" where
  "printed arg0 (Usage h) = (case map_of help_functions h of None \<Rightarrow> '''' | Some f \<Rightarrow> f arg0)"
| "printed arg0 _ = ''''"

definition screen :: "string \<Rightarrow> cli \<Rightarrow> string" where
  "screen arg0 st = concat (map (printed arg0) (g_io st))"

lemmas usage_texts = help_functions_def usage_def line_def cmd_vlan_add_help_def cmd_vlan_del_help_def
  cmd_vlan_attach_help_def cmd_vlan_detach_help_def cmd_vlan_set_help_def cmd_port_attach_help_def
  cmd_port_detach_help_def cmd_port_set_help_def

section \<open>The overviews and the tables\<close>

text \<open>The commands an overview lists: the first words of the lines after its heading.\<close>

definition listed :: "string list \<Rightarrow> string list" where
  "listed ls =
     map (\<lambda>l. takeWhile (\<lambda>c. c \<noteq> CHR '' '') (drop 1 l))
       (drop 1 (dropWhile (\<lambda>l. l \<noteq> ''COMMANDS'' \<and> l \<noteq> ''Commands:'') ls))"

lemma overviews_list_the_tables:
  "listed vlan_overview = map c_cmd vlan_cmds" "listed port_overview = map c_cmd port_cmds"
  "listed fdb_overview = map c_cmd fdb_cmds" "listed about = map c_cmd main_cmds"
  by (simp_all add: listed_def vlan_overview_def vlan_cmds_def port_overview_def port_cmds_def
      fdb_overview_def fdb_cmds_def about_def main_cmds_def)

section \<open>Asking for help\<close>

lemma main_help_run:
  assumes "c \<in> set main_cmds" "argv = pre @ c_cmd c # args"
  shows "main E [Opt_h] (length pre) argv =
    exit_status (c_func c E (c_help c)
      (at_arg ''ubr0'' (ce_nametoindex E ''ubr0'') (no_target\<lparr>t_help := True\<rparr>) (Suc (length pre)) argv))"
proof -
  let ?b = "ce_nametoindex E ''ubr0''" and ?t = "no_target\<lparr>t_help := True\<rparr>"
  have "cli_init\<lparr>g_help_flag := True, g_brindex := ?b,
      g_cmdl := \<lparr>cl_optind = length pre, cl_argc = length argv, cl_argv = argv\<rparr>\<rparr> =
      at_arg ''ubr0'' ?b ?t (length pre) argv"
    by (simp add: at_arg_def cli_init_def no_target_def)
  then show ?thesis
    using main_t.run_at_arg [OF assms refl, of "Some ''ubr''" E "''ubr0''" ?b ?t]
    by (simp add: main_def exit_status_def cli_init_def)
qed

lemma refuse_helps:
  "t_help t \<Longrightarrow> refuse (Some h) (at_arg br b t i argv) =
     Inr (- EINVAL, (at_arg br b t i argv)\<lparr>g_io := [Usage h]\<rparr>)"
  by (simp add: refuse_def)

lemma vlan_help_run:
  assumes "c \<in> set vlan_cmds"
  shows "\<exists>st. main E [Opt_h] (length pre) (pre @ [''vlan'', c_cmd c]) = Inr (1, st) \<and>
    g_io st = [Usage (''vlan VID '' @ c_cmd c)]"
proof -
  let ?argv = "pre @ [''vlan'', c_cmd c]" and ?t = "no_target\<lparr>t_help := True\<rparr>"
  let ?v = "\<lparr>c_cmd = ''vlan'', c_func = cmd_vlan, c_help = Some ''vlan''\<rparr>"
  let ?st = "at_arg ''ubr0'' (ce_nametoindex E ''ubr0'') ?t (length pre + 2) ?argv"
  have "main E [Opt_h] (length pre) ?argv = exit_status (c_func c E (c_help c) ?st)"
    using main_help_run [of ?v ?argv pre "[c_cmd c]" E]
      vlan_t.run_at_arg [OF assms, of ?argv "pre @ [''vlan'']" "[]" "Suc (length pre)" "Some ''vlan''" E]
    by (simp add: main_cmds_def cmd_vlan_def)
  moreover have "c_func c E (c_help c) ?st = refuse (Some (''vlan VID '' @ c_cmd c)) ?st"
    using assms by (auto simp: vlan_cmds_def cmd_vlan_add_def cmd_vlan_del_def cmd_vlan_attach_def
        cmd_vlan_detach_def cmd_vlan_set_def no_target_def)
  ultimately show ?thesis by (simp add: refuse_helps)
qed

lemma no_options_left:
  "cl_argc cl = length (cl_argv cl) \<Longrightarrow> cl_argc cl \<le> cl_optind cl \<Longrightarrow> cl_optind cl = length (cl_argv cl) \<Longrightarrow>
     parse_opts opts cl = Inr (0, opts, cl)"
  by (simp add: parse_opts_def parse_opts_from.simps argv_at_def)

lemma port_help_run:
  assumes "c \<in> set port_cmds"
  shows "\<exists>st. main E [Opt_h] (length pre) (pre @ [''port'', c_cmd c]) = Inr (1, st) \<and>
    g_io st = [Usage (''port IFNAME '' @ c_cmd c)]"
proof -
  let ?argv = "pre @ [''port'', c_cmd c]" and ?t = "no_target\<lparr>t_help := True\<rparr>"
  let ?v = "\<lparr>c_cmd = ''port'', c_func = cmd_port, c_help = Some ''port''\<rparr>"
  let ?st = "at_arg ''ubr0'' (ce_nametoindex E ''ubr0'') ?t (length pre + 2) ?argv"
  have "main E [Opt_h] (length pre) ?argv = exit_status (c_func c E (c_help c) ?st)"
    using main_help_run [of ?v ?argv pre "[c_cmd c]" E]
      port_t.run_at_arg [OF assms, of ?argv "pre @ [''port'']" "[]" "Suc (length pre)" "Some ''port''" E]
    by (simp add: main_cmds_def cmd_port_def)
  moreover have "c_func c E (c_help c) ?st = refuse (Some (''port IFNAME '' @ c_cmd c)) ?st"
    using assms by (auto simp: port_cmds_def cmd_port_attach_def cmd_port_detach_def cmd_port_set_def
        no_options_left no_target_def at_arg_def)
  ultimately show ?thesis by (simp add: refuse_helps)
qed

text \<open>
  Help and the tables. The overview of each level lists exactly the commands its table
  dispatches to, in its order; and asking for help on a VLAN or port command prints the text of
  that command alone, which starts with the name the program was called by and the command as
  it is typed, and exits with 1.
\<close>

theorem help_prints_the_usage:
  assumes "c \<in> set vlan_cmds \<and> level = ''vlan'' \<and> place = ''vlan VID'' \<or>
      c \<in> set port_cmds \<and> level = ''port'' \<and> place = ''port IFNAME''"
  shows "(\<exists>st options.
      main E [Opt_h] (length (arg0 # opts)) ((arg0 # opts) @ [level, c_cmd c]) = Inr (1, st) \<and>
      screen arg0 st = ''Usage: '' @ arg0 @ '' '' @ place @ '' '' @ c_cmd c @ options) \<and>
    listed vlan_overview = map c_cmd vlan_cmds \<and> listed port_overview = map c_cmd port_cmds \<and>
    listed fdb_overview = map c_cmd fdb_cmds \<and> listed about = map c_cmd main_cmds"
proof -
  obtain st where st: "main E [Opt_h] (length (arg0 # opts)) ((arg0 # opts) @ [level, c_cmd c]) = Inr (1, st)"
    "g_io st = [Usage (place @ '' '' @ c_cmd c)]"
    using assms vlan_help_run [of c E "arg0 # opts"] port_help_run [of c E "arg0 # opts"] by auto
  have "\<exists>options. printed arg0 (Usage (place @ '' '' @ c_cmd c)) =
      ''Usage: '' @ arg0 @ '' '' @ place @ '' '' @ c_cmd c @ options"
    using assms by (auto simp: vlan_cmds_def port_cmds_def usage_texts)
  then have "\<exists>options. screen arg0 st = ''Usage: '' @ arg0 @ '' '' @ place @ '' '' @ c_cmd c @ options"
    unfolding screen_def st(2) by simp
  with st(1) overviews_list_the_tables show ?thesis by blast
qed

theorem help_prints_the_usage_witness:
  "\<exists>st options. main plain_cli_env [Opt_h] 2 [''ubr'', ''-h'', ''vlan'', ''add''] = Inr (1, st) \<and>
     screen ''ubr'' st = ''Usage: ubr vlan VID add'' @ options"
proof -
  let ?c = "\<lparr>c_cmd = ''add'', c_func = cmd_vlan_add, c_help = Some ''vlan VID add''\<rparr>"
  have "?c \<in> set vlan_cmds \<and> ''vlan'' = ''vlan'' \<and> ''vlan VID'' = ''vlan VID'' \<or>
      ?c \<in> set port_cmds \<and> ''vlan'' = ''port'' \<and> ''vlan VID'' = ''port IFNAME''"
    by (simp add: vlan_cmds_def)
  from help_prints_the_usage [OF this, of plain_cli_env "''ubr''" "[''-h'']"]
  show ?thesis by (simp add: numeral_eq_Suc)
qed

end
