(* ===== verification/Ubr_Strlcat.thy ===== *)
theory Ubr_Strlcat
  imports Ubr_Prelude
begin

text \<open>
  The bounded concatenation of strings (src/strlcat.c, and the copy in src/v1/strlcat.c). The
  destination is the memory object it is in, a list of bytes; an index outside it is a wild
  pointer. The source is a string without its NUL. Sizes are natural numbers: they are sizes
  of objects.
\<close>

definition NUL :: char where
  "NUL = CHR 0x00"

definition byte_at :: "string \<Rightarrow> nat \<Rightarrow> char res" where
  "byte_at buf i = (if i < length buf then Inr (buf ! i) else Inl WildPointer)"

definition byte_put :: "nat \<Rightarrow> char \<Rightarrow> string \<Rightarrow> string res" where
  "byte_put i c buf = (if i < length buf then Inr (buf[i := c]) else Inl WildPointer)"

text \<open>The end of the destination, within its first \<open>n\<close> bytes.\<close>

fun strlcat_end :: "string \<Rightarrow> nat \<Rightarrow> nat \<Rightarrow> nat res" where
  "strlcat_end buf 0 i = Inr i"
| "strlcat_end buf (Suc n) i =
     andthen (byte_at buf i) (\<lambda>c. if c \<noteq> NUL then strlcat_end buf n (i + 1) else Inr i)"

text \<open>The copy, while there is room; the source is read to its end in any case.\<close>

fun strlcat_copy :: "string \<Rightarrow> nat \<Rightarrow> nat \<Rightarrow> string \<Rightarrow> (string \<times> nat) res" where
  "strlcat_copy [] n i buf = Inr (buf, i)"
| "strlcat_copy (c # src) n i buf =
     (if n \<noteq> 0
      then andthen (byte_put i c buf) (\<lambda>buf'. strlcat_copy src (n - 1) (i + 1) buf')
      else strlcat_copy src n i buf)"

definition strlcat :: "string \<Rightarrow> string \<Rightarrow> nat \<Rightarrow> (nat \<times> string) res" where
  "strlcat buf src dsize =
     andthen (strlcat_end buf dsize 0) (\<lambda>dlen.
       let n = dsize - dlen in
       if n = 0 then Inr (dlen + length src, buf)
       else andthen (strlcat_copy src (n - 1) dlen buf) (\<lambda>(buf1, i).
         andthen (byte_put i NUL buf1) (\<lambda>buf2. Inr (dlen + length src, buf2))))"

section \<open>What it does\<close>

text \<open>The string in a buffer of \<open>n\<close> bytes.\<close>

definition cstr :: "nat \<Rightarrow> string \<Rightarrow> string" where
  "cstr n buf = takeWhile (\<lambda>c. c \<noteq> NUL) (take n buf)"

lemma cstr_length: "length (cstr n buf) \<le> n"
  unfolding cstr_def by (rule order_trans [OF length_takeWhile_le]) simp

lemma strlcat_end_eq:
  "i + n \<le> length buf \<Longrightarrow>
     strlcat_end buf n i = Inr (i + length (takeWhile (\<lambda>c. c \<noteq> NUL) (take n (drop i buf))))"
proof (induction n arbitrary: i)
  case (Suc n)
  then have "drop i buf = buf ! i # drop (Suc i) buf" by (simp add: Cons_nth_drop_Suc)
  with Suc show ?case by (simp add: byte_at_def)
qed simp

lemma strlcat_copy_eq:
  "i + n \<le> length buf \<Longrightarrow>
     strlcat_copy src n i buf =
       Inr (take i buf @ take n src @ drop (i + min n (length src)) buf, i + min n (length src))"
proof (induction src n i buf rule: strlcat_copy.induct)
  case (2 c src n i buf)
  show ?case
  proof (cases n)
    case 0
    with 2(2) show ?thesis using 2(3) by simp
  next
    case (Suc m)
    have "i < length buf" using 2(3) Suc by simp
    then have "byte_put i c buf = Inr (buf[i := c])" "take (Suc i) (buf[i := c]) = take i buf @ [c]"
      by (simp_all add: byte_put_def take_Suc_conv_app_nth)
    then show ?thesis using 2(1) 2(3) Suc by simp
  qed
qed simp

text \<open>The buffer after the call.\<close>

lemma strlcat_eq:
  assumes "dsize \<le> length buf"
  shows "strlcat buf src dsize =
    (let d = cstr dsize buf; k = min (dsize - 1 - length d) (length src) in
     Inr (length d + length src,
       if length d = dsize then buf
       else d @ take k src @ NUL # drop (length d + k + 1) buf))"
proof -
  let ?d = "cstr dsize buf" and ?k = "min (dsize - 1 - length (cstr dsize buf)) (length src)"
  have end_: "strlcat_end buf dsize 0 = Inr (length ?d)"
    using strlcat_end_eq [of 0 dsize buf] assms by (simp add: cstr_def)
  show ?thesis
  proof (cases "length ?d = dsize")
    case True
    then show ?thesis by (simp add: strlcat_def end_)
  next
    case False
    then have less: "length ?d < dsize" using cstr_length [of dsize buf] by simp
    have pre: "take (length ?d) buf = ?d"
      using less unfolding cstr_def
      by (metis length_takeWhile_le min.absorb2 min_def order_less_imp_le take_take takeWhile_eq_take)
    have "strlcat_copy src (dsize - length ?d - 1) (length ?d) buf =
        Inr (?d @ take (dsize - length ?d - 1) src @ drop (length ?d + ?k) buf, length ?d + ?k)"
      using strlcat_copy_eq [of "length ?d" "dsize - length ?d - 1" buf src] less assms pre
      by (simp add: diff_commute)
    moreover have "take (dsize - length ?d - 1) src = take ?k src"
      by (simp add: diff_commute min_def)
    moreover have "drop (length ?d + ?k) buf = buf ! (length ?d + ?k) # drop (length ?d + ?k + 1) buf"
      using less assms by (simp add: Cons_nth_drop_Suc)
    moreover have "length ?d + ?k < length buf" using less assms by auto
    ultimately show ?thesis using less
      by (simp add: strlcat_def end_ byte_put_def Let_def list_update_append)
  qed
qed

lemma cstr_no_nul: "NUL \<notin> set (cstr n buf)"
  by (auto simp: cstr_def dest: set_takeWhileD)

lemma cstr_append:
  "NUL \<notin> set xs \<Longrightarrow> length xs < n \<Longrightarrow> cstr n (xs @ NUL # ys) = xs"
proof -
  assume xs: "NUL \<notin> set xs" "length xs < n"
  then have "take n (xs @ NUL # ys) = xs @ NUL # take (n - Suc (length xs)) ys"
    by (cases "n - length xs") (auto intro: arg_cong [where f = "\<lambda>k. take k ys"])
  moreover have "takeWhile (\<lambda>c. c \<noteq> NUL) (xs @ zs) = xs @ takeWhile (\<lambda>c. c \<noteq> NUL) zs" for zs
    using xs(1) by (intro takeWhile_append2) auto
  ultimately show ?thesis by (simp add: cstr_def)
qed

lemma strlcat_fits:
  assumes "dsize \<le> length buf" "NUL \<notin> set src" "d = cstr dsize buf"
  shows "\<exists>buf'. strlcat buf src dsize = Inr (length d + length src, buf') \<and>
    length buf' = length buf \<and> drop dsize buf' = drop dsize buf \<and>
    (if length d = dsize then buf' = buf
     else cstr dsize buf' = take (dsize - 1) (d @ src) \<and>
       (dsize \<le> length d + length src \<longleftrightarrow> cstr dsize buf' \<noteq> d @ src))"
proof (cases "length d = dsize")
  case True
  then show ?thesis using strlcat_eq [OF assms(1), of src] assms(3) by (simp add: Let_def)
next
  case False
  then have less: "length d < dsize" using cstr_length [of dsize buf] assms(3) by simp
  let ?k = "min (dsize - 1 - length d) (length src)"
  let ?b = "d @ take ?k src @ NUL # drop (length d + ?k + 1) buf"
  have k: "length d + ?k < dsize" using less by auto
  have "NUL \<notin> set (d @ take ?k src)"
    using assms(2,3) cstr_no_nul [of dsize buf] by (auto dest: in_set_takeD)
  from cstr_append [OF this, of dsize "drop (length d + ?k + 1) buf"] k
  have b: "cstr dsize ?b = d @ take ?k src" by simp
  moreover have "take (dsize - 1) (d @ src) = d @ take ?k src"
    using less by (simp add: min_def)
  moreover have "length ?b = length buf" using k assms(1) by simp
  moreover have "drop dsize ?b = drop dsize buf"
    using k by (simp add: drop_Cons' min_def)
  moreover have "dsize \<le> length d + length src \<longleftrightarrow> d @ take ?k src \<noteq> d @ src"
    using less by (auto simp: min_def)
  ultimately show ?thesis using strlcat_eq [OF assms(1), of src] assms(3) False
    by (simp add: Let_def)
qed

text \<open>
  C40. \<^verbatim>\<open>strlcat\<close> stays inside the buffer of \<^verbatim>\<open>dsize\<close> bytes, whatever it holds, returns the
  length it tried to make, and, when the buffer held a string, leaves the longest prefix of the
  concatenation that fits with its NUL; the result says whether anything was cut off.
\<close>

theorem strlcat_appends_what_fits:
  assumes "dsize \<le> length buf" "NUL \<notin> set src" "d = cstr dsize buf"
  shows "\<exists>buf'. strlcat buf src dsize = Inr (length d + length src, buf') \<and>
    length buf' = length buf \<and> drop dsize buf' = drop dsize buf \<and>
    (if length d = dsize then buf' = buf
     else cstr dsize buf' = take (dsize - 1) (d @ src) \<and>
       (dsize \<le> length d + length src \<longleftrightarrow> cstr dsize buf' \<noteq> d @ src))"
  by (rule strlcat_fits [OF assms])

theorem strlcat_appends_what_fits_witness:
  "\<exists>buf'. strlcat (''ab'' @ [NUL, NUL, NUL]) ''cde'' 5 = Inr (5, buf') \<and> cstr 5 buf' = ''abcd''"
proof -
  have ab: "''ab'' = cstr 5 (''ab'' @ [NUL, NUL, NUL])" by (simp add: cstr_def NUL_def)
  have "(5 :: nat) \<le> length (''ab'' @ [NUL, NUL, NUL])" "NUL \<notin> set ''cde''"
    by (simp_all add: NUL_def)
  note spec = strlcat_appends_what_fits [OF this ab]
  have "length ''ab'' + length ''cde'' = 5" "take (5 - 1) (''ab'' @ ''cde'') = ''abcd''"
    "length ''ab'' \<noteq> 5"
    by simp_all
  with spec show ?thesis by metis
qed

end
