(* ===== verification/Ubr_V1.thy ===== *)
theory Ubr_V1
  imports Ubr_Cmdl Ubr_Strlcat
begin

text \<open>
  The first version of the tool (src/v1): its command tables, its recursive parser, the usage
  texts and the functions it calls, which do nothing yet. The parser moves a global index
  through an argument vector that ends with a NULL or, for the argument of \<^verbatim>\<open>help\<close>, in a table
  of ten pointers. What is printed to standard output is a string; the debug output is not
  modelled, but the loop over the vector that makes it reads it all the same.
\<close>

section \<open>Commands\<close>

text \<open>The functions of the tables, by name.\<close>

datatype v1_cb = V1_help | V1_version | V1_vlan_add | V1_vlan_del | V1_vlan_set
  | V1_vlan_attach | V1_vlan_detach

datatype v1_cmd = V1_cmd (v1_ctx: "v1_cmd list option") (v1_name: string) (v1_args: nat)
  (v1_use: "string option") (v1_text: string) (v1_cb: "v1_cb option")

definition VLAN_SETTINGS :: string where
  "VLAN_SETTINGS = ''[learning on|off] [fdb auto|N] [stg N]''"

definition PORT_LIST :: string where
  "PORT_LIST = ''PORT [PORT [...]]''"

definition v1_vlan_cmds :: "v1_cmd list" where
  "v1_vlan_cmds =
     [V1_cmd None ''add'' 0 (Some (''[protocol N] '' @ VLAN_SETTINGS)) ''Add VLAN to bridge'' (Some V1_vlan_add),
      V1_cmd None ''del'' 0 None ''Delete VLAN from bridge'' (Some V1_vlan_del),
      V1_cmd None ''set'' 0 (Some VLAN_SETTINGS) ''Set VLAN properties'' (Some V1_vlan_set),
      V1_cmd None ''attach'' 0 (Some (PORT_LIST @ '' [tagged]'')) ''Attach port(s) to VLAN'' (Some V1_vlan_attach),
      V1_cmd None ''detach'' 0 (Some PORT_LIST) ''Detatch port(s) from VLAN'' (Some V1_vlan_detach)]"

definition v1_cmds :: "v1_cmd list" where
  "v1_cmds =
     [V1_cmd None ''help'' 1 (Some ''[command]'')
        (CHR 0x09 # ''Show overview or help text for command(s)'') (Some V1_help),
      V1_cmd None ''version'' 0 None (CHR 0x09 # ''Show program version'') (Some V1_version),
      V1_cmd (Some v1_vlan_cmds) ''vlan'' 1 (Some ''VID'')
        (CHR 0x09 # ''Manage bridge VLAN settings'') None]"

definition string_match :: "string \<Rightarrow> string \<Rightarrow> bool" where
  "string_match a b = strncasecmp_eq a b (min (length a) (length b))"

section \<open>Usage texts\<close>

definition pad :: "nat \<Rightarrow> string \<Rightarrow> string" where
  "pad n s = s @ replicate (n - length s) (CHR '' '')"

definition v1_cmd_usage :: "string \<Rightarrow> v1_cmd \<Rightarrow> nat \<Rightarrow> nat \<Rightarrow> string" where
  "v1_cmd_usage pfx cmd name_max usage_max =
     pfx @ pad name_max (v1_name cmd) @ '' '' @
     pad usage_max (case v1_use cmd of None \<Rightarrow> '''' | Some u \<Rightarrow> u) @ '' '' @ v1_text cmd @ [CHR 0x0A]"

definition v1_cmd_help :: "string \<Rightarrow> v1_cmd \<Rightarrow> int \<times> string" where
  "v1_cmd_help pfx cmd =
     (0, ''Usage:'' @ [CHR 0x0A, CHR 0x09] @ v1_cmd_usage pfx cmd 0 0 @
         ''Help:'' @ [CHR 0x0A, CHR 0x09] @ v1_text cmd @ [CHR 0x0A])"

fun v1_maxima :: "v1_cmd list \<Rightarrow> nat \<Rightarrow> nat \<Rightarrow> nat \<times> nat" where
  "v1_maxima [] name_max usage_max = (name_max, usage_max)"
| "v1_maxima (cmd # ctx) name_max usage_max =
     v1_maxima ctx
       (if length (v1_name cmd) > name_max then length (v1_name cmd) else name_max)
       (case v1_use cmd of
          None \<Rightarrow> usage_max
        | Some u \<Rightarrow> if length u > usage_max then length u else usage_max)"

definition v1_usage :: "string \<Rightarrow> v1_cmd list \<Rightarrow> int \<times> string" where
  "v1_usage pfx ctx =
     (let (name_max, usage_max) = v1_maxima ctx 0 0
      in (0, concat (map (\<lambda>cmd. v1_cmd_usage pfx cmd name_max usage_max) ctx)))"

section \<open>The parser\<close>

text \<open>The entries of a vector of strings; the program's own ends with a NULL.\<close>

definition v1_cell :: "string option list \<Rightarrow> nat \<Rightarrow> string option res" where
  "v1_cell av i = (if i < length av then Inr (av ! i) else Inl WildPointer)"

definition v1_argv :: "string list \<Rightarrow> string option list" where
  "v1_argv argv = map Some argv @ [None]"

text \<open>The loop that prints at most ten arguments: it reads the next one before it counts.\<close>

fun v1_scan :: "nat \<Rightarrow> string option list \<Rightarrow> nat \<Rightarrow> unit res" where
  "v1_scan 0 av i = andthen (v1_cell av i) (\<lambda>c. Inr ())"
| "v1_scan (Suc n) av i =
     andthen (v1_cell av i) (\<lambda>c. case c of None \<Rightarrow> Inr () | Some a \<Rightarrow> v1_scan n av (i + 1))"

definition v1_parse_start :: "string \<Rightarrow> string option list \<Rightarrow> nat \<Rightarrow> nat res" where
  "v1_parse_start pfx av cmdind =
     andthen (v1_scan 10 av 0) (\<lambda>u. Inr (if pfx = '''' then 0 else cmdind))"

text \<open>
  The loop over the table. The result is the command found, the prefix and the index as they
  are left. The inner call is given the vector from the current argument on, and an index
  that has already moved past it.
\<close>

fun v1_parse_loop ::
  "string \<Rightarrow> string option list \<Rightarrow> v1_cmd list \<Rightarrow> nat \<Rightarrow> (v1_cmd option \<times> string \<times> nat) res" where
  "v1_parse_loop pfx av [] cmdind = Inr (None, pfx, cmdind)"
| "v1_parse_loop pfx av (V1_cmd ctx name args use txt cb # cmds) cmdind =
     andthen (v1_cell av cmdind) (\<lambda>arg. case arg of
       None \<Rightarrow> v1_parse_loop pfx av cmds cmdind
     | Some a \<Rightarrow>
         if \<not> string_match name a then v1_parse_loop pfx av cmds cmdind
         else case ctx of
           None \<Rightarrow> Inr (Some (V1_cmd ctx name args use txt cb), pfx, cmdind + 1)
         | Some inner \<Rightarrow>
             let buf = take 255 (pfx @ name @ '' '') in
             andthen (v1_parse_start buf (drop cmdind av) (cmdind + 1)) (\<lambda>i.
             andthen (v1_parse_loop buf (drop cmdind av) inner i) (\<lambda>(nxt, buf1, j).
               case nxt of
                 None \<Rightarrow> Inr (Some (V1_cmd ctx name args use txt cb), buf1, j - 1)
               | Some c \<Rightarrow> Inr (Some c, buf1, j))))"

definition v1_cmd_parse ::
  "string \<Rightarrow> string option list \<Rightarrow> v1_cmd list \<Rightarrow> nat \<Rightarrow> (v1_cmd option \<times> string \<times> nat) res" where
  "v1_cmd_parse pfx av ctx cmdind =
     andthen (v1_parse_start pfx av cmdind) (v1_parse_loop pfx av ctx)"

section \<open>The functions\<close>

definition PACKAGE_VERSION :: string where
  "PACKAGE_VERSION = ''v0.1''"

text \<open>\<^verbatim>\<open>strtok\<close> on blanks, called until it returns NULL.\<close>

definition blank :: "char \<Rightarrow> bool" where
  "blank c = (c = CHR '' '' \<or> c = CHR 0x09)"

function v1_tokens :: "string \<Rightarrow> string list" where
  "v1_tokens s =
     (case dropWhile blank s of
        [] \<Rightarrow> []
      | c # cs \<Rightarrow> (c # takeWhile (\<lambda>x. \<not> blank x) cs) # v1_tokens (dropWhile (\<lambda>x. \<not> blank x) cs))"
  by pat_completeness auto

termination
proof (relation "measure length")
  fix s c cs
  assume "dropWhile blank s = c # cs"
  then have "length (c # cs) \<le> length s" by (metis length_dropWhile_le)
  then show "(dropWhile (\<lambda>x. \<not> blank x) cs, s) \<in> measure length"
    using length_dropWhile_le [of "\<lambda>x. \<not> blank x" cs] by simp
qed simp

declare v1_tokens.simps [simp del]

definition v1_table :: "string \<Rightarrow> string option list" where
  "v1_table arg =
     (let toks = take 10 (v1_tokens arg) in map Some toks @ replicate (10 - length toks) None)"

definition v1_help :: "string \<Rightarrow> (int \<times> string) res" where
  "v1_help arg =
     andthen (v1_cmd_parse '''' (v1_table arg) v1_cmds 0) (\<lambda>(cmd, pfx, cmdind).
       Inr (case cmd of
          None \<Rightarrow> v1_usage pfx v1_cmds
        | Some c \<Rightarrow>
            if v1_cb c \<noteq> None then v1_cmd_help pfx c
            else (case v1_ctx c of Some ctx \<Rightarrow> v1_usage pfx ctx | None \<Rightarrow> (1, ''''))))"

definition v1_version :: "int \<times> string" where
  "v1_version = (0, PACKAGE_VERSION @ [CHR 0x0A])"

definition v1_vlan_add :: "string \<Rightarrow> int \<times> string" where
  "v1_vlan_add arg = (if arg = '''' then - 1 else 0, '''')"

fun v1_call :: "v1_cb \<Rightarrow> string \<Rightarrow> (int \<times> string) res" where
  "v1_call V1_help arg = v1_help arg"
| "v1_call V1_version arg = Inr v1_version"
| "v1_call V1_vlan_add arg = Inr (v1_vlan_add arg)"
| "v1_call V1_vlan_del arg = Inr (0, '''')"
| "v1_call V1_vlan_set arg = Inr (0, '''')"
| "v1_call V1_vlan_attach arg = Inr (0, '''')"
| "v1_call V1_vlan_detach arg = Inr (0, '''')"

text \<open>The arguments from index \<open>i\<close> on, joined in a buffer of 80 bytes.\<close>

fun v1_join :: "string list \<Rightarrow> nat \<Rightarrow> string \<Rightarrow> string res" where
  "v1_join [] i buf = Inr buf"
| "v1_join (a # as) i buf =
     andthen (if i > 1 then strlcat buf '' '' 80 else Inr (0, buf)) (\<lambda>(n, buf1).
     andthen (strlcat buf1 a 80) (\<lambda>(n, buf2). v1_join as (i + 1) buf2))"

definition v1_cmd_exec :: "string list \<Rightarrow> (int \<times> string) res" where
  "v1_cmd_exec argv =
     andthen (v1_cmd_parse '''' (v1_argv argv) v1_cmds 0) (\<lambda>(cmd, pfx, cmdind).
       case cmd of
         None \<Rightarrow> Inr (v1_usage pfx v1_cmds)
       | Some c \<Rightarrow>
           (case v1_cb c of
              Some cb \<Rightarrow>
                andthen (v1_cell (v1_argv argv) cmdind) (\<lambda>arg.
                  if (case arg of None \<Rightarrow> False | Some a \<Rightarrow> string_match a ''help'')
                  then Inr (v1_cmd_help pfx c)
                  else andthen (v1_join (drop cmdind argv) cmdind (replicate 80 NUL)) (\<lambda>buf.
                    v1_call cb (cstr 80 buf)))
            | None \<Rightarrow>
                (case v1_ctx c of
                   Some ctx \<Rightarrow> Inr (v1_usage pfx ctx)
                 | None \<Rightarrow> Inr (1, ''''))))"

text \<open>
  The main program: \<open>os\<close> is what \<^verbatim>\<open>getopt\<close> returns, \<open>optind\<close> and \<open>argv\<close> are as it leaves them.
  The name of the program is computed and kept; an unknown option exits with 0.
\<close>

datatype v1_opt = V1_d | V1_h | V1_j | V1_v | V1_unknown

definition strrchr :: "string \<Rightarrow> char \<Rightarrow> nat option" where
  "strrchr s c =
     (if c \<in> set s then Some (length s - 1 - length (takeWhile (\<lambda>x. x \<noteq> c) (rev s))) else None)"

definition v1_progname :: "string \<Rightarrow> string" where
  "v1_progname arg0 =
     (case strrchr arg0 (CHR ''/'') of None \<Rightarrow> arg0 | Some i \<Rightarrow> drop (i + 1) arg0)"

fun v1_options :: "v1_opt list \<Rightarrow> (int \<times> string) option" where
  "v1_options [] = None"
| "v1_options (V1_v # os) = Some v1_version"
| "v1_options (V1_unknown # os) = Some (0, '''')"
| "v1_options (opt # os) = v1_options os"

definition v1_main :: "v1_opt list \<Rightarrow> nat \<Rightarrow> string list \<Rightarrow> (string \<times> int \<times> string) res" where
  "v1_main os optind argv =
     andthen (v1_cell (v1_argv argv) 0) (\<lambda>arg0. andthen (nonnull arg0) (\<lambda>a.
       map_sum id (Pair (v1_progname a))
         (case v1_options os of
            Some r \<Rightarrow> Inr r
          | None \<Rightarrow>
              if optind \<ge> length argv
              then Inr (0, ''No argument, show ubr0 or first bridge found'' @ [CHR 0x0A])
              else v1_cmd_exec (drop optind argv))))"

section \<open>What the parser finds\<close>

lemma v1_cell_argv:
  "i \<le> length argv \<Longrightarrow>
     v1_cell (v1_argv argv) i = Inr (if i < length argv then Some (argv ! i) else None)"
  by (simp add: v1_cell_def v1_argv_def nth_append)

lemma v1_scan_argv: "i \<le> length argv \<Longrightarrow> v1_scan n (v1_argv argv) i = Inr ()"
  by (induction n arbitrary: i) (auto simp: v1_cell_argv split: option.splits)

text \<open>A table without a NULL in its \<open>n\<close> entries is read beyond its end.\<close>

lemma v1_scan_full:
  "list_all (\<lambda>c. c \<noteq> None) av \<Longrightarrow> i + n = length av \<Longrightarrow> v1_scan n av i = Inl WildPointer"
proof (induction n arbitrary: i)
  case (Suc n)
  then have "i < length av" by simp
  with Suc.prems(1) obtain a where "av ! i = Some a" by (auto simp: list_all_length)
  with Suc \<open>i < length av\<close> show ?case by (simp add: v1_cell_def)
qed (simp add: v1_cell_def)

lemma v1_scan_ends:
  "av ! k = None \<Longrightarrow> k < length av \<Longrightarrow> i \<le> k \<Longrightarrow> v1_scan n av i = Inr ()"
proof (induction n arbitrary: i)
  case (Suc n)
  then show ?case by (cases "i = k") (auto simp: v1_cell_def split: option.splits)
qed (simp add: v1_cell_def)

text \<open>A table whose commands have no table of their own: the first match, or nothing.\<close>

lemma v1_parse_flat:
  "list_all (\<lambda>c. v1_ctx c = None) cmds \<Longrightarrow> cmdind < length av \<Longrightarrow>
     v1_parse_loop pfx av cmds cmdind = Inr
       (case av ! cmdind of
          None \<Rightarrow> (None, pfx, cmdind)
        | Some a \<Rightarrow>
            (case List.find (\<lambda>c. string_match (v1_name c) a) cmds of
               None \<Rightarrow> (None, pfx, cmdind)
             | Some c \<Rightarrow> (Some c, pfx, cmdind + 1)))"
proof (induction cmds)
  case (Cons c cmds)
  then show ?case by (cases c) (auto simp: v1_cell_def split: option.splits)
qed (auto split: option.splits)

lemma v1_vlan_flat: "list_all (\<lambda>c. v1_ctx c = None) v1_vlan_cmds"
  by (simp add: v1_vlan_cmds_def)

text \<open>The top of the table: \<open>top_cmd n\<close> is its entry, \<open>vlan_sub\<close> what follows \<^verbatim>\<open>vlan\<close>.\<close>

definition vlan_sub :: "string option \<Rightarrow> v1_cmd option \<times> string \<times> nat" where
  "vlan_sub arg =
     (case (case arg of None \<Rightarrow> None
            | Some a \<Rightarrow> List.find (\<lambda>c. string_match (v1_name c) a) v1_vlan_cmds) of
        None \<Rightarrow> (Some (v1_cmds ! 2), ''vlan '', 0)
      | Some c \<Rightarrow> (Some c, ''vlan '', 2))"

lemma v1_parse_top:
  assumes "k < length av" "av ! k = None"
  shows "v1_cmd_parse '''' av v1_cmds cmdind = Inr
    (case av ! 0 of
       None \<Rightarrow> (None, '''', 0)
     | Some a \<Rightarrow>
         if string_match ''help'' a then (Some (v1_cmds ! 0), '''', 1)
         else if string_match ''version'' a then (Some (v1_cmds ! 1), '''', 1)
         else if string_match ''vlan'' a then vlan_sub (av ! 1)
         else (None, '''', 0))"
proof -
  have "av \<noteq> []" using assms(1) by auto
  moreover have "v1_parse_start pfx av i = Inr (if pfx = '''' then 0 else i)" for pfx i
    using v1_scan_ends [OF assms(2,1), of 0 10] by (simp add: v1_parse_start_def)
  moreover have "1 < length av" if "av ! 0 = Some a" for a
    using assms that by (cases k) auto
  ultimately show ?thesis
    using v1_parse_flat [OF v1_vlan_flat, of 1 av "''vlan ''"]
    by (auto simp: v1_cmd_parse_def v1_cmds_def v1_cell_def vlan_sub_def split: option.splits)
qed

text \<open>The joined arguments, within the 79 bytes there is room for.\<close>

fun v1_words :: "nat \<Rightarrow> string list \<Rightarrow> string" where
  "v1_words i [] = ''''"
| "v1_words i (a # as) = (if i > 1 then '' '' else '''') @ a @ v1_words (i + 1) as"

lemma strlcat_80:
  assumes "length buf = 80" "length (cstr 80 buf) < 80" "NUL \<notin> set src"
  obtains n buf' where "strlcat buf src 80 = Inr (n, buf')" "length buf' = 80"
    "cstr 80 buf' = take 79 (cstr 80 buf @ src)"
  using strlcat_fits [of 80 buf src, OF _ assms(3) refl] assms(1,2) by auto

lemma take_take_append: "take n (take n xs @ ys) = take n (xs @ ys)"
  by (cases "length xs \<le> n") auto

lemma v1_join_eq:
  assumes "length buf = 80" "length (cstr 80 buf) < 80" "\<forall>a \<in> set as. NUL \<notin> set a"
  shows "\<exists>buf'. v1_join as i buf = Inr buf' \<and> cstr 80 buf' = take 79 (cstr 80 buf @ v1_words i as)"
  using assms
proof (induction as i buf rule: v1_join.induct)
  case (2 a as i buf)
  obtain n1 buf1 where one: "(if i > 1 then strlcat buf '' '' 80 else Inr (0, buf)) = Inr (n1, buf1)"
    "length buf1 = 80" "cstr 80 buf1 = take 79 (cstr 80 buf @ (if i > 1 then '' '' else ''''))"
  proof (cases "i > 1")
    case True
    have "NUL \<notin> set '' ''" by (simp add: NUL_def)
    from strlcat_80 [OF 2(2,3) this] obtain n b where "strlcat buf '' '' 80 = Inr (n, b)" "length b = 80"
      "cstr 80 b = take 79 (cstr 80 buf @ '' '')" .
    then show thesis using True by (intro that [of n b]) simp_all
  next
    case False
    then show thesis using 2(2,3) by (intro that [of 0 buf]) simp_all
  qed
  have small: "length (cstr 80 buf1) < 80" by (simp add: one(3))
  obtain n2 buf2 where two: "strlcat buf1 a 80 = Inr (n2, buf2)" "length buf2 = 80"
    "cstr 80 buf2 = take 79 (cstr 80 buf1 @ a)"
    using strlcat_80 [OF one(2) small, of a] 2(4) by auto
  have "length (cstr 80 buf2) < 80" by (simp add: two(3))
  moreover have "\<forall>a \<in> set as. NUL \<notin> set a" using 2(4) by simp
  ultimately obtain buf' where rest: "v1_join as (i + 1) buf2 = Inr buf'"
    "cstr 80 buf' = take 79 (cstr 80 buf2 @ v1_words (i + 1) as)"
    using 2(1) [OF one(1) refl two(1) refl two(2)] by blast
  have "cstr 80 buf' = take 79 (cstr 80 buf @ v1_words i (a # as))"
    unfolding rest(2) two(3) one(3) take_take_append append_assoc v1_words.simps ..
  moreover have "v1_join (a # as) i buf = Inr buf'"
    unfolding v1_join.simps one(1) andthen.simps prod.case two(1) rest(1) ..
  ultimately show ?case by blast
qed simp

section \<open>What the functions do\<close>

lemma v1_help_fault_iff:
  "v1_help arg = Inl f \<longleftrightarrow> f = WildPointer \<and> 10 \<le> length (v1_tokens arg)"
proof (cases "10 \<le> length (v1_tokens arg)")
  case True
  then have "list_all (\<lambda>c. c \<noteq> None) (v1_table arg)" "length (v1_table arg) = 10"
    by (simp_all add: v1_table_def Let_def list_all_iff)
  then have "v1_scan 10 (v1_table arg) 0 = Inl WildPointer" by (intro v1_scan_full) simp_all
  with True show ?thesis by (auto simp: v1_help_def v1_cmd_parse_def v1_parse_start_def)
next
  case False
  let ?k = "length (v1_tokens arg)"
  have "?k < length (v1_table arg)" "v1_table arg ! ?k = None"
    using False by (simp_all add: v1_table_def Let_def nth_append)
  from v1_parse_top [OF this, of 0] False show ?thesis by (auto simp: v1_help_def split: prod.splits)
qed

lemma v1_call_fault: "v1_call cb arg = Inl f \<Longrightarrow> cb = V1_help \<and> v1_help arg = Inl f"
  by (cases cb) simp_all

text \<open>The parser on the program's own arguments.\<close>

lemma v1_parse_argv:
  "v1_cmd_parse '''' (v1_argv argv) v1_cmds 0 = Inr
    (case argv of
       [] \<Rightarrow> (None, '''', 0)
     | a # rest \<Rightarrow>
         if string_match ''help'' a then (Some (v1_cmds ! 0), '''', 1)
         else if string_match ''version'' a then (Some (v1_cmds ! 1), '''', 1)
         else if string_match ''vlan'' a
         then vlan_sub (case rest of [] \<Rightarrow> None | b # bs \<Rightarrow> Some b)
         else (None, '''', 0))"
  using v1_parse_top [of "length argv" "v1_argv argv" 0]
  by (auto simp: v1_argv_def nth_append split: list.splits)

lemma cstr_blank: "cstr n (replicate k NUL) = ''''"
  by (cases "min n k") (simp_all add: cstr_def)

lemma v1_join_all:
  assumes "\<forall>a \<in> set as. NUL \<notin> set a"
  obtains buf where "v1_join as i (replicate 80 NUL) = Inr buf" "cstr 80 buf = take 79 (v1_words i as)"
proof -
  have "cstr 80 (replicate 80 NUL) = ''''" by (rule cstr_blank)
  with v1_join_eq [of "replicate 80 NUL" as i] assms that show thesis by auto
qed

text \<open>A command of the table, with its arguments.\<close>

lemma v1_run:
  assumes "\<forall>a \<in> set argv. NUL \<notin> set a" "n \<le> length argv" "v1_cb c = Some cb"
    and "v1_cmd_parse '''' (v1_argv argv) v1_cmds 0 = Inr (Some c, pfx, n)"
  shows "v1_cmd_exec argv =
    (if n < length argv \<and> string_match (argv ! n) ''help'' then Inr (v1_cmd_help pfx c)
     else v1_call cb (take 79 (v1_words n (drop n argv))))"
proof -
  have "\<forall>a \<in> set (drop n argv). NUL \<notin> set a" using assms(1) by (auto dest: in_set_dropD)
  then obtain buf where "v1_join (drop n argv) n (replicate 80 NUL) = Inr buf"
    "cstr 80 buf = take 79 (v1_words n (drop n argv))"
    by (rule v1_join_all)
  then show ?thesis using assms(2-4) by (simp add: v1_cmd_exec_def v1_cell_argv cstr_blank)
qed

lemma vlan_sub_cases:
  obtains "vlan_sub arg = (Some (v1_cmds ! 2), ''vlan '', 0)"
  | a c where "arg = Some a" "c \<in> set v1_vlan_cmds" "string_match (v1_name c) a"
      "vlan_sub arg = (Some c, ''vlan '', 2)"
proof (cases "case arg of None \<Rightarrow> None | Some a \<Rightarrow> List.find (\<lambda>c. string_match (v1_name c) a) v1_vlan_cmds")
  case None
  then show thesis using that(1) by (simp add: vlan_sub_def)
next
  case (Some c)
  then obtain a where "arg = Some a" "List.find (\<lambda>c. string_match (v1_name c) a) v1_vlan_cmds = Some c"
    by (cases arg) auto
  moreover from this(2) have "c \<in> set v1_vlan_cmds" "string_match (v1_name c) a"
    by (auto simp: find_Some_iff)
  ultimately show thesis using that(2) [of a c] by (simp add: vlan_sub_def)
qed

lemma v1_cmds_nth:
  "v1_cb (v1_cmds ! 0) = Some V1_help" "v1_cb (v1_cmds ! 1) = Some V1_version"
  "v1_cb (v1_cmds ! 2) = None" "v1_ctx (v1_cmds ! 2) = Some v1_vlan_cmds"
  by (simp_all add: v1_cmds_def)

lemma v1_vlan_cb: "c \<in> set v1_vlan_cmds \<Longrightarrow> \<exists>cb. v1_cb c = Some cb \<and> cb \<noteq> V1_help"
  by (auto simp: v1_vlan_cmds_def)

section \<open>Properties of the first version\<close>

text \<open>
  The first version of the tool reads memory that is not its own in one case only: when the
  words after \<^verbatim>\<open>help\<close>, as far as they fit its buffer, are ten or more, its table of ten pointers
  has no NULL and is read one entry too far.
\<close>

theorem v1_faults_only_in_help:
  assumes "\<forall>a \<in> set argv. NUL \<notin> set a"
  shows "v1_cmd_exec argv = Inl f \<longleftrightarrow> f = WildPointer \<and>
    (\<exists>a rest. argv = a # rest \<and> string_match ''help'' a \<and>
       \<not> (rest \<noteq> [] \<and> string_match (hd rest) ''help'') \<and>
       10 \<le> length (v1_tokens (take 79 (v1_words 1 rest))))"
proof (cases argv)
  case Nil
  then show ?thesis using v1_parse_argv [of argv] by (simp add: v1_cmd_exec_def)
next
  case (Cons a rest)
  note parse = v1_parse_argv [of argv, unfolded Cons list.case, folded Cons]
  consider "string_match ''help'' a" | "\<not> string_match ''help'' a" "string_match ''version'' a"
    | "\<not> string_match ''help'' a" "\<not> string_match ''version'' a" "string_match ''vlan'' a"
    | "\<not> string_match ''help'' a" "\<not> string_match ''version'' a" "\<not> string_match ''vlan'' a"
    by blast
  then show ?thesis
  proof cases
    case 1
    with v1_run [OF assms _ v1_cmds_nth(1), of 1 "''''"] parse Cons show ?thesis
      by (auto simp: v1_help_fault_iff neq_Nil_conv)
  next
    case 2
    with v1_run [OF assms _ v1_cmds_nth(2), of 1 "''''"] parse Cons show ?thesis by auto
  next
    case 3
    then have parse': "v1_cmd_parse '''' (v1_argv argv) v1_cmds 0 =
        Inr (vlan_sub (case rest of [] \<Rightarrow> None | b # bs \<Rightarrow> Some b))"
      using parse by simp
    show ?thesis
    proof (cases rule: vlan_sub_cases [of "case rest of [] \<Rightarrow> None | b # bs \<Rightarrow> Some b"])
      case 1
      with parse' Cons 3 show ?thesis by (simp add: v1_cmd_exec_def v1_cmds_nth)
    next
      case (2 b c)
      obtain cb where "v1_cb c = Some cb" "cb \<noteq> V1_help" using v1_vlan_cb [OF 2(2)] by blast
      moreover have "2 \<le> length argv" using 2(1) Cons by (cases rest) auto
      ultimately show ?thesis using v1_run [OF assms, of 2 c cb "''vlan ''"] parse' 2(4) Cons 3(1)
        by (auto dest: v1_call_fault)
    qed
  next
    case 4
    with parse Cons show ?thesis by (simp add: v1_cmd_exec_def)
  qed
qed

theorem v1_faults_only_in_help_witness:
  "v1_cmd_exec (''help'' # replicate 10 ''x'') = Inl WildPointer \<and>
   no_fault (v1_cmd_exec [''vlan'', ''add'', ''x''])"
proof -
  have nul: "\<forall>a \<in> set (''help'' # replicate 10 ''x''). NUL \<notin> set a"
    "\<forall>a \<in> set [''vlan'', ''add'', ''x'']. NUL \<notin> set a"
    by (simp_all add: NUL_def)
  have "take 79 (v1_words 1 (replicate 10 ''x'')) = ''x x x x x x x x x x''"
    by (simp add: numeral_eq_Suc)
  then have "length (v1_tokens (take 79 (v1_words 1 (replicate 10 ''x'')))) = 10"
    by (simp add: v1_tokens.simps blank_def)
  moreover have "string_match ''help'' ''help''" "\<not> string_match ''x'' ''help''"
    "\<not> string_match ''help'' ''vlan''"
    by (simp_all add: string_match_def strncasecmp_eq_def strncmp_eq_def tolower_def)
  ultimately show ?thesis
    using v1_faults_only_in_help [OF nul(1), of WildPointer] v1_faults_only_in_help [OF nul(2)]
    by (auto simp: no_fault_def split: sum.splits)
qed

text \<open>
  A VLAN cannot be named: the parser tries the word after \<^verbatim>\<open>vlan\<close> against the subcommands,
  so that whatever follows a VID, as the usage text has it, the answer is the usage text.
\<close>

theorem v1_vlan_vid_prints_usage:
  assumes "is_digit d"
  shows "v1_cmd_exec (''vlan'' # (d # vid) # rest) = Inr (v1_usage ''vlan '' v1_vlan_cmds)"
proof -
  have "tolower d = d" "d \<noteq> CHR ''a''" "d \<noteq> CHR ''d''" "d \<noteq> CHR ''s''"
    using assms by (auto simp: is_digit_def tolower_def)
  then have "\<not> string_match (v1_name c) (d # vid)" if "c \<in> set v1_vlan_cmds" for c
    using that by (auto simp: v1_vlan_cmds_def string_match_def strncasecmp_eq_def strncmp_eq_def
        tolower_def)
  then have "vlan_sub (Some (d # vid)) = (Some (v1_cmds ! 2), ''vlan '', 0)"
    by (cases rule: vlan_sub_cases [of "Some (d # vid)"]) auto
  moreover have "string_match ''vlan'' ''vlan''" "\<not> string_match ''help'' ''vlan''"
    "\<not> string_match ''version'' ''vlan''"
    by (simp_all add: string_match_def strncasecmp_eq_def strncmp_eq_def tolower_def)
  ultimately show ?thesis
    using v1_parse_argv [of "''vlan'' # (d # vid) # rest"] by (simp add: v1_cmd_exec_def v1_cmds_nth)
qed

theorem v1_vlan_vid_prints_usage_witness:
  "v1_cmd_exec [''vlan'', ''10'', ''add''] = Inr (v1_usage ''vlan '' v1_vlan_cmds)"
proof -
  have "is_digit (CHR ''1'')" by (simp add: is_digit_def)
  from v1_vlan_vid_prints_usage [OF this, of "''0''" "[''add'']"] show ?thesis .
qed

end
