(* ===== verification/Ubr_Flight.thy ===== *)
theory Ubr_Flight
  imports Ubr_Switch
begin

text \<open>
  A frame on its way through \<^verbatim>\<open>ubr_forward\<close> and \<^verbatim>\<open>ubr_deliver\<close> (kernel/ubr-forward.c) while other
  CPUs change the bridge: the pipeline cut into the stages between which the bridge may be
  another one. Each stage reads the bridge as it is then; a stage itself is not cut.
\<close>

section \<open>Stages\<close>

text \<open>
  \<open>Entered\<close>: the control buffer is copied. \<open>Admitted\<close>: past VLAN ingress, which allows the
  frame or not. \<open>Looked_Up\<close>: past the FDB stage. \<open>Sending s ps first ts\<close>: in the loop of
  \<^verbatim>\<open>ubr_deliver\<close>, with the ports still to be given a clone, the one that takes the buffer itself,
  and the calls made. \<open>Landed\<close>: returned, with the value of \<^verbatim>\<open>ubr_forward\<close>.
\<close>

datatype flight =
    Entered sk_buff
  | Admitted bool sk_buff
  | Looked_Up bool sk_buff
  | Sending sk_buff "nat list" nat "tx list"
  | Landed bool sk_buff "tx list"

definition start_delivery :: "sk_buff \<Rightarrow> flight" where
  "start_delivery s =
     (let vec = cb_vec (skb_cb s); first = find_first_bit vec in
      if first = UBR_MAX_PORTS then Landed False s [KfreeSkb s]
      else Sending s (vec_bits_from (first + 1) vec) first [])"

fun flight_stage :: "kernel \<Rightarrow> frame_env \<Rightarrow> ubr \<Rightarrow> flight \<Rightarrow> (ubr \<times> flight) res" where
  "flight_stage K E br (Entered s) =
     andthen (ubr_vlan_ingress K br s) (\<lambda>(allow, so).
       case so of None \<Rightarrow> Inl UseAfterFree | Some s0 \<Rightarrow> Inr (br, Admitted allow s0))"
| "flight_stage K E br (Admitted allow s) =
     (if \<not> cb_ctrl (skb_cb s)
      then andthen (ubr_fdb_forward K E br s) (\<lambda>(ok, br1, s1). Inr (br1, Looked_Up (allow \<and> ok) s1))
      else Inr (br, Looked_Up False s))"
| "flight_stage K E br (Looked_Up allow s) =
     (if cb_ctrl (skb_cb s) then Inr (br, Landed True (s\<lparr>skb_dev := Some (br_dev br)\<rparr>) [])
      else if allow \<and> ubr_ctrl_ingress br s \<and> ubr_stp_ingress br s \<and> ubr_fdb_ingress br s
      then Inr (br, start_delivery s)
      else Inr (br, Landed False s [KfreeSkb s]))"
| "flight_stage K E br (Sending s (pidx # ps) first ts) =
     (if \<not> fe_clone E pidx then Inr (br, Landed False s (ts @ [KfreeSkb s]))
      else andthen (ubr_deliver_down K br s pidx) (\<lambda>t. Inr (br, Sending s ps first (ts @ [t]))))"
| "flight_stage K E br (Sending s [] first ts) =
     andthen (if first = 0 then ubr_deliver_up K E br s else ubr_deliver_down K br s first)
       (\<lambda>t. Inr (br, Landed False s (ts @ [t])))"
| "flight_stage K E br (Landed r s ts) = Inr (br, Landed r s ts)"

fun_cases flight_stage_EnteredE: "flight_stage K E br (Entered s) = Inr x"
  and flight_stage_AdmittedE: "flight_stage K E br (Admitted allow s) = Inr x"
  and flight_stage_LookedE: "flight_stage K E br (Looked_Up allow s) = Inr x"

text \<open>
  A flight among others: before each stage they change the bridge, and the stage has its own
  answers of the kernel.
\<close>

fun fly :: "kernel \<Rightarrow> (frame_env \<times> (ubr \<Rightarrow> ubr)) list \<Rightarrow> ubr \<Rightarrow> flight \<Rightarrow> (ubr \<times> flight) res" where
  "fly K [] br f = Inr (br, f)"
| "fly K ((E, others) # es) br f =
     andthen (flight_stage K E (others br) f) (\<lambda>(br', f'). fly K es br' f')"

text \<open>The bridges its stages see.\<close>

fun fly_bridges :: "kernel \<Rightarrow> (frame_env \<times> (ubr \<Rightarrow> ubr)) list \<Rightarrow> ubr \<Rightarrow> flight \<Rightarrow> ubr list" where
  "fly_bridges K [] br f = []"
| "fly_bridges K ((E, others) # es) br f =
     others br # (case flight_stage K E (others br) f of
        Inl e \<Rightarrow> [] | Inr (br', f') \<Rightarrow> fly_bridges K es br' f')"

section \<open>A flight ends\<close>

text \<open>How many stages are left at most.\<close>

fun stages_left :: "flight \<Rightarrow> nat" where
  "stages_left (Entered s) = UBR_MAX_PORTS + 3"
| "stages_left (Admitted allow s) = UBR_MAX_PORTS + 2"
| "stages_left (Looked_Up allow s) = UBR_MAX_PORTS + 1"
| "stages_left (Sending s ps first ts) = length ps + 1"
| "stages_left (Landed r s ts) = 0"

lemma vec_bits_from_length: "length (vec_bits_from i v) \<le> UBR_MAX_PORTS - i"
  using length_filter_le [of "ubr_vec_test v" "[i..<UBR_MAX_PORTS]"] by (simp add: vec_bits_from_def)

lemma start_delivery_left: "stages_left (start_delivery s) \<le> UBR_MAX_PORTS"
  using vec_bits_from_length [of "find_first_bit (cb_vec (skb_cb s)) + 1" "cb_vec (skb_cb s)"]
  by (auto simp: start_delivery_def Let_def UBR_MAX_PORTS_256)

lemma landed_iff: "stages_left f = 0 \<longleftrightarrow> (\<exists>r s ts. f = Landed r s ts)"
  by (cases f) auto

lemma flight_stage_left:
  "flight_stage K E br f = Inr (br', f') \<Longrightarrow> stages_left f' \<le> stages_left f - 1"
  by (induction K E br f rule: flight_stage.induct)
    (auto simp: res_simps start_delivery_left split: option.splits if_splits)

lemma fly_left: "fly K es br f = Inr (br', f') \<Longrightarrow> stages_left f' \<le> stages_left f - length es"
proof (induction es arbitrary: br f)
  case (Cons e es)
  obtain E others where "e = (E, others)" by (cases e)
  with Cons.prems obtain br1 f1 where "flight_stage K E (others br) f = Inr (br1, f1)"
    "fly K es br1 f1 = Inr (br', f')" by (auto simp: res_simps)
  with Cons.IH [of br1 f1] flight_stage_left [of K E "others br" f br1 f1] show ?case by simp
qed simp

lemma fly_lands:
  assumes "fly K es br f = Inr (br', f')" "stages_left f \<le> length es"
  shows "\<exists>r s ts. f' = Landed r s ts"
proof -
  have "stages_left f' = 0" using fly_left [OF assms(1)] assms(2) by simp
  then show ?thesis by (simp add: landed_iff)
qed

section \<open>Undisturbed, the stages are the pipeline\<close>

definition undisturbed :: "frame_env \<Rightarrow> nat \<Rightarrow> (frame_env \<times> (ubr \<Rightarrow> ubr)) list" where
  "undisturbed E n = replicate n (E, \<lambda>br. br)"

lemma undisturbed_simps [simp]:
  "undisturbed E 0 = []" "undisturbed E (Suc n) = (E, \<lambda>br. br) # undisturbed E n"
  "length (undisturbed E n) = n"
  by (simp_all add: undisturbed_def)

lemma fly_landed [simp]: "fly K (undisturbed E n) br (Landed r s ts) = Inr (br, Landed r s ts)"
  by (induction n) simp_all

text \<open>What is left of the loop of \<^verbatim>\<open>ubr_deliver\<close>.\<close>

definition finish_delivery ::
  "kernel \<Rightarrow> frame_env \<Rightarrow> ubr \<Rightarrow> sk_buff \<Rightarrow> nat list \<Rightarrow> nat \<Rightarrow> tx list res" where
  "finish_delivery K E br s ps first =
     andthen (deliver_clones K E br s ps) (\<lambda>(ok, ts).
       if \<not> ok then Inr (ts @ [KfreeSkb s])
       else andthen (if first = 0 then ubr_deliver_up K E br s else ubr_deliver_down K br s first)
         (\<lambda>t. Inr (ts @ [t])))"

lemma finish_delivery_Cons:
  "finish_delivery K E br s (i # ps) first =
     (if \<not> fe_clone E i then Inr [KfreeSkb s]
      else andthen (ubr_deliver_down K br s i) (\<lambda>t.
        andthen (finish_delivery K E br s ps first) (\<lambda>ts. Inr (t # ts))))"
proof (cases "fe_clone E i")
  case True
  show ?thesis
    by (cases "ubr_deliver_down K br s i"; cases "deliver_clones K E br s ps";
        cases "if first = 0 then ubr_deliver_up K E br s else ubr_deliver_down K br s first")
      (auto simp: finish_delivery_def True)
qed (simp add: finish_delivery_def)

lemma fly_sending:
  "length ps < n \<Longrightarrow> fly K (undisturbed E n) br (Sending s ps first ts) =
     andthen (finish_delivery K E br s ps first) (\<lambda>ts'. Inr (br, Landed False s (ts @ ts')))"
proof (induction ps arbitrary: n ts)
  case Nil
  then obtain m where "n = Suc m" by (cases n) auto
  then show ?case
    by (cases "if first = 0 then ubr_deliver_up K E br s else ubr_deliver_down K br s first")
      (auto simp: finish_delivery_def)
next
  case (Cons i ps)
  then obtain m where n: "n = Suc m" "length ps < m" by (cases n) auto
  show ?case
    by (cases "ubr_deliver_down K br s i"; cases "finish_delivery K E br s ps first")
      (simp_all add: n(1) finish_delivery_Cons Cons.IH [OF n(2)])
qed

lemma fly_delivery:
  assumes "UBR_MAX_PORTS \<le> n"
  shows "fly K (undisturbed E n) br (start_delivery s) =
    andthen (ubr_deliver K E br s) (\<lambda>ts. Inr (br, Landed False s ts))"
proof (cases "find_first_bit (cb_vec (skb_cb s)) = UBR_MAX_PORTS")
  case True
  then show ?thesis by (simp add: start_delivery_def ubr_deliver_def)
next
  case False
  let ?ps = "vec_bits_from (find_first_bit (cb_vec (skb_cb s)) + 1) (cb_vec (skb_cb s))"
  have "length ?ps < n"
    using vec_bits_from_length [of "find_first_bit (cb_vec (skb_cb s)) + 1" "cb_vec (skb_cb s)"] assms
    by (simp add: UBR_MAX_PORTS_256)
  from fly_sending [OF this] False show ?thesis
    by (simp add: start_delivery_def ubr_deliver_def finish_delivery_def Let_def)
qed

definition flight_stages :: nat where "flight_stages = UBR_MAX_PORTS + 3"

lemma flight_stages_Suc: "flight_stages = Suc (Suc (Suc UBR_MAX_PORTS))"
  by (simp add: flight_stages_def)

lemma fly_forward:
  "fly K (undisturbed E flight_stages) br (Entered s) =
     andthen (ubr_forward K E br s) (\<lambda>(r, br', s', ts). Inr (br', Landed r s' ts))"
proof (cases "ubr_vlan_ingress K br s")
  case (Inr x)
  obtain allow so where x: "x = (allow, so)" by (cases x)
  show ?thesis
  proof (cases so)
    case None
    with Inr x show ?thesis by (simp add: flight_stages_Suc ubr_forward_def)
  next
    case s0: (Some s0)
    show ?thesis
    proof (cases "cb_ctrl (skb_cb s0)")
      case True
      with Inr x s0 show ?thesis by (simp add: flight_stages_Suc ubr_forward_def Let_def)
    next
      case False
      show ?thesis
        by (cases "ubr_fdb_forward K E br s0")
          (auto simp: flight_stages_Suc ubr_forward_def Inr x s0 False Let_def fly_delivery
            ubr_ctrl_ingress_def ubr_stp_ingress_def ubr_fdb_ingress_def andthen_assoc split: prod.splits)
    qed
  qed
qed (simp add: flight_stages_Suc ubr_forward_def)

section \<open>What a flight sends, whatever the others do\<close>

text \<open>
  Past VLAN ingress the flight is bound to the members it was narrowed to, and each call it makes
  is for one of them, on the device the slot holds at that moment.
\<close>

definition sent_to :: "ubr set \<Rightarrow> nat set \<Rightarrow> tx list \<Rightarrow> bool" where
  "sent_to B M ts \<longleftrightarrow>
     (\<forall>t \<in> set ts. \<forall>d. tx_dev t = Some d \<longrightarrow> (\<exists>j \<in> M. \<exists>b \<in> B. port_netdev b j = Some d))"

fun bound_to :: "ubr set \<Rightarrow> nat set \<Rightarrow> addr option \<Rightarrow> flight \<Rightarrow> bool" where
  "bound_to B M vl (Entered s) = False"
| "bound_to B M vl (Admitted allow s) \<longleftrightarrow>
     cb_vlan (skb_cb s) = vl \<and> (allow \<longrightarrow> vec_ports (cb_vec (skb_cb s)) \<subseteq> M)"
| "bound_to B M vl (Looked_Up allow s) \<longleftrightarrow>
     cb_vlan (skb_cb s) = vl \<and> (allow \<longrightarrow> vec_ports (cb_vec (skb_cb s)) \<subseteq> M)"
| "bound_to B M vl (Sending s ps first ts) \<longleftrightarrow>
     cb_vlan (skb_cb s) = vl \<and> first \<in> M \<and> set ps \<subseteq> M - {0} \<and> sent_to B M ts"
| "bound_to B M vl (Landed r s ts) \<longleftrightarrow> cb_vlan (skb_cb s) = vl \<and> sent_to B M ts"

lemma sent_to_simps [simp]: "sent_to B M []" "sent_to B M [KfreeSkb s]"
  "sent_to B M (ts @ us) \<longleftrightarrow> sent_to B M ts \<and> sent_to B M us"
  by (auto simp: sent_to_def)

lemma sent_to_mono: "sent_to B M ts \<Longrightarrow> B \<subseteq> B' \<Longrightarrow> sent_to B' M ts"
  unfolding sent_to_def by blast

lemma bound_to_mono: "bound_to B M vl f \<Longrightarrow> B \<subseteq> B' \<Longrightarrow> bound_to B' M vl f"
  by (cases f) (auto intro: sent_to_mono)

lemma sent_one:
  assumes "helpers_ok K" "deliver_to K E br s j = Inr t" "j \<in> M" "br \<in> B"
  shows "sent_to B M [t]"
  using deliver_to_dev(1) [OF assms(1,2)] assms(3,4) by (auto simp: sent_to_def)

lemma start_delivery_bound:
  assumes "vec_ports (cb_vec (skb_cb s)) \<subseteq> M"
  shows "bound_to B M (cb_vlan (skb_cb s)) (start_delivery s)"
proof (cases "find_first_bit (cb_vec (skb_cb s)) = UBR_MAX_PORTS")
  case False
  then have "ubr_vec_test (cb_vec (skb_cb s)) (find_first_bit (cb_vec (skb_cb s)))"
    using find_first_bit_le [of "cb_vec (skb_cb s)"] by (intro find_first_bit_found) simp
  with False assms show ?thesis
    by (auto simp: start_delivery_def Let_def vec_ports_def set_vec_bits_from)
qed (simp add: start_delivery_def)

lemma flight_stage_bound:
  assumes K: "helpers_ok K" and b: "bound_to B M vl f" "br \<in> B"
    and r: "flight_stage K E br f = Inr (br', f')"
  shows "bound_to B M vl f'"
proof (cases f)
  case (Admitted allow s)
  with b r show ?thesis
    by (auto simp: res_simps vec_ports_def vec_simps elim!: fdb_forward_InrD split: if_splits)
next
  case (Looked_Up allow s)
  with b r start_delivery_bound [of s M B] show ?thesis by (auto split: if_splits)
next
  case (Sending s ps first ts)
  show ?thesis
  proof (cases ps)
    case Nil
    with Sending r obtain t where t: "deliver_to K E br s first = Inr t" "f' = Landed False s (ts @ [t])"
      by (auto simp: deliver_to_def res_simps)
    with b Sending sent_one [OF K t(1)] show ?thesis by simp
  next
    case (Cons i qs)
    show ?thesis
    proof (cases "fe_clone E i")
      case True
      with Cons Sending r obtain t where t: "ubr_deliver_down K br s i = Inr t"
        "f' = Sending s qs first (ts @ [t])" by (auto simp: res_simps)
      moreover have "i \<noteq> 0" "i \<in> M" using b Sending Cons by auto
      moreover from this t have "deliver_to K E br s i = Inr t" by (simp add: deliver_to_def)
      ultimately show ?thesis using b Sending Cons sent_one [OF K] by auto
    qed (use Cons Sending r b in auto)
  qed
qed (use b r in auto)

lemma fly_bound:
  assumes K: "helpers_ok K"
  shows "fly K es br f = Inr (br', f') \<Longrightarrow> bound_to B M vl f \<Longrightarrow>
     bound_to (B \<union> set (fly_bridges K es br f)) M vl f'"
proof (induction es arbitrary: br f B)
  case (Cons e es)
  obtain E others where e: "e = (E, others)" by (cases e)
  with Cons.prems obtain br1 f1 where 1: "flight_stage K E (others br) f = Inr (br1, f1)"
    "fly K es br1 f1 = Inr (br', f')" by (auto simp: res_simps)
  have "bound_to (insert (others br) B) M vl f" by (rule bound_to_mono [OF Cons.prems(2)]) blast
  from flight_stage_bound [OF K this _ 1(1)] have "bound_to (insert (others br) B) M vl f1" by simp
  from Cons.IH [OF 1(2) this]
  have "bound_to (insert (others br) B \<union> set (fly_bridges K es br1 f1)) M vl f'" .
  moreover have "B \<union> set (fly_bridges K (e # es) br f) =
      insert (others br) B \<union> set (fly_bridges K es br1 f1)" by (simp add: e 1(1))
  ultimately show ?case by (simp only:)
qed simp

text \<open>
  The first stage: what it admits is bound to the members of the VLAN it found, without the
  ports the frame's mask lacks.
\<close>

lemma entered_bound:
  assumes K: "helpers_ok K" and ok: "vlan_table_ok K br"
    and live: "\<And>a. cb_vlan (skb_cb s) = Some a \<Longrightarrow> br_heap br a \<noteq> None"
    and r: "flight_stage K E br (Entered s) = Inr (br', f')"
  shows "\<exists>M vl. bound_to B M vl f' \<and> (M = {} \<or> (\<exists>a v. vl = Some a \<and> br_heap br a = Some v \<and>
    M = {j. ubr_vec_test (vl_members v) j \<and> ubr_vec_test (cb_vec (skb_cb s)) j}))"
proof -
  from r obtain allow s0 where i: "ubr_vlan_ingress K br s = Inr (allow, Some s0)"
    and f': "f' = Admitted allow s0"
    by (auto simp: res_simps split: option.splits)
  show ?thesis
  proof (cases allow)
    case True
    with i have i: "ubr_vlan_ingress K br s = Inr (True, Some s0)" by simp
    obtain a v where "br_heap br a = Some v" "skb_cb s0 = (skb_cb s)\<lparr>cb_vlan := Some a,
        cb_vec := ubr_vec_and (cb_vec (skb_cb s)) (vl_members v)\<rparr>"
      by (rule ingress_accepts [OF K ok live i]) auto
    then show ?thesis by (intro exI conjI disjI2) (auto simp: f' vec_ports_def vec_simps)
  next
    case False
    then have "bound_to B {} (cb_vlan (skb_cb s0)) f'" by (simp add: f')
    then show ?thesis by blast
  qed
qed

lemma fly_isolated:
  assumes K: "helpers_ok K" and ok: "vlan_table_ok K (others br)"
    and live: "\<And>a. cb_vlan (skb_cb s) = Some a \<Longrightarrow> br_heap (others br) a \<noteq> None"
    and r: "fly K ((E, others) # es) br (Entered s) = Inr (br', Landed q s' ts)"
    and t: "t \<in> set ts" "tx_dev t = Some d"
  shows "\<exists>a v j b. cb_vlan (skb_cb s') = Some a \<and> br_heap (others br) a = Some v \<and>
    ubr_vec_test (vl_members v) j \<and> ubr_vec_test (cb_vec (skb_cb s)) j \<and>
    b \<in> set (fly_bridges K ((E, others) # es) br (Entered s)) \<and> port_netdev b j = Some d"
proof -
  from r obtain br1 f1 where 1: "flight_stage K E (others br) (Entered s) = Inr (br1, f1)"
    and 2: "fly K es br1 f1 = Inr (br', Landed q s' ts)"
    unfolding fly.simps andthen_Inr_iff by auto
  from entered_bound [OF K ok live 1, of "{others br}"] obtain M vl
    where M: "bound_to {others br} M vl f1" and vl: "M = {} \<or> (\<exists>a v. vl = Some a \<and>
      br_heap (others br) a = Some v \<and>
      M = {j. ubr_vec_test (vl_members v) j \<and> ubr_vec_test (cb_vec (skb_cb s)) j})" by blast
  have seen: "set (fly_bridges K ((E, others) # es) br (Entered s)) =
      {others br} \<union> set (fly_bridges K es br1 f1)"
    unfolding fly_bridges.simps 1 by simp
  from fly_bound [OF K 2 M] have "cb_vlan (skb_cb s') = vl"
    and "sent_to (set (fly_bridges K ((E, others) # es) br (Entered s))) M ts"
    unfolding seen by simp_all
  with t vl show ?thesis unfolding sent_to_def by blast
qed

end
