(* ===== verification/Ubr_Readers.thy ===== *)
theory Ubr_Readers
  imports Ubr_Flight Ubr_System
begin

text \<open>
  Frames in flight beside everything else: any number of readers, each a frame between two
  stages of Ubr_Flight on some CPU, among the steps of Ubr_System. What RCU gives them is the
  contract of \<^verbatim>\<open>call_rcu\<close>: a callback runs only when every reader that was there when it was
  queued has left. Readers that came later do not delay it.
\<close>

section \<open>Readers\<close>

text \<open>
  \<open>rd_wait\<close>: how many of the callbacks that wait on the bridge were queued before the reader
  came, so that they may still run while it is there. They are the first of the queue.
\<close>

record reader =
  rd_bridge :: netdev
  rd_wait :: nat
  rd_flight :: flight

record machine =
  m_world :: world
  m_readers :: "nat \<Rightarrow> reader option"

datatype machine_event =
    Other event
  | Rx_Begin nat netdev sk_buff
  | Tx_Begin nat netdev sk_buff
  | Stage nat frame_env
  | Leave nat

definition waited :: "netdev \<Rightarrow> reader \<Rightarrow> reader" where
  "waited b rd = (if rd_bridge rd = b then rd\<lparr>rd_wait := rd_wait rd - 1\<rparr> else rd)"

definition after_event :: "event \<Rightarrow> (nat \<Rightarrow> reader option) \<Rightarrow> nat \<Rightarrow> reader option" where
  "after_event e rds =
     (case e of Grace_Period b \<Rightarrow> (\<lambda>i. map_option (waited b) (rds i)) | _ \<Rightarrow> rds)"

inductive mstep :: "kernel \<Rightarrow> netlink_lib \<Rightarrow> machine \<Rightarrow> machine_event \<Rightarrow> machine \<Rightarrow> bool"
  for K N where
  mstep_other: "wstep K N (m_world m) e w' \<Longrightarrow>
    mstep K N m (Other e) \<lparr>m_world = w', m_readers = after_event e (m_readers m)\<rparr>"
| mstep_rx: "m_readers m r = None \<Longrightarrow> w_devs (m_world m) d = Some nd \<Longrightarrow>
    nd_rx_handler_data nd = Some (b, i) \<Longrightarrow> w_bridges (m_world m) b = Some br \<Longrightarrow>
    ubr_from_port br i = Inr br \<Longrightarrow>
    mstep K N m (Rx_Begin r d s) (m\<lparr>m_readers := (m_readers m)(r \<mapsto>
      \<lparr>rd_bridge = b, rd_wait = length (br_rcu br),
       rd_flight = Entered (s\<lparr>skb_cb := p_ingress_cb (br_ports br i)\<rparr>)\<rparr>)\<rparr>)"
| mstep_tx: "m_readers m r = None \<Longrightarrow> w_bridges (m_world m) b = Some br \<Longrightarrow>
    mstep K N m (Tx_Begin r b s) (m\<lparr>m_readers := (m_readers m)(r \<mapsto>
      \<lparr>rd_bridge = b, rd_wait = length (br_rcu br),
       rd_flight = Entered ((skb_pull s ETH_HLEN)\<lparr>skb_cb := p_ingress_cb (br_ports br 0)\<rparr>)\<rparr>)\<rparr>)"
| mstep_stage: "m_readers m r = Some rd \<Longrightarrow> w_bridges (m_world m) (rd_bridge rd) = Some br \<Longrightarrow>
    flight_stage K E br (rd_flight rd) = Inr (br', f') \<Longrightarrow>
    mstep K N m (Stage r E) \<lparr>m_world = br_put (rd_bridge rd) br' (m_world m),
      m_readers = (m_readers m)(r \<mapsto> rd\<lparr>rd_flight := f'\<rparr>)\<rparr>"
| mstep_leave: "m_readers m r = Some rd \<Longrightarrow> rd_flight rd = Landed q s ts \<Longrightarrow>
    mstep K N m (Leave r) (m\<lparr>m_readers := (m_readers m)(r := None)\<rparr>)"

inductive_cases mstep_stageE: "mstep K N m (Stage r E) m'"
inductive_cases mstep_otherE: "mstep K N m (Other e) m'"

text \<open>The contract: the first callback of the queue is one that no reader holds back.\<close>

definition rcu_contract :: "machine \<Rightarrow> netdev \<Rightarrow> bool" where
  "rcu_contract m b \<longleftrightarrow>
     (\<forall>r rd. m_readers m r = Some rd \<and> rd_bridge rd = b \<longrightarrow> 0 < rd_wait rd)"

text \<open>What is orderly is orderly in the presence of readers, as far as the contract allows.\<close>

definition orderly_machine :: "kernel \<Rightarrow> machine \<Rightarrow> machine_event \<Rightarrow> bool" where
  "orderly_machine K m me =
     (case me of
        Other e \<Rightarrow> orderly K (m_world m) e \<and> (\<forall>b. e = Grace_Period b \<longrightarrow> rcu_contract m b)
      | _ \<Rightarrow> True)"

section \<open>What the others leave to a reader\<close>

definition stays :: "kernel \<Rightarrow> ubr \<Rightarrow> ubr \<Rightarrow> bool" where
  "stays K br br' \<longleftrightarrow>
     (\<forall>vid a. vlan_of K br vid = Some a \<longrightarrow> vlan_of K br' vid = Some a) \<and>
     (\<exists>cbs. br_rcu br' = br_rcu br @ cbs) \<and>
     (\<forall>j. p_dev (br_ports br j) \<noteq> None \<longrightarrow> p_dev (br_ports br' j) \<noteq> None)"

definition world_stays :: "kernel \<Rightarrow> world \<Rightarrow> world \<Rightarrow> bool" where
  "world_stays K w w' \<longleftrightarrow>
     (\<forall>b br. w_bridges w b = Some br \<longrightarrow> (\<exists>br'. w_bridges w' b = Some br' \<and> stays K br br'))"

lemma stays_refl [simp]: "stays K br br"
  by (simp add: stays_def)

lemma world_stays_refl [simp]: "w_bridges w' = w_bridges w \<Longrightarrow> world_stays K w w'"
  by (simp add: world_stays_def)

lemma world_stays_put:
  "w_bridges w b = Some br \<Longrightarrow> stays K br br' \<Longrightarrow> world_stays K w (br_put b br' w)"
  by (simp add: world_stays_def)

lemma stays_fdb [simp]: "stays K br (br\<lparr>br_fdb := f\<rparr>)"
  using vlan_table_cong(2) [of "br\<lparr>br_fdb := f\<rparr>" br K] by (simp add: stays_def)

lemma stays_write:
  assumes "vlan_table_ok K br" "br_heap br a = Some v" "vl_vid v' = vl_vid v"
  shows "stays K br (vlan_write a v' br)"
  using vt.find_put [OF assms] by (simp add: stays_def)

lemma stays_port:
  "(p_dev (br_ports br i) \<noteq> None \<Longrightarrow> p_dev p \<noteq> None) \<Longrightarrow> stays K br (port_write i p br)"
  by (simp add: stays_def port_write_table)

lemma stays_add:
  assumes "vlan_table_ok K br" "vlan_of K br vid = None" "br_heap br a = None"
  shows "stays K br (update_port_vlan a vid True (vlan_add K a vid br))"
proof -
  let ?b = "vlan_add K a vid br" and ?u = "update_port_vlan a vid True (vlan_add K a vid br)"
  have "vlan_of K ?u = vlan_of K ?b" by (rule vlan_table_cong; simp)
  then show ?thesis
    using vt.find_add [OF assms] assms(2) by (auto simp: stays_def update_port_vlan_ports)
qed

lemma stays_enslaved:
  assumes ok: "bridge_ok K br"
    and slot: "free_slot br \<noteq> UBR_MAX_PORTS" "Port_Cleanup_Rcu (free_slot br) \<notin> set (br_rcu br)"
  shows "stays K br (enslaved K (free_slot br) dev br)"
proof -
  let ?i = "free_slot br"
  from bridge_okD(2) [OF ok] obtain a where a: "vlan_of K br 0 = Some a" by auto
  with vlan_of_SomeD(1) [OF bridge_okD(1) [OF ok]] obtain v where v: "br_heap br a = Some v" by blast
  let ?e = "take_slot ?i (init_port ?i dev (Some a) zero_port) a (add_member ?i False v) br"
  have e: "enslaved K ?i dev br = ?e" by (simp add: enslaved_def a v)
  have "stays K br (vlan_write a (add_member ?i False v) br)"
    using bridge_okD(1) [OF ok] v by (rule stays_write) simp
  then show ?thesis unfolding e by (simp add: stays_def take_slot_table)
qed

lemma stays_released: "stays K br (released i br)"
  using vlan_table_cong(2) [of "released i br" br K] by (simp add: stays_def released_def)

text \<open>Every orderly step but the end of a grace period stays.\<close>

lemma world_stays_netlink:
  assumes w: "world_ok K w" and cmd: "cmd \<noteq> UBR_NL_VLAN_DEL"
    and mem: "\<And>a. mem = Some a \<Longrightarrow> fresh_addr w a"
    and r: "ubr_genl_doit K N mem cmd info w = Inr (ret, w')"
  shows "world_stays K w w'"
proof (cases cmd)
  case UBR_NL_VLAN_ADD
  with r have "ubr_vlan_nl_add_cmd K N mem info w = Inr (ret, w')" by simp
  from nl_add_result [OF this] show ?thesis
  proof (elim disjE exE conjE)
    fix b br vid r br1
    assume br: "w_bridges w b = Some br" and new: "ubr_vlan_new K mem vid 0 0 br = Inr (r, br1)"
      and rest: "case r of Inl err \<Rightarrow> ret = err \<and> w' = br_put b br1 w
       | Inr a \<Rightarrow> ret = 0 \<and> (\<exists>v. br_heap br1 a = Some v \<and>
           w' = br_put b (update_port_vlan a (vl_vid v) True br1) w)"
    note table = bridge_okD(1) [OF bridge_liveD(1) [OF world_okD(1) [OF w br]]]
    from table new show ?thesis
    proof (cases rule: vlan_new_cases)
      case (3 a)
      have "br_heap br a = None" using mem [OF 3(2)] br by (simp add: fresh_addr_def)
      from stays_add [OF table 3(4) this] rest 3 show ?thesis
        by (auto simp: fun_upd_same intro: world_stays_put [OF br])
    qed (use rest world_stays_put [OF br stays_refl] in simp_all)
  qed simp
next
  case UBR_NL_VLAN_ATTACH
  with r have "ubr_vlan_nl_attach_cmd K N info w = Inr (ret, w')" by simp
  from nl_attach_result [OF this] show ?thesis
  proof (elim disjE exE conjE)
    fix b br vl vid port br' tagged
    assume br: "w_bridges w b = Some br"
      and add: "ubr_vlan_port_add vl (nat (ubr_port_find br (Some port))) (tagged \<noteq> (0::u32)) br = Inr (ret, br')"
      and w': "w' = br_put b br' w"
    note table = bridge_okD(1) [OF bridge_liveD(1) [OF world_okD(1) [OF w br]]]
    from add obtain a v where v: "br_heap br a = Some v"
      "br' = vlan_write a (add_member (nat (ubr_port_find br (Some port))) (tagged \<noteq> 0) v) br"
      by (auto dest!: vlan_port_add_InrD)
    have "stays K br br'" unfolding v(2) using table v(1) by (rule stays_write) simp
    with w' show ?thesis using world_stays_put [OF br] by simp
  qed simp
next
  case UBR_NL_VLAN_DETACH
  with r have "ubr_vlan_nl_detach_cmd K N info w = Inr (ret, w')" by simp
  from nl_detach_result [OF this] show ?thesis
  proof (elim disjE exE conjE)
    fix b br vl vid port br'
    assume br: "w_bridges w b = Some br"
      and del: "ubr_vlan_port_del vl (nat (ubr_port_find br (Some port))) br = Inr (ret, br')"
      and w': "w' = br_put b br' w"
    note table = bridge_okD(1) [OF bridge_liveD(1) [OF world_okD(1) [OF w br]]]
    from del obtain a v where v: "br_heap br a = Some v"
      "br' = vlan_write a (del_member (nat (ubr_port_find br (Some port))) v) br"
      by (auto dest!: vlan_port_del_InrD)
    have "stays K br br'" unfolding v(2) using table v(1) by (rule stays_write) simp
    with w' show ?thesis using world_stays_put [OF br] by simp
  qed simp_all
next
  case UBR_NL_PORT_SET
  with r have "ubr_port_nl_set_cmd K N info w = Inr (ret, w')" by simp
  from nl_port_set_result [OF this] show ?thesis
  proof (elim disjE exE conjE)
    fix attrs ifindex b br i pvid vl
    assume br: "w_bridges w b = Some br"
      and w': "w' = br_put b (port_write i (set_port_pvid pvid vl (br_ports br i)) br)
                  (hold_port ifindex w)"
    have "stays K br (port_write i (set_port_pvid pvid vl (br_ports br i)) br)"
      by (rule stays_port) (simp add: set_port_pvid_def)
    with w' br show ?thesis by (simp add: world_stays_def)
  qed simp_all
qed (use r cmd nl_set_result nl_flush_result in \<open>fastforce+\<close>)

lemma world_stays_forward:
  assumes K: "helpers_ok K" and br: "w_bridges w b = Some br"
    and f: "ubr_forward K E br s = Inr (r, br', s', ts)" and c: "\<not> cb_ctrl (skb_cb s)"
  shows "world_stays K w (br_put b br' w)"
  using forward_frame [OF K c f] world_stays_put [OF br] by auto

lemma world_stays_port_del:
  assumes w: "world_ok K w" and r: "ubr_port_del b dev w = Inr (ret, w')"
  shows "world_stays K w w'"
proof -
  from r obtain d p i where d: "w_devs w dev = Some d" "nd_rx_handler_data d = Some (p, i)"
    and b: "w_bridges w b \<noteq> None"
    by (auto simp: ubr_port_del_def netdev_priv_Inr_iff dev_at_def Let_def res_simps split: option.splits)
  from world_okD(2) [OF w d(1)] d(2) obtain br where h: "w_bridges w p = Some br"
    "ubr_vec_test (br_busy br) i"
    by (auto simp: handler_ok_def)
  have "slot_ok i (br_ports br i)"
    using slots_okD [OF bridge_okD(3) [OF bridge_liveD(1) [OF world_okD(1) [OF w h(1)]]] h(2)] .
  with r port_del_eq [OF d h(1) _ b] have "w' = br_put p (released i br) (dev_upd dev (unlinked b) w)"
    by simp
  with h(1) stays_released show ?thesis by (simp add: world_stays_def)
qed

lemma world_stays_add_slave:
  assumes w: "world_ok K w" and P: "first_error P = 0"
    and idle: "\<And>br. w_bridges w b = Some br \<Longrightarrow> Port_Cleanup_Rcu (free_slot br) \<notin> set (br_rcu br)"
    and r: "ubr_ndo_add_slave K P b dev w = Inr (ret, w')"
  shows "world_stays K w w'"
proof -
  from r obtain br d where br: "w_bridges w b = Some br" and d: "w_devs w dev = Some d"
    by (auto simp: ubr_ndo_add_slave_def ubr_port_add_def dev_at_def res_simps)
  note live = world_okD(1) [OF w br]
  show ?thesis
  proof (cases "port_add_allowed d \<noteq> 0 \<or> free_slot br = UBR_MAX_PORTS")
    case True
    with r port_add_refused [OF br d, of K P] show ?thesis
      by (cases "port_add_allowed d = 0") (auto simp: ubr_ndo_add_slave_def)
  next
    case False
    have slot: "free_slot br \<noteq> UBR_MAX_PORTS" "Port_Cleanup_Rcu (free_slot br) \<notin> set (br_rcu br)"
      using False idle [OF br] by auto
    obtain bd where bd: "w_devs w b = Some bd" using world_okD(3) [OF w br] by auto
    have "port_add_allowed d = 0" using False by simp
    from port_add_done [OF br d bd bridge_liveD(1,2) [OF live] this slot, of P] P r
    have "w_bridges w' = (w_bridges w)(b \<mapsto> enslaved K (free_slot br) dev br)"
      by (simp add: ubr_ndo_add_slave_def same_devs_def)
    with br stays_enslaved [OF bridge_liveD(1) [OF live] slot, of dev] show ?thesis
      by (simp add: world_stays_def)
  qed
qed

lemma world_stays_newlink:
  assumes new: "w_bridges w b = None" and r: "ubr_dev_newlink K L b nd w = Inr (ret, w')"
  shows "world_stays K w (if ret = 0 then w' else w'\<lparr>w_bridges := (w_bridges w')(b := None)\<rparr>)"
proof -
  from r obtain br where "w_bridges w' = (w_bridges w)(b \<mapsto> br)"
    unfolding newlink_result by (auto split: option.splits if_splits)
  with new show ?thesis by (auto simp: world_stays_def)
qed

lemma world_stays_event:
  assumes w: "world_ok K w" and r: "ubr_device_event ev dev w = Inr (ret, w')"
  shows "world_stays K w w'"
proof (cases "ev = NETDEV_UNREGISTER \<and> (\<exists>d. w_devs w dev = Some d \<and> netif_is_ubr_port d)")
  case True
  with r obtain b ret' where "ubr_port_del b dev w = Inr (ret', w')"
    by (auto simp: ubr_device_event_def dev_at_def res_simps split: option.splits)
  then show ?thesis by (rule world_stays_port_del [OF w])
next
  case False
  with r have "w' = w"
    by (auto simp: ubr_device_event_def dev_at_def res_simps split: option.splits if_splits netdev_event.splits)
  then show ?thesis by simp
qed

lemma world_stays_step:
  assumes K: "helpers_ok K" and w: "world_ok K w" and adm: "orderly K w e"
    and e: "\<And>b. e \<noteq> Grace_Period b" and s: "wstep K N w e w'"
  shows "world_stays K w w'"
  using s
proof (cases rule: wstep.cases)
  case (step_netlink mem cmd info ret)
  with w adm show ?thesis by (auto simp: orderly_def intro: world_stays_netlink)
next
  case (step_newlink L b nd ret w'')
  with adm have "w_bridges w b = None" by (simp add: orderly_def)
  with step_newlink world_stays_newlink show ?thesis by simp
next
  case (step_add_slave P b dev ret)
  with adm show ?thesis by (auto simp: orderly_def intro: world_stays_add_slave [OF w])
next
  case (step_del_slave b dev ret)
  with w show ?thesis by (auto simp: ubr_ndo_del_slave_def intro: world_stays_port_del)
next
  case (step_receive d nd b i br E s r br' s' ts)
  have br: "w_bridges w b = Some br" using step_receive by (simp add: netdev_priv_Inr_iff)
  note ok = bridge_liveD(1) [OF world_okD(1) [OF w br]]
  have i: "ubr_vec_test (br_busy br) i"
    using world_okD(2) [OF w] step_receive br by (fastforce simp: handler_ok_def)
  from step_receive obtain q where "ubr_forward K E br (enter_port br i s) = Inr (q, br', s', ts)"
    by (auto simp: rx_handler_eq [OF ok i] res_simps)
  from world_stays_forward [OF K br this] port_cb(3) [OF ok i] step_receive show ?thesis by simp
next
  case (step_transmit b br E s br' ts)
  then have br: "w_bridges w b = Some br" by (simp add: netdev_priv_Inr_iff)
  note live = world_okD(1) [OF w br]
  from step_transmit obtain r s' ts' where
    "ubr_forward K E br ((skb_pull s ETH_HLEN)\<lparr>skb_cb := p_ingress_cb (br_ports br 0)\<rparr>) =
       Inr (r, br', s', ts')"
    by (auto simp: ubr_ndo_start_xmit_def res_simps)
  from world_stays_forward [OF K br this] port_cb(3) [OF bridge_liveD(1,4) [OF live]] step_transmit
  show ?thesis by simp
next
  case (step_age b br walk)
  with world_stays_put [of w b br K] show ?thesis by (simp add: netdev_priv_Inr_iff)
next
  case (step_event ev dev r)
  with world_stays_event [OF w] show ?thesis by simp
qed (use e adm in \<open>simp_all add: orderly_def\<close>)

section \<open>The invariant of a reader\<close>

text \<open>A slot that a reader with \<open>n\<close> callbacks before it may send to keeps its device till it leaves.\<close>

definition survives :: "nat \<Rightarrow> ubr \<Rightarrow> nat \<Rightarrow> bool" where
  "survives n br j \<longleftrightarrow> j = 0 \<or>
     p_dev (br_ports br j) \<noteq> None \<and> Port_Cleanup_Rcu j \<notin> set (take n (br_rcu br))"

definition known :: "kernel \<Rightarrow> ubr \<Rightarrow> addr option \<Rightarrow> bool" where
  "known K br vl \<longleftrightarrow> (\<forall>a. vl = Some a \<longrightarrow> (\<exists>vid. vlan_of K br vid = Some a))"

fun flight_ok :: "kernel \<Rightarrow> ubr \<Rightarrow> nat \<Rightarrow> flight \<Rightarrow> bool" where
  "flight_ok K br n (Entered s) \<longleftrightarrow> known K br (cb_vlan (skb_cb s)) \<and> \<not> cb_ctrl (skb_cb s) \<and>
     (\<not> cb_vlan_filtering (skb_cb s) \<longrightarrow> cb_vlan (skb_cb s) \<noteq> None)"
| "flight_ok K br n (Admitted allow s) \<longleftrightarrow> known K br (cb_vlan (skb_cb s)) \<and>
     \<not> cb_ctrl (skb_cb s) \<and> (allow \<longrightarrow> cb_vlan (skb_cb s) \<noteq> None \<and>
       (\<forall>j. ubr_vec_test (cb_vec (skb_cb s)) j \<longrightarrow> survives n br j))"
| "flight_ok K br n (Looked_Up allow s) \<longleftrightarrow> known K br (cb_vlan (skb_cb s)) \<and>
     \<not> cb_ctrl (skb_cb s) \<and> (allow \<longrightarrow> cb_vlan (skb_cb s) \<noteq> None \<and>
       (\<forall>j. ubr_vec_test (cb_vec (skb_cb s)) j \<longrightarrow> survives n br j))"
| "flight_ok K br n (Sending s ps first ts) \<longleftrightarrow> known K br (cb_vlan (skb_cb s)) \<and>
     cb_vlan (skb_cb s) \<noteq> None \<and> 0 \<notin> set ps \<and> (\<forall>j \<in> set (first # ps). survives n br j)"
| "flight_ok K br n (Landed r s ts) \<longleftrightarrow> True"

definition reader_ok :: "kernel \<Rightarrow> world \<Rightarrow> reader \<Rightarrow> bool" where
  "reader_ok K w rd \<longleftrightarrow> (\<exists>br. w_bridges w (rd_bridge rd) = Some br \<and>
     rd_wait rd \<le> length (br_rcu br) \<and> flight_ok K br (rd_wait rd) (rd_flight rd))"

definition machine_ok :: "kernel \<Rightarrow> machine \<Rightarrow> bool" where
  "machine_ok K m \<longleftrightarrow> world_ok K (m_world m) \<and>
     (\<forall>r rd. m_readers m r = Some rd \<longrightarrow> reader_ok K (m_world m) rd)"

lemma reader_okD: "machine_ok K m \<Longrightarrow> m_readers m r = Some rd \<Longrightarrow> reader_ok K (m_world m) rd"
  unfolding machine_ok_def by blast

lemma flight_ok_mono:
  assumes "flight_ok K br n f" "\<And>vl. known K br vl \<Longrightarrow> known K br' vl"
    and "\<And>j. survives n br j \<Longrightarrow> survives n' br' j"
  shows "flight_ok K br' n' f"
  using assms by (cases f) auto

lemma stays_survives: "stays K br br' \<Longrightarrow> n \<le> length (br_rcu br) \<Longrightarrow> survives n br j \<Longrightarrow> survives n br' j"
  by (auto simp: stays_def survives_def)

lemma stays_known: "stays K br br' \<Longrightarrow> known K br vl \<Longrightarrow> known K br' vl"
  unfolding stays_def known_def by blast

lemma reader_ok_stays:
  assumes "reader_ok K w rd" "world_stays K w w'" shows "reader_ok K w' rd"
proof -
  from assms(1) obtain br where br: "w_bridges w (rd_bridge rd) = Some br"
    "rd_wait rd \<le> length (br_rcu br)" "flight_ok K br (rd_wait rd) (rd_flight rd)"
    by (auto simp: reader_ok_def)
  with assms(2) obtain br' where br': "w_bridges w' (rd_bridge rd) = Some br'" "stays K br br'"
    unfolding world_stays_def by blast
  have "flight_ok K br' (rd_wait rd) (rd_flight rd)"
    using br(3) by (rule flight_ok_mono) (use stays_known stays_survives br' br(2) in blast)+
  moreover have "rd_wait rd \<le> length (br_rcu br')" using br' br(2) by (auto simp: stays_def)
  ultimately show ?thesis using br'(1) by (auto simp: reader_ok_def)
qed

text \<open>The callback that runs is one that was queued before the reader came.\<close>

lemma survives_grace:
  assumes "survives n br j" "br_rcu br = Port_Cleanup_Rcu i # cbs" "0 < n"
  shows "survives (n - 1) (port_cleanup_rcu i (br\<lparr>br_rcu := cbs\<rparr>)) j"
  using assms by (cases n) (auto simp: survives_def port_cleanup_rcu_def)

lemma reader_ok_grace:
  assumes w: "world_ok K w" and rd: "reader_ok K w rd" and br: "w_bridges w b = Some br"
    and cb: "br_rcu br = cb # cbs" and run: "rcu_run cb (br\<lparr>br_rcu := cbs\<rparr>) = Inr br'"
    and wait: "rd_bridge rd = b \<Longrightarrow> 0 < rd_wait rd"
  shows "reader_ok K (br_put b br' w) (waited b rd)"
proof (cases "rd_bridge rd = b")
  case True
  from rd br True have n: "rd_wait rd \<le> length (br_rcu br)" "flight_ok K br (rd_wait rd) (rd_flight rd)"
    by (auto simp: reader_ok_def)
  from bridge_liveD(3) [OF world_okD(1) [OF w br]] cb obtain i where i: "cb = Port_Cleanup_Rcu i"
    by (auto simp: rcu_ok_def)
  with run have br': "br' = port_cleanup_rcu i (br\<lparr>br_rcu := cbs\<rparr>)" by (simp add: rcu_run_def)
  have "vlan_of K br' = vlan_of K br" by (rule vlan_table_cong) (simp_all add: br' port_cleanup_rcu_def)
  then have "flight_ok K br' (rd_wait rd - 1) (rd_flight rd)"
    using n(2) survives_grace [of "rd_wait rd" br _ i cbs] cb i wait [OF True]
    by (elim flight_ok_mono) (auto simp: known_def br')
  moreover have "br_rcu br' = cbs" by (simp add: br' port_cleanup_rcu_def)
  ultimately show ?thesis using True n(1) cb by (auto simp: reader_ok_def waited_def)
next
  case False
  with rd show ?thesis by (simp add: reader_ok_def waited_def)
qed

section \<open>Stages keep it\<close>

lemma busy_survives:
  assumes live: "bridge_live K b br" and j: "ubr_vec_test (br_busy br) j"
  shows "survives n br j"
proof -
  have "Port_Cleanup_Rcu j \<notin> set (br_rcu br)"
    using bridge_liveD(3) [OF live] j by (force simp: rcu_ok_def)
  then show ?thesis
    using port_cb(5) [OF bridge_liveD(1) [OF live] j] by (auto simp: survives_def dest: in_set_takeD)
qed

lemma known_live:
  assumes "bridge_live K b br" "known K br (Some a)"
  obtains v where "br_heap br a = Some v" "vlan_members_ok (br_busy br) v"
proof -
  note ok = bridge_liveD(1) [OF assms(1)]
  from assms(2) obtain vid where vid: "vlan_of K br vid = Some a" by (auto simp: known_def)
  with vlan_of_SomeD(1) [OF bridge_okD(1) [OF ok]] obtain v where "br_heap br a = Some v" by blast
  with members_okD [OF bridge_okD(5) [OF ok] vid] show thesis by (intro that)
qed

lemma entered_stage:
  assumes K: "helpers_ok K" and live: "bridge_live K b br" and f: "flight_ok K br n (Entered s)"
    and vl: "ingress_vlan K br s = Some a"
  obtains allow s0 where "flight_stage K E br (Entered s) = Inr (br, Admitted allow s0)"
    "flight_ok K br n (Admitted allow s0)" "cb_vlan (skb_cb s0) = Some a"
proof -
  have a: "known K br (Some a)"
    using ingress_vlan_found [OF K vl] f by (auto simp: known_def)
  obtain v where v: "br_heap br a = Some v" "vlan_members_ok (br_busy br) v"
    using live a by (rule known_live)
  obtain allow s0 where i: "ubr_vlan_ingress K br s = Inr (allow, Some s0)"
    "cb_vlan (skb_cb s0) = Some a" "cb_ctrl (skb_cb s0) = cb_ctrl (skb_cb s)"
    and vec: "allow \<Longrightarrow> cb_vec (skb_cb s0) = ubr_vec_and (cb_vec (skb_cb s)) (vl_members v)"
    using K bridge_okD(1) [OF bridge_liveD(1) [OF live]] vl v(1)
    by (rule ingress_known) (rule that; assumption)
  have "survives n br j" if allow "ubr_vec_test (cb_vec (skb_cb s0)) j" for j
    using that vec v(2) by (intro busy_survives [OF live]) (auto simp: vlan_members_ok_def vec_simps)
  with i a f show thesis by (intro that [of allow s0]) simp_all
qed

lemma entered_nowhere:
  assumes K: "helpers_ok K" and ok: "bridge_ok K br" and f: "flight_ok K br n (Entered s)"
    and vl: "ingress_vlan K br s = None" and r: "flight_stage K E br (Entered s) = Inr (br', f')"
  obtains s0 where "br' = br" "f' = Admitted False s0" "cb_vlan (skb_cb s0) = None" "\<not> cb_ctrl (skb_cb s0)"
proof -
  have filt: "cb_vlan_filtering (skb_cb s)" 
    using f vl by (cases "cb_vlan_filtering (skb_cb s)") (simp_all add: ingress_vlan_def)
  from ingress_lost [OF K bridge_okD(1) [OF ok] filt vl] r f that show thesis by auto
qed

lemma fdb_stage:
  assumes "flight_ok K br n (Admitted allow s)" "cb_vlan (skb_cb s) = Some a" "br_heap br a = Some v"
  shows "flight_stage K E br (Admitted allow s) =
      Inr (br\<lparr>br_fdb := fdb_after E v s (br_fdb br)\<rparr>,
        Looked_Up allow (narrow (fdb_filter K E v s (fdb_after E v s (br_fdb br))) s))"
    and "flight_ok K br n (Looked_Up allow (narrow m s))"
  using assms by (auto simp: fdb_forward_eq vec_simps)

lemma start_delivery_ok:
  assumes "flight_ok K br n (Looked_Up True s)"
  shows "flight_ok K br n (start_delivery s)"
proof (cases "find_first_bit (cb_vec (skb_cb s)) = UBR_MAX_PORTS")
  case False
  then have "ubr_vec_test (cb_vec (skb_cb s)) (find_first_bit (cb_vec (skb_cb s)))"
    using find_first_bit_le [of "cb_vec (skb_cb s)"] by (intro find_first_bit_found) simp
  with False assms show ?thesis by (auto simp: start_delivery_def Let_def set_vec_bits_from)
qed (simp add: start_delivery_def)

lemma flight_stage_ok:
  assumes K: "helpers_ok K" and live: "bridge_live K b br" and f: "flight_ok K br n f"
    and r: "flight_stage K E br f = Inr (br', f')"
  shows "flight_ok K br n f' \<and> (\<exists>fd. br' = br\<lparr>br_fdb := fd\<rparr> \<and> (fdb_ok (br_fdb br) \<longrightarrow> fdb_ok fd))"
proof -
  have same: "\<exists>fd. br = br\<lparr>br_fdb := fd\<rparr> \<and> (fdb_ok (br_fdb br) \<longrightarrow> fdb_ok fd)"
    by (rule exI [of _ "br_fdb br"]) simp
  show ?thesis
  proof (cases f)
    case (Entered s)
    show ?thesis
    proof (cases "ingress_vlan K br s")
      case None
      obtain s0 where "br' = br" "f' = Admitted False s0" "cb_vlan (skb_cb s0) = None"
        "\<not> cb_ctrl (skb_cb s0)"
        by (rule entered_nowhere [OF K bridge_liveD(1) [OF live] f [unfolded Entered] None
              r [unfolded Entered]])
      with same show ?thesis by (simp add: known_def)
    next
      case (Some a)
      obtain allow s0 where st: "flight_stage K E br (Entered s) = Inr (br, Admitted allow s0)"
        and ok: "flight_ok K br n (Admitted allow s0)"
        by (rule entered_stage [OF K live f [unfolded Entered] Some, of E])
      from r have "br' = br" "f' = Admitted allow s0" unfolding Entered st by simp_all
      with ok same show ?thesis by blast
    qed
  next
    case (Admitted allow s)
    with f r obtain a where a: "cb_vlan (skb_cb s) = Some a"
      by (cases "cb_vlan (skb_cb s)") (auto simp: fdb_forward_null)
    obtain v where v: "br_heap br a = Some v"
      using live f a Admitted by (auto elim: known_live)
    note st = fdb_stage [OF f [unfolded Admitted] a v]
    have "br' = br\<lparr>br_fdb := fdb_after E v s (br_fdb br)\<rparr>"
      "f' = Looked_Up allow (narrow (fdb_filter K E v s (fdb_after E v s (br_fdb br))) s)"
      using r [unfolded Admitted] st(1) [of E] by simp_all
    with st(2) fdb_after_ok show ?thesis by blast
  next
    case (Looked_Up allow s)
    with f r start_delivery_ok [of K br n s] same show ?thesis by (auto split: if_splits)
  next
    case (Sending s ps first ts)
    with f r same show ?thesis by (cases ps) (auto simp: res_simps split: if_splits)
  qed (use r same in auto)
qed

text \<open>
  A stage is free of faults for a frame that has a VLAN, and a frame without one is at the
  start or at the FDB stage.
\<close>

fun in_vlan :: "kernel \<Rightarrow> ubr \<Rightarrow> flight \<Rightarrow> bool" where
  "in_vlan K br (Entered s) \<longleftrightarrow> ingress_vlan K br s \<noteq> None"
| "in_vlan K br (Admitted allow s) \<longleftrightarrow> cb_vlan (skb_cb s) \<noteq> None"
| "in_vlan K br f \<longleftrightarrow> True"

lemma flight_stage_total:
  assumes K: "helpers_ok K" "protocol_ok K" and live: "bridge_live K b br"
    and f: "flight_ok K br n f" and vl: "in_vlan K br f"
  shows "no_fault (flight_stage K E br f)"
proof (cases f)
  case (Entered s)
  with vl obtain a where "ingress_vlan K br s = Some a" by auto
  then show ?thesis
    by (rule entered_stage [OF K(1) live f [unfolded Entered], of _ E]) (simp only: Entered no_fault_simps)
next
  case (Admitted allow s)
  with vl obtain a where a: "cb_vlan (skb_cb s) = Some a" by auto
  obtain v where "br_heap br a = Some v" using live f a Admitted by (auto elim: known_live)
  from fdb_stage(1) [OF f [unfolded Admitted] a this] show ?thesis unfolding Admitted by simp
next
  case (Sending s ps first ts)
  with f obtain a where a: "cb_vlan (skb_cb s) = Some a" by auto
  obtain v where v: "br_heap br a = Some v" using live f a Sending by (auto elim: known_live)
  note down = deliver_down_total [OF K a v] and up = deliver_up_total [OF K(2) a v]
  show ?thesis
  proof (cases ps)
    case Nil
    with f Sending up [of E] down [of first] show ?thesis by (auto simp: survives_def res_simps)
  next
    case (Cons i qs)
    with f Sending down [of i] show ?thesis by (auto simp: survives_def res_simps)
  qed
qed auto

text \<open>And a frame at the FDB stage without a VLAN does fault.\<close>

lemma admitted_faults:
  "flight_ok K br n (Admitted allow s) \<Longrightarrow>
     no_fault (flight_stage K E br (Admitted allow s)) \<Longrightarrow> in_vlan K br (Admitted allow s)"
  by (cases "cb_vlan (skb_cb s)") (auto simp: fdb_forward_null)

section \<open>Steps keep it\<close>

lemma entered_port_ok:
  assumes ok: "bridge_ok K br" and i: "ubr_vec_test (br_busy br) i"
    and s: "skb_cb s = p_ingress_cb (br_ports br i)"
  shows "flight_ok K br n (Entered s)"
  using port_cb(3,6,7) [OF ok i] bridge_okD(2) [OF ok] s by (auto simp: known_def)

lemma machine_ok_begin:
  assumes m: "machine_ok K m" and br: "w_bridges (m_world m) b = Some br"
    and i: "ubr_vec_test (br_busy br) i" and s: "skb_cb s = p_ingress_cb (br_ports br i)"
  shows "machine_ok K (m\<lparr>m_readers := (m_readers m)(r \<mapsto>
    \<lparr>rd_bridge = b, rd_wait = length (br_rcu br), rd_flight = Entered s\<rparr>)\<rparr>)"
proof -
  have "bridge_ok K br" using m world_okD(1) [OF _ br] by (auto simp: machine_ok_def dest: bridge_liveD)
  then have "flight_ok K br (length (br_rcu br)) (Entered s)" using i s by (rule entered_port_ok)
  with m br show ?thesis by (auto simp: machine_ok_def reader_ok_def)
qed

lemma machine_ok_stage:
  assumes K: "helpers_ok K" and m: "machine_ok K m" and rd: "m_readers m r = Some rd"
    and br: "w_bridges (m_world m) (rd_bridge rd) = Some br"
    and f: "flight_stage K E br (rd_flight rd) = Inr (br', f')"
  shows "machine_ok K \<lparr>m_world = br_put (rd_bridge rd) br' (m_world m),
    m_readers = (m_readers m)(r \<mapsto> rd\<lparr>rd_flight := f'\<rparr>)\<rparr>"
proof -
  have w: "world_ok K (m_world m)" using m by (simp add: machine_ok_def)
  have fo: "rd_wait rd \<le> length (br_rcu br)" "flight_ok K br (rd_wait rd) (rd_flight rd)"
    using reader_okD [OF m rd] br by (auto simp: reader_ok_def)
  from flight_stage_ok [OF K world_okD(1) [OF w br] fo(2) f] obtain fd
    where f': "flight_ok K br (rd_wait rd) f'" and br': "br' = br\<lparr>br_fdb := fd\<rparr>"
      "fdb_ok (br_fdb br) \<longrightarrow> fdb_ok fd" by blast
  let ?w = "br_put (rd_bridge rd) br' (m_world m)"
  have "world_ok K ?w" unfolding br'(1) using br'(2) by (intro world_ok_fdb [OF w br]) simp
  moreover have st: "world_stays K (m_world m) ?w" by (rule world_stays_put [OF br]) (simp add: br'(1))
  moreover have "reader_ok K (m_world m) (rd\<lparr>rd_flight := f'\<rparr>)"
    using f' fo(1) br by (simp add: reader_ok_def)
  ultimately show ?thesis using m reader_ok_stays [OF _ st] by (auto simp: machine_ok_def)
qed

lemma machine_ok_other:
  assumes K: "helpers_ok K" and m: "machine_ok K m" and adm: "orderly_machine K m (Other e)"
    and s: "wstep K N (m_world m) e w'"
  shows "machine_ok K \<lparr>m_world = w', m_readers = after_event e (m_readers m)\<rparr>"
proof -
  have w: "world_ok K (m_world m)" and o: "orderly K (m_world m) e"
    using m adm by (simp_all add: machine_ok_def orderly_machine_def)
  have w': "world_ok K w'" by (rule world_ok_step [OF K w o s])
  have rds: "reader_ok K (m_world m) rd" if "m_readers m r = Some rd" for r rd
    using m that by (rule reader_okD)
  show ?thesis
  proof (cases "\<exists>b. e = Grace_Period b")
    case True
    then obtain b where e: "e = Grace_Period b" ..
    with s obtain br cb cbs br' where g: "w_bridges (m_world m) b = Some br" "br_rcu br = cb # cbs"
      "rcu_run cb (br\<lparr>br_rcu := cbs\<rparr>) = Inr br'" "w' = br_put b br' (m_world m)"
      by (auto elim!: wstep_graceE simp: netdev_priv_Inr_iff)
    have "0 < rd_wait rd" if "m_readers m r = Some rd" "rd_bridge rd = b" for r rd
      using adm that e by (auto simp: orderly_machine_def rcu_contract_def)
    with reader_ok_grace [OF w rds g(1-3)] have "reader_ok K w' (waited b rd)" if "m_readers m r = Some rd" for r rd
      using that unfolding g(4) by blast
    with w' show ?thesis by (auto simp: machine_ok_def after_event_def e)
  next
    case False
    then have "world_stays K (m_world m) w'" by (intro world_stays_step [OF K w o _ s]) blast
    moreover have "after_event e (m_readers m) = m_readers m"
      using False by (auto simp: after_event_def split: event.split)
    ultimately show ?thesis using w' reader_ok_stays [OF rds] by (simp add: machine_ok_def)
  qed
qed

lemma machine_ok_step:
  assumes K: "helpers_ok K" and m: "machine_ok K m" and adm: "orderly_machine K m me"
    and s: "mstep K N m me m'"
  shows "machine_ok K m'"
  using s
proof (cases rule: mstep.cases)
  case (mstep_other e w')
  with machine_ok_other [OF K m] adm show ?thesis by simp
next
  case (mstep_rx r d nd b i br s)
  have "ubr_vec_test (br_busy br) i"
    using m world_okD(2) [of K "m_world m"] mstep_rx by (fastforce simp: machine_ok_def handler_ok_def)
  with mstep_rx machine_ok_begin [OF m, of b br i] show ?thesis by simp
next
  case (mstep_tx r b br s)
  have "ubr_vec_test (br_busy br) 0"
    using m world_okD(1) [of K "m_world m"] mstep_tx by (auto simp: machine_ok_def dest: bridge_liveD)
  with mstep_tx machine_ok_begin [OF m, of b br 0] show ?thesis by simp
next
  case (mstep_stage r rd br E br' f')
  with machine_ok_stage [OF K m] show ?thesis by simp
next
  case (mstep_leave r rd q s ts)
  with m show ?thesis by (auto simp: machine_ok_def)
qed

interpretation ms: guarded_system "mstep K N" "orderly_machine K" "\<lambda>m. helpers_ok K \<and> machine_ok K m"
  for K N
  by unfold_locales (auto intro: machine_ok_step)

definition boot_machine :: "(netdev \<Rightarrow> net_device option) \<Rightarrow> u64 \<Rightarrow> machine" where
  "boot_machine devs j = \<lparr>m_world = boot devs j, m_readers = (\<lambda>_. None)\<rparr>"

lemma machine_ok_boot:
  "(\<And>d nd. devs d = Some nd \<Longrightarrow> nd_rx_handler_data nd = None) \<Longrightarrow> machine_ok K (boot_machine devs j)"
  by (simp add: machine_ok_def boot_machine_def world_ok_boot)

text \<open>What the invariant gives a reader: its bridge, in order, and its flight in order on it.\<close>

lemma machine_reader:
  assumes "machine_ok K m" "m_readers m r = Some rd"
  obtains br where "w_bridges (m_world m) (rd_bridge rd) = Some br"
    "bridge_live K (rd_bridge rd) br" "flight_ok K br (rd_wait rd) (rd_flight rd)"
proof -
  from reader_okD [OF assms] obtain br where br: "w_bridges (m_world m) (rd_bridge rd) = Some br"
    "flight_ok K br (rd_wait rd) (rd_flight rd)" by (auto simp: reader_ok_def)
  with assms(1) world_okD(1) that show thesis by (auto simp: machine_ok_def)
qed

end
