(* ===== verification/Ubr_Race.thy ===== *)
theory Ubr_Race
  imports Ubr_Readers Ubr_Sample
begin

text \<open>
  Frames against everything else: what the stages of a frame in flight do when other CPUs
  change the bridge between them, with the concrete runs that show the hypotheses can hold.
\<close>

section \<open>Runs beside readers\<close>


section \<open>A frame of the host while its only port leaves\<close>



section \<open>A VLAN deleted before the frame came\<close>

lemma deleted_port:
  assumes ok: "bridge_ok K br" and i: "ubr_vec_test (br_busy br) i"
  shows "ubr_from_port (vlan_deleted a v br) i = Inr (vlan_deleted a v br)"
    "\<not> cb_ctrl (p_ingress_cb (br_ports (vlan_deleted a v br) i))"
    "cb_vlan_filtering (p_ingress_cb (br_ports (vlan_deleted a v br) i)) \<longleftrightarrow> p_pvid (br_ports br i) \<noteq> 0"
    "br_vlan_proto (vlan_deleted a v br) = br_vlan_proto br"
  using port_cb [OF ok i]
  by (simp_all add: vlan_deleted_def update_port_vlan_ports ubr_from_port_def)

text \<open>A frame tagged with the VID of a VLAN of the table, on a port that filters.\<close>

lemma tagged_ingress:
  assumes "cb_vlan_filtering (skb_cb s)" "skb_vlan_tag_present s"
    and "htons K (skb_vlan_proto s) = br_vlan_proto br" "skb_vlan_tag_get_id s = vid" "vid \<noteq> 0"
  shows "ingress_vlan K br s = vlan_of K br vid"
  using assms
  by (simp add: ingress_vlan_def ingress_untag_def ingress_classify_def frame_vlan_def)

lemma tag_cb [simp]:
  "skb_vlan_tag_present (s\<lparr>skb_cb := c\<rparr>) = skb_vlan_tag_present s"
  "skb_vlan_tag_get_id (s\<lparr>skb_cb := c\<rparr>) = skb_vlan_tag_get_id s"
  by (simp_all add: skb_vlan_tag_get_id_def)

lemma fdb_stage_freed:
  "cb_vlan (skb_cb s) = Some a \<Longrightarrow> br_heap br a = None \<Longrightarrow> \<not> cb_ctrl (skb_cb s) \<Longrightarrow>
     flight_stage K E br (Admitted allow s) = Inl UseAfterFree"
  by (simp add: ubr_fdb_forward_def)

text \<open>
  C30. A VLAN is deleted and a tagged frame comes in before the grace period has ended: it is not
  among the readers the callback waits for, yet it finds the VLAN, as a deleted VLAN stays on its
  hash chain; the grace period ends, and the FDB stage reads freed memory. Every step of the run
  is one the contract of RCU allows.
\<close>

theorem late_frame_reads_freed_vlan:
  assumes "helpers_ok K" "get_vid N info = Inr (attrs, vid)" "ubr_netlink_dev info w = Inr (Some b, w0)"
    and "w_bridges w b = Some br" "bridge_ok K br" "br_rcu br = []" "vlan_of K br vid = Some a"
    and "w_devs w d = Some nd" "nd_rx_handler_data nd = Some (b, i)" "ubr_vec_test (br_busy br) i"
    and "p_pvid (br_ports br i) \<noteq> 0" "skb_vlan_tag_present s"
    and "htons K (skb_vlan_proto s) = br_vlan_proto br" "skb_vlan_tag_get_id s = vid" "vid \<noteq> 0"
    and "ubr_vlan_nl_del_cmd K N info w = Inr (ret, w1)"
  shows "\<exists>m rd br'. runs (mstep K N) (orderly_machine K) \<lparr>m_world = w1, m_readers = \<lambda>_. None\<rparr>
      [Rx_Begin 0 d s, Stage 0 E, Other (Grace_Period b)] m \<and>
    m_readers m 0 = Some rd \<and> w_bridges (m_world m) b = Some br' \<and> rd_bridge rd = b \<and>
    flight_stage K E br' (rd_flight rd) = Inl UseAfterFree"
proof -
  note table = bridge_okD(1) [OF assms(5)]
  obtain v where v: "br_heap br a = Some v" using vlan_of_SomeD(1) [OF table assms(7)] by blast
  let ?d = "vlan_deleted a v br" and ?v = "v\<lparr>vl_members := ubr_vec_zero\<rparr>"
  have w1: "w1 = br_put b ?d w"
    using nl_del_deleted [OF assms(2-4) table assms(7) v] assms(16) by simp
  note d = vlan_deleted_table [OF table v]
  note p = deleted_port [OF assms(5,10), of a v]
  define s0 where "s0 = s\<lparr>skb_cb := p_ingress_cb (br_ports ?d i)\<rparr>"
  have vl: "ingress_vlan K ?d s0 = Some a"
    using tagged_ingress [of s0 K ?d vid] assms(7,11-15) p d(2) by (simp add: s0_def)
  obtain allow s1 where i: "ubr_vlan_ingress K ?d s0 = Inr (allow, Some s1)" "cb_vlan (skb_cb s1) = Some a"
      "\<not> cb_ctrl (skb_cb s1)"
    by (rule ingress_known [OF assms(1) d(1) vl, of ?v])
      (simp, rule that, assumption, assumption, use p(2) in \<open>simp add: s0_def\<close>)
  let ?f = "\<lparr>rd_bridge = b, rd_wait = 1, rd_flight = Entered s0\<rparr>"
  let ?g = "\<lparr>rd_bridge = b, rd_wait = 1, rd_flight = Admitted allow s1\<rparr>"
  let ?e = "?d\<lparr>br_rcu := [], br_heap := (br_heap ?d)(a := None)\<rparr>"
  let ?h = "\<lparr>rd_bridge = b, rd_wait = 0, rd_flight = Admitted allow s1\<rparr>"
  let ?m = "\<lambda>w rds. \<lparr>m_world = w, m_readers = rds\<rparr>"
  have 1: "mstep K N (?m w1 (\<lambda>_. None)) (Rx_Begin 0 d s) (?m w1 [0 \<mapsto> ?f])"
    using mstep_rx [of "?m w1 (\<lambda>_. None)" 0 d nd b i ?d K N s] assms(6,8,9) p(1)
    by (simp add: w1 s0_def)
  have 2: "mstep K N (?m w1 [0 \<mapsto> ?f]) (Stage 0 E) (?m w1 [0 \<mapsto> ?g])"
    using mstep_stage [of "?m w1 [0 \<mapsto> ?f]" 0 ?f ?d K E ?d "Admitted allow s1" N] i(1)
    by (simp add: w1 br_put_same)
  have "wstep K N w1 (Grace_Period b) (br_put b ?e w1)"
    by (rule step_grace [of _ _ ?d "Vlan_Del_Rcu a" "[]"])
      (simp_all add: w1 netdev_priv_def rcu_run_def ubr_vlan_del_rcu_def assms(6))
  from mstep_other [of K N "?m w1 [0 \<mapsto> ?g]", simplified, OF this]
  have 3: "mstep K N (?m w1 [0 \<mapsto> ?g]) (Other (Grace_Period b)) (?m (br_put b ?e w1) [0 \<mapsto> ?h])"
    by (simp add: after_event_def waited_def [abs_def] fun_upd_def if_distrib [of "map_option _"] cong: if_cong)
  have "runs (mstep K N) (orderly_machine K) (?m w1 (\<lambda>_. None))
      [Rx_Begin 0 d s, Stage 0 E, Other (Grace_Period b)] (?m (br_put b ?e w1) [0 \<mapsto> ?h])"
    using 1 2 3 by (auto intro!: runs.intros simp: orderly_machine_def orderly_def rcu_contract_def)
  moreover have "flight_stage K E ?e (rd_flight ?h) = Inl UseAfterFree"
    using fdb_stage_freed [of s1 a ?e K E allow] i(2,3) by simp
  ultimately show ?thesis
    by (intro exI [of _ "?m (br_put b ?e w1) [0 \<mapsto> ?h]"] exI [of _ ?h] exI [of _ ?e]) simp
qed

theorem late_frame_reads_freed_vlan_witness:
  "\<exists>w1 m rd br'. ubr_vlan_nl_del_cmd plain_kernel plain_netlink (vlan_request 10)
       (dev_upd 2 (linked 1 1) office) = Inr (0, w1) \<and>
     runs (mstep plain_kernel plain_netlink) (orderly_machine plain_kernel)
       \<lparr>m_world = w1, m_readers = \<lambda>_. None\<rparr>
       [Rx_Begin 0 2 (vlan_hwaccel_put_tag (sample_frame 0x020000000008 0x020000000007)
          (htons plain_kernel 0x8100) 10),
        Stage 0 (plain_env 5), Other (Grace_Period 1)] m \<and>
     m_readers m 0 = Some rd \<and> w_bridges (m_world m) 1 = Some br' \<and>
     flight_stage plain_kernel (plain_env 5) br' (rd_flight rd) = Inl UseAfterFree"
proof -
  let ?w = "dev_upd 2 (linked 1 1) office" and ?i = "vlan_request 10"
  let ?s = "vlan_hwaccel_put_tag (sample_frame 0x020000000008 0x020000000007)
      (htons plain_kernel 0x8100) 10"
  obtain attrs where at: "get_vid plain_netlink ?i = Inr (attrs, 10)" using request_vid [of 10] by blast
  have dev: "ubr_netlink_dev ?i ?w = Inr (Some 1, hold 1 ?w)"
    unfolding vlan_request_def by (rule office_dev) simp
  have br: "w_bridges ?w 1 = Some sample" by simp
  have del: "ubr_vlan_nl_del_cmd plain_kernel plain_netlink ?i ?w =
      Inr (0, br_put 1 (vlan_deleted 101 (sample_vlan 10 [1, 2] [2]) sample) ?w)"
    by (rule nl_del_deleted [OF at dev br sample_table]) simp_all
  have "skb_vlan_tag_get_id ?s = 10" by (simp add: skb_vlan_tag_get_id_def VLAN_VID_MASK_def)
  moreover have "htons plain_kernel (skb_vlan_proto ?s) = br_vlan_proto sample"
    by (simp add: htons_involutive sample_def ETH_P_8021Q_def)
  moreover have "nd_rx_handler_data (linked 1 1 (plain_dev 0x020000000002)) = Some (1, 1)"
    by (simp add: linked_def)
  ultimately obtain m rd br' where "runs (mstep plain_kernel plain_netlink) (orderly_machine plain_kernel)
       \<lparr>m_world = br_put 1 (vlan_deleted 101 (sample_vlan 10 [1, 2] [2]) sample) ?w, m_readers = \<lambda>_. None\<rparr>
       [Rx_Begin 0 2 ?s, Stage 0 (plain_env 5), Other (Grace_Period 1)] m"
    "m_readers m 0 = Some rd" "w_bridges (m_world m) 1 = Some br'"
    "flight_stage plain_kernel (plain_env 5) br' (rd_flight rd) = Inl UseAfterFree"
    using late_frame_reads_freed_vlan [OF plain_kernel_ok(1) at dev br sample_ok _ _ _ _ _ _ _ _ _ _ del,
        of 101 2 "linked 1 1 (plain_dev 0x020000000002)" 1 ?s "plain_env 5"] by auto
  with del show ?thesis by blast
qed

section \<open>The properties\<close>





text \<open>
  C11. Isolation under interference. Whatever other CPUs do to the bridge between the stages, what
  a frame sends goes to a port that was a member of the frame's VLAN when the frame passed VLAN
  ingress and that the mask of its port allows, on the device the slot held at some stage.
\<close>

theorem isolation_under_interference:
  assumes "helpers_ok K" "vlan_table_ok K (others br)"
    and "\<And>a. cb_vlan (skb_cb s) = Some a \<Longrightarrow> br_heap (others br) a \<noteq> None"
    and "fly K ((E, others) # es) br (Entered s) = Inr (br', Landed q s' ts)"
    and "t \<in> set ts" "tx_dev t = Some d"
  shows "\<exists>a v j b. cb_vlan (skb_cb s') = Some a \<and> br_heap (others br) a = Some v \<and>
    ubr_vec_test (vl_members v) j \<and> ubr_vec_test (cb_vec (skb_cb s)) j \<and>
    b \<in> set (fly_bridges K ((E, others) # es) br (Entered s)) \<and> port_netdev b j = Some d"
  by (rule fly_isolated [OF assms])

theorem isolation_under_interference_witness:
  "\<exists>br' s' t. fly plain_kernel (undisturbed (plain_env 5) flight_stages) sample
       (Entered (enter_port sample 1 (sample_frame 0xFFFFFFFFFFFF 0x020000000007))) =
         Inr (br', Landed False s' [t]) \<and> tx_dev t = Some 3 \<and>
     (\<exists>v j. br_heap sample 101 = Some v \<and> ubr_vec_test (vl_members v) j \<and> j \<noteq> 1)"
proof -
  let ?f = "enter_port sample 1 (sample_frame 0xFFFFFFFFFFFF 0x020000000007)"
  obtain r br' s' t where rx: "ubr_port_rx_handler plain_kernel (plain_env 5) 1 sample
       (sample_frame 0xFFFFFFFFFFFF 0x020000000007) = Inr (r, br', s', [t])" "tx_dev t = Some 3"
    "cb_vlan (skb_cb s') = Some 101"
    by (rule sample_flood [of "0xFFFFFFFFFFFF" "0x020000000007" 5]) simp_all
  have busy: "ubr_vec_test (br_busy sample) 1" by simp
  from rx(1) obtain q where q: "ubr_forward plain_kernel (plain_env 5) sample ?f = Inr (q, br', s', [t])"
    unfolding rx_handler_eq [OF sample_ok busy] by (auto simp: res_simps)
  have "\<not> q"
    by (rule forward_InrD [OF plain_kernel_ok(1) _ q]) (use port_cb(3) [OF sample_ok busy] in simp_all)
  with q have fly: "fly plain_kernel (undisturbed (plain_env 5) flight_stages) sample (Entered ?f) =
      Inr (br', Landed False s' [t])"
    by (simp add: fly_forward)
  have head: "undisturbed (plain_env 5) flight_stages =
      (plain_env 5, \<lambda>br. br) # undisturbed (plain_env 5) (UBR_MAX_PORTS + 2)"
    by (simp add: flight_stages_Suc)
  have live: "cb_vlan (skb_cb ?f) = Some a \<Longrightarrow> br_heap sample a \<noteq> None" for a
    by (auto simp: sample_port_def)
  from isolation_under_interference [OF plain_kernel_ok(1) sample_table live fly [unfolded head] _ rx(2)]
  obtain a v j where "cb_vlan (skb_cb s') = Some a" "br_heap sample a = Some v"
    "ubr_vec_test (vl_members v) j" "ubr_vec_test (cb_vec (skb_cb ?f)) j" by auto
  with rx(3) port_cb(2) [OF sample_ok busy] have
    "br_heap sample 101 = Some v \<and> ubr_vec_test (vl_members v) j \<and> j \<noteq> 1" by (auto simp: vec_simps)
  with fly rx(2) show ?thesis by blast
qed

end
