(* ===== verification/Ubr_Stp.thy ===== *)
theory Ubr_Stp
  imports Ubr_Sample
begin

unbundle bit_operations_syntax

text \<open>
  Spanning tree instances (kernel/ubr-stp.c): their table, their creation with its error paths,
  the state of a port. The file is not part of the build (kernel/Kbuild) and the types it uses
  are in comments of kernel/ubr-private.h; it is modelled as it is written. What it calls and
  nobody defines, \<^verbatim>\<open>ubr_zalloc_vec\<close>, is taken for what its name says: a port vector of zeros, or
  NULL.
\<close>

section \<open>States\<close>

datatype ubr_stp_state = UBR_STP_BLOCKING | UBR_STP_LEARNING | UBR_STP_FORWARDING

definition UBR_STP_LISTENING :: ubr_stp_state where "UBR_STP_LISTENING = UBR_STP_BLOCKING"

text \<open>The code compares states by the number the enumeration gives them.\<close>

fun stp_number :: "ubr_stp_state \<Rightarrow> nat" where
  "stp_number UBR_STP_BLOCKING = 0"
| "stp_number UBR_STP_LEARNING = 1"
| "stp_number UBR_STP_FORWARDING = 2"

lemma stp_number_inj: "stp_number x = stp_number y \<Longrightarrow> x = y"
  by (cases x; cases y) simp_all

instantiation ubr_stp_state :: linorder
begin

definition less_eq_ubr_stp_state :: "ubr_stp_state \<Rightarrow> ubr_stp_state \<Rightarrow> bool" where
  "x \<le> y \<longleftrightarrow> stp_number x \<le> stp_number y"

definition less_ubr_stp_state :: "ubr_stp_state \<Rightarrow> ubr_stp_state \<Rightarrow> bool" where
  "x < y \<longleftrightarrow> stp_number x < stp_number y"

instance
  by standard (auto simp: less_eq_ubr_stp_state_def less_ubr_stp_state_def intro: stp_number_inj)

end

lemma learning_le_iff: "UBR_STP_LEARNING \<le> s \<longleftrightarrow> s \<noteq> UBR_STP_BLOCKING"
  by (cases s) (simp_all add: less_eq_ubr_stp_state_def)

section \<open>Instances\<close>

record ubr_stp =
  st_sid :: u16
  st_forwarding :: ubr_vec
  st_learning :: ubr_vec
  st_refcount :: u32

text \<open>
  Pointers are words here, as the code makes one of a number: 0 is NULL, the last 4095 are error
  pointers. The table \<^verbatim>\<open>ubr->stps\<close> with the instances behind the pointers.
\<close>

type_synonym pointer = u64

record stp_table =
  stps_buckets :: "nat \<Rightarrow> pointer list"
  stps_heap :: "pointer \<Rightarrow> ubr_stp option"

definition MAX_ERRNO :: u64 where "MAX_ERRNO = 4095"

definition ERR_PTR :: "int \<Rightarrow> pointer" where "ERR_PTR e = of_int e"

definition IS_ERR_OR_NULL :: "pointer \<Rightarrow> bool" where
  "IS_ERR_OR_NULL p \<longleftrightarrow> p = 0 \<or> - MAX_ERRNO \<le> p"

definition stp_at :: "stp_table \<Rightarrow> pointer \<Rightarrow> ubr_stp res" where
  "stp_at t p =
     (if p = 0 then Inl NullDeref
      else case stps_heap t p of None \<Rightarrow> Inl WildPointer | Some stp \<Rightarrow> Inr stp)"

section \<open>The state of a port\<close>

text \<open>A bit beyond the vector is in memory that is not its own.\<close>

definition stp_test_bit :: "int \<Rightarrow> ubr_vec \<Rightarrow> bool res" where
  "stp_test_bit i v =
     (if i < 0 \<or> int UBR_MAX_PORTS \<le> i then Inl WildPointer else Inr (ubr_vec_test v (nat i)))"

definition change_bit :: "nat \<Rightarrow> ubr_vec \<Rightarrow> ubr_vec" where
  "change_bit i v = (if ubr_vec_test v i then ubr_vec_clear i v else ubr_vec_set i v)"

text \<open>\<^verbatim>\<open>if (on ^ test_bit(id, v)) change_bit(id, v);\<close>\<close>

definition update_bit :: "bool \<Rightarrow> int \<Rightarrow> ubr_vec \<Rightarrow> ubr_vec res" where
  "update_bit on i v =
     andthen (stp_test_bit i v) (\<lambda>b. Inr (if on \<noteq> b then change_bit (nat i) v else v))"

definition ubr_stp_set_state :: "ubr_stp \<Rightarrow> int \<Rightarrow> ubr_stp_state \<Rightarrow> (int \<times> ubr_stp) res" where
  "ubr_stp_set_state stp i state =
     (let learn = (state \<ge> UBR_STP_LEARNING);
          forward = (state = UBR_STP_FORWARDING)
      in andthen (update_bit learn i (st_learning stp)) (\<lambda>l.
         andthen (update_bit forward i (st_forwarding stp)) (\<lambda>f.
           Inr (0, stp\<lparr>st_learning := l, st_forwarding := f\<rparr>))))"

section \<open>The table\<close>

fun stp_scan :: "stp_table \<Rightarrow> pointer list \<Rightarrow> u16 \<Rightarrow> pointer res" where
  "stp_scan t [] sid = Inr 0"
| "stp_scan t (p # ps) sid =
     andthen (stp_at t p) (\<lambda>stp. if st_sid stp = sid then Inr p else stp_scan t ps sid)"

definition ubr_stp_find :: "kernel \<Rightarrow> stp_table \<Rightarrow> u16 \<Rightarrow> pointer res" where
  "ubr_stp_find K t sid = stp_scan t (stps_buckets t (k_hash_min K sid)) sid"

text \<open>
  What the allocator answers: the instance (0: no memory), the two vectors. The result is
  \<^verbatim>\<open>sid\<close>, a number, made a pointer; the new instance is on the table.
\<close>

record stp_mem =
  sm_stp :: pointer
  sm_forwarding :: bool
  sm_learning :: bool

definition new_stp :: "u16 \<Rightarrow> ubr_stp" where
  "new_stp sid = \<lparr>st_sid = sid, st_forwarding = 0, st_learning = 0, st_refcount = 0\<rparr>"

definition stp_insert :: "kernel \<Rightarrow> pointer \<Rightarrow> u16 \<Rightarrow> stp_table \<Rightarrow> stp_table" where
  "stp_insert K p sid t =
     \<lparr>stps_buckets = (stps_buckets t)(k_hash_min K sid := p # stps_buckets t (k_hash_min K sid)),
      stps_heap = (stps_heap t)(p := Some (new_stp sid))\<rparr>"

definition ubr_stp_new :: "kernel \<Rightarrow> stp_mem \<Rightarrow> u16 \<Rightarrow> stp_table \<Rightarrow> pointer \<times> stp_table" where
  "ubr_stp_new K M sid t =
     (if sm_stp M = 0 then (ERR_PTR (- ENOMEM), t)
      else if \<not> sm_forwarding M then (ERR_PTR (- ENOMEM), t)
      else if \<not> sm_learning M then (ERR_PTR (- ENOMEM), t)
      else (ucast sid, stp_insert K (sm_stp M) sid t))"

text \<open>
  \<^verbatim>\<open>sid\<close> is an \<^verbatim>\<open>int\<close> here and a \<^verbatim>\<open>u16\<close> in the functions it is handed to. \<open>inc\<close> is
  \<^verbatim>\<open>refcount_inc\<close>.
\<close>

definition ubr_stp_get ::
  "kernel \<Rightarrow> (u32 \<Rightarrow> u32) \<Rightarrow> stp_mem \<Rightarrow> int \<Rightarrow> stp_table \<Rightarrow> (pointer \<times> stp_table) res" where
  "ubr_stp_get K inc M sid t =
     andthen (ubr_stp_find K t (of_int sid)) (\<lambda>p.
       let (p1, t1) = (if p = 0 then ubr_stp_new K M (of_int sid) t else (p, t)) in
       if IS_ERR_OR_NULL p1 then Inr (p1, t1)
       else andthen (stp_at t1 p1) (\<lambda>stp.
         Inr (p1, t1\<lparr>stps_heap := (stps_heap t1)(p1 := Some (stp\<lparr>st_refcount := inc (st_refcount stp)\<rparr>))\<rparr>)))"

definition ubr_stp_init :: "stp_table \<Rightarrow> int \<times> stp_table" where
  "ubr_stp_init t = (0, t\<lparr>stps_buckets := (\<lambda>_. [])\<rparr>)"

section \<open>Lemmas\<close>

lemma update_bit_eq:
  assumes "i < UBR_MAX_PORTS"
  shows "update_bit on (int i) v = Inr (if on then ubr_vec_set i v else ubr_vec_clear i v)"
proof (cases "ubr_vec_test v i")
  case True
  have "ubr_vec_set i v = v" by (rule vec_eqI) (use True in \<open>auto simp: vec_simps\<close>)
  with assms True show ?thesis by (simp add: update_bit_def stp_test_bit_def change_bit_def)
next
  case False
  with assms pv.clear_absent [OF False] show ?thesis
    by (simp add: update_bit_def stp_test_bit_def change_bit_def)
qed

lemma set_state_eq:
  assumes "i < UBR_MAX_PORTS"
  shows "ubr_stp_set_state stp (int i) state =
    Inr (0, stp\<lparr>st_learning := (if state \<noteq> UBR_STP_BLOCKING then ubr_vec_set i (st_learning stp)
                                else ubr_vec_clear i (st_learning stp)),
                st_forwarding := (if state = UBR_STP_FORWARDING then ubr_vec_set i (st_forwarding stp)
                                  else ubr_vec_clear i (st_forwarding stp))\<rparr>)"
  by (simp add: ubr_stp_set_state_def update_bit_eq [OF assms] learning_le_iff)

text \<open>A table whose objects are above the first 64 KiB, where the kernel maps nothing.\<close>

definition stp_table_ok :: "kernel \<Rightarrow> stp_table \<Rightarrow> bool" where
  "stp_table_ok K t \<longleftrightarrow>
     (\<forall>p. stps_heap t p \<noteq> None \<longrightarrow> 0x10000 \<le> p \<and> \<not> IS_ERR_OR_NULL p) \<and>
     (\<forall>h. \<forall>p \<in> set (stps_buckets t h). \<exists>stp. stps_heap t p = Some stp \<and> k_hash_min K (st_sid stp) = h)"

definition stp_sid_at :: "stp_table \<Rightarrow> pointer \<Rightarrow> u16" where
  "stp_sid_at t p = (case stps_heap t p of Some stp \<Rightarrow> st_sid stp | None \<Rightarrow> 0)"

lemma stp_scan_eq:
  assumes "\<forall>p \<in> set ps. p \<noteq> 0 \<and> stps_heap t p \<noteq> None"
  shows "stp_scan t ps sid =
    Inr (case List.find (\<lambda>p. stp_sid_at t p = sid) ps of None \<Rightarrow> 0 | Some p \<Rightarrow> p)"
  using assms by (induction ps) (auto simp: stp_at_def stp_sid_at_def)

lemma stp_table_okD:
  assumes "stp_table_ok K t" "p \<in> set (stps_buckets t h)"
  shows "p \<noteq> 0 \<and> stps_heap t p \<noteq> None \<and> \<not> IS_ERR_OR_NULL p"
proof -
  from assms have "stps_heap t p \<noteq> None" unfolding stp_table_ok_def by blast
  with assms(1) show ?thesis by (auto simp: stp_table_ok_def IS_ERR_OR_NULL_def)
qed

lemma stp_find_eq:
  assumes "stp_table_ok K t"
  shows "ubr_stp_find K t sid =
    Inr (case List.find (\<lambda>p. stp_sid_at t p = sid) (stps_buckets t (k_hash_min K sid)) of
           None \<Rightarrow> 0 | Some p \<Rightarrow> p)"
  using stp_table_okD [OF assms] unfolding ubr_stp_find_def by (intro stp_scan_eq) blast

text \<open>A number below 64 Ki is no pointer to an instance.\<close>

lemma unat_sid: "unat (ucast (sid :: u16) :: u64) = unat sid" "unat (sid :: u16) < 65536"
proof -
  show less: "unat sid < 65536" using unsigned_less [of sid, where ?'a = nat] by simp
  then show "unat (ucast sid :: u64) = unat sid"
    by (simp add: unsigned_ucast_eq take_bit_nat_eq_self)
qed

lemma ucast_low: "(ucast (sid :: u16) :: u64) < 0x10000"
  using unat_sid [of sid] by (simp add: word_less_nat_alt)

lemma low_pointer: "stp_table_ok K t \<Longrightarrow> 0x10000 \<le> q \<Longrightarrow> stps_heap (stp_insert K q sid t) (ucast (sid' :: u16)) = None"
proof -
  assume ok: "stp_table_ok K t" and q: "0x10000 \<le> q"
  note low = ucast_low [of sid']
  with q have "ucast sid' \<noteq> q" by auto
  moreover have "stps_heap t (ucast sid') = None"
    using ok low unfolding stp_table_ok_def by (metis leD)
  ultimately show ?thesis by (simp add: stp_insert_def)
qed

lemma ucast_not_err: "sid \<noteq> 0 \<Longrightarrow> \<not> IS_ERR_OR_NULL (ucast (sid :: u16))"
proof -
  assume "sid \<noteq> 0"
  have "(ucast sid :: u64) < 0x10000" by (rule ucast_low)
  moreover have "(0x10000 :: u64) \<le> - MAX_ERRNO" by (simp add: MAX_ERRNO_def)
  moreover have "(ucast sid :: u64) \<noteq> 0"
    using \<open>sid \<noteq> 0\<close> unat_sid(1) [of sid] by (metis unat_eq_zero)
  ultimately show ?thesis by (auto simp: IS_ERR_OR_NULL_def)
qed

section \<open>The properties\<close>

text \<open>
  The state of a port. For a port of the bridge, setting a state returns 0; the port then
  learns in every state but blocking (or listening, which is the same) and forwards in the
  forwarding state only, the other ports are as they were, and setting a state again changes
  nothing.
\<close>

theorem stp_state_of_a_port:
  assumes "i < UBR_MAX_PORTS" "ubr_stp_set_state stp (int i) state = Inr (ret, stp')"
  shows "ret = 0 \<and>
    (\<forall>j. ubr_vec_test (st_learning stp') j \<longleftrightarrow>
       (if j = i then state \<noteq> UBR_STP_BLOCKING else ubr_vec_test (st_learning stp) j)) \<and>
    (\<forall>j. ubr_vec_test (st_forwarding stp') j \<longleftrightarrow>
       (if j = i then state = UBR_STP_FORWARDING else ubr_vec_test (st_forwarding stp) j)) \<and>
    ubr_stp_set_state stp' (int i) state = Inr (0, stp') \<and>
    ubr_stp_set_state stp (int i) UBR_STP_LISTENING = ubr_stp_set_state stp (int i) UBR_STP_BLOCKING"
proof -
  let ?l = "if state \<noteq> UBR_STP_BLOCKING then ubr_vec_set i (st_learning stp)
      else ubr_vec_clear i (st_learning stp)"
  let ?f = "if state = UBR_STP_FORWARDING then ubr_vec_set i (st_forwarding stp)
      else ubr_vec_clear i (st_forwarding stp)"
  have stp': "ret = 0" "stp' = stp\<lparr>st_learning := ?l, st_forwarding := ?f\<rparr>"
    using assms(2) set_state_eq [OF assms(1), of stp state] by simp_all
  have i: "i < 256" using assms(1) by (simp add: UBR_MAX_PORTS_256)
  have "ubr_vec_set i (ubr_vec_set i v) = ubr_vec_set i v"
    "ubr_vec_clear i (ubr_vec_clear i v) = ubr_vec_clear i v" for v
    by (rule vec_eqI; auto simp: vec_simps)+
  then show ?thesis
    using i by (auto simp: stp' set_state_eq [OF assms(1)] vec_simps UBR_STP_LISTENING_def)
qed

theorem stp_state_of_a_port_witness:
  "\<exists>stp'. ubr_stp_set_state (new_stp 1) 7 UBR_STP_LEARNING = Inr (0, stp') \<and>
     ubr_vec_test (st_learning stp') 7 \<and> \<not> ubr_vec_test (st_forwarding stp') 7"
proof -
  have i: "7 < UBR_MAX_PORTS" by (simp add: UBR_MAX_PORTS_256)
  obtain ret stp' where r: "ubr_stp_set_state (new_stp 1) (int 7) UBR_STP_LEARNING = Inr (ret, stp')"
    using set_state_eq [OF i] by blast
  from stp_state_of_a_port [OF i r] r show ?thesis by auto
qed

text \<open>
  An instance that the table does not have yet. When there is memory, \<^verbatim>\<open>ubr_stp_get\<close> puts it
  on the table, with no reference counted, and then follows the SID itself as a pointer, which is
  a fault; for SID 0 it returns NULL. An instance the table has is returned with one reference
  more, and nothing else changes.
\<close>

theorem stp_get_follows_the_sid:
  assumes "stp_table_ok K t" "\<And>p. stps_heap t p \<noteq> None \<Longrightarrow> p \<noteq> sm_stp M"
    and "0x10000 \<le> sm_stp M" "sm_forwarding M" "sm_learning M"
  shows "(case List.find (\<lambda>p. stp_sid_at t p = of_int sid) (stps_buckets t (k_hash_min K (of_int sid))) of
      None \<Rightarrow>
        ubr_stp_get K inc M sid t =
          (if (of_int sid :: u16) = 0 then Inr (0, stp_insert K (sm_stp M) 0 t) else Inl WildPointer)
    | Some p \<Rightarrow>
        \<exists>stp. stps_heap t p = Some stp \<and> st_sid stp = of_int sid \<and>
          ubr_stp_get K inc M sid t =
            Inr (p, t\<lparr>stps_heap := (stps_heap t)(p \<mapsto> stp\<lparr>st_refcount := inc (st_refcount stp)\<rparr>)\<rparr>))"
proof (cases "List.find (\<lambda>p. stp_sid_at t p = of_int sid) (stps_buckets t (k_hash_min K (of_int sid)))")
  case None
  have mem: "sm_stp M \<noteq> 0" using assms(3) by auto
  then have new: "ubr_stp_new K M (of_int sid) t =
      (ucast (of_int sid :: u16), stp_insert K (sm_stp M) (of_int sid) t)"
    using assms(4,5) by (simp add: ubr_stp_new_def)
  have find: "ubr_stp_find K t (of_int sid) = Inr 0" using None by (simp add: stp_find_eq [OF assms(1)])
  show ?thesis
  proof (cases "(of_int sid :: u16) = 0")
    case True
    with None find new show ?thesis by (simp add: ubr_stp_get_def IS_ERR_OR_NULL_def)
  next
    case False
    have "(ucast (of_int sid :: u16) :: u64) \<noteq> 0"
      using ucast_not_err [OF False] by (auto simp: IS_ERR_OR_NULL_def)
    then show ?thesis
      using None False find new ucast_not_err [OF False]
        low_pointer [OF assms(1,3), of "of_int sid" "of_int sid"]
      by (simp add: ubr_stp_get_def stp_at_def)
  qed
next
  case (Some p)
  then have p: "p \<in> set (stps_buckets t (k_hash_min K (of_int sid)))" "stp_sid_at t p = of_int sid"
    by (auto simp: find_Some_iff)
  from stp_table_okD [OF assms(1) p(1)] obtain stp where stp: "stps_heap t p = Some stp"
    and ptr: "p \<noteq> 0" "\<not> IS_ERR_OR_NULL p" by auto
  have "ubr_stp_find K t (of_int sid) = Inr p" using Some by (simp add: stp_find_eq [OF assms(1)])
  with Some stp ptr p(2) show ?thesis by (simp add: ubr_stp_get_def stp_at_def stp_sid_at_def)
qed

definition stp_sample :: "kernel \<Rightarrow> stp_table" where
  "stp_sample K = stp_insert K 0x20000 5 \<lparr>stps_buckets = \<lambda>_. [], stps_heap = \<lambda>_. None\<rparr>"

lemma stp_sample_ok: "stp_table_ok K (stp_sample K)"
  by (auto simp: stp_table_ok_def stp_sample_def stp_insert_def IS_ERR_OR_NULL_def MAX_ERRNO_def new_stp_def
      split: if_splits)

theorem stp_get_follows_the_sid_witness:
  "ubr_stp_get plain_kernel (\<lambda>n. n + 1) \<lparr>sm_stp = 0x30000, sm_forwarding = True, sm_learning = True\<rparr> 7 (stp_sample plain_kernel) =
     Inl WildPointer"
proof -
  let ?M = "\<lparr>sm_stp = 0x30000, sm_forwarding = True, sm_learning = True\<rparr>"
  have "stps_heap (stp_sample plain_kernel) p \<noteq> None \<Longrightarrow> p \<noteq> sm_stp ?M" for p
    by (auto simp: stp_sample_def stp_insert_def split: if_splits)
  note get = stp_get_follows_the_sid [OF stp_sample_ok [of plain_kernel] this, where sid = 7 and inc = "\<lambda>n. n + 1"]
  have none: "List.find (\<lambda>p. stp_sid_at (stp_sample plain_kernel) p = of_int 7)
      (stps_buckets (stp_sample plain_kernel) (k_hash_min plain_kernel (of_int 7))) = None"
    by (simp add: stp_sample_def stp_insert_def stp_sid_at_def new_stp_def)
  from get show ?thesis unfolding none by simp
qed

end
