(* ===== verification/Ubr_Loops.thy ===== *)
theory Ubr_Loops
  imports Ubr_Fdb Ubr_Msg
begin

text \<open>
  The two loops of the program whose end is not in the program's hands: the walk over the
  resizable hash table in \<^verbatim>\<open>ubr_fdb_flush\<close> (kernel/ubr-fdb.c), which starts anew whenever the
  table is resized, and the reading of answers in \<^verbatim>\<open>msg_recv\<close> (src/msg.c). Here they are loops,
  for which not to return is a result; the other theories use the lists of answers they consume.
\<close>

section \<open>Loops that ask the environment\<close>

text \<open>
  The body gets the number of its round, so that what it asks may differ from one to the next; it
  goes on with a state or returns.
\<close>

partial_function (option) loop_from ::
  "(nat \<Rightarrow> 's \<Rightarrow> 's + 'r) \<Rightarrow> nat \<Rightarrow> 's \<Rightarrow> 'r option" where
  "loop_from body n s =
     (case body n s of Inl s' \<Rightarrow> loop_from body (Suc n) s' | Inr r \<Rightarrow> Some r)"

lemma loop_from_goes: "body n s = Inl s' \<Longrightarrow> loop_from body n s = loop_from body (Suc n) s'"
  by (subst loop_from.simps) simp

lemma loop_from_stops: "body n s = Inr r \<Longrightarrow> loop_from body n s = Some r"
  by (subst loop_from.simps) simp

lemma loop_from_ended:
  "loop_from body n s = Some r \<Longrightarrow> \<exists>m \<ge> n. \<exists>t q. body m t = Inr q"
proof (induction rule: loop_from.raw_induct [rotated 1, consumes 1, case_names round])
  case (round loop body n s r)
  show ?case
  proof (cases "body n s")
    case (Inl s')
    then have "loop body (Suc n) s' = Some r" using round(2) by simp
    from round(1) [OF this] show ?thesis using Suc_leD by blast
  qed auto
qed

text \<open>
  Whether a round is the last one is for the environment to say, whatever the state. Then the
  loop returns exactly when some round is the last, and it returns what the answers up to that
  round amount to.
\<close>

locale asked_loop =
  fixes body :: "nat \<Rightarrow> 's \<Rightarrow> 's + 'r" and last :: "nat \<Rightarrow> bool"
  assumes last_returns: "(\<exists>r. body n s = Inr r) = last n"
begin

lemma goes_on: "\<not> last n \<Longrightarrow> \<exists>s'. body n s = Inl s'"
  using last_returns [of n s] by (cases "body n s") auto

lemma returns_after: "last (n + k) \<Longrightarrow> \<exists>r. loop_from body n s = Some r"
proof (induction k arbitrary: n s)
  case 0
  then obtain r where "body n s = Inr r" using last_returns by fastforce
  then show ?case by (simp add: loop_from_stops)
next
  case (Suc k)
  show ?case
  proof (cases "body n s")
    case (Inl s')
    with Suc.IH [of "Suc n" s'] Suc.prems show ?thesis by (simp add: loop_from_goes)
  qed (simp add: loop_from_stops)
qed

lemma returned: "loop_from body n s = Some r \<Longrightarrow> \<exists>m \<ge> n. last m"
  using loop_from_ended [of body n s r] last_returns by blast

lemma never_last: "(\<And>m. n \<le> m \<Longrightarrow> \<not> last m) \<Longrightarrow> loop_from body n s = None"
  using returned by (cases "loop_from body n s") blast+

end

section \<open>The walk of a flush\<close>

text \<open>
  What \<^verbatim>\<open>rhashtable_walk_next\<close> answers in each round: \<open>None\<close> is the NULL at the end of the table.
\<close>

definition flush_round ::
  "u64 \<Rightarrow> ubr_fdb_flush_op \<Rightarrow> (nat \<Rightarrow> walk_item option) \<Rightarrow> nat \<Rightarrow> ubr_fdb \<Rightarrow> ubr_fdb + int \<times> ubr_fdb" where
  "flush_round jiffies opn ask n fdb =
     (case ask n of
        None \<Rightarrow> Inr (0, fdb)
      | Some (WalkErr e) \<Rightarrow> Inr (e, fdb)
      | Some WalkAgain \<Rightarrow> Inl fdb
      | Some (WalkNode k) \<Rightarrow>
          Inl (case f_nodes fdb k of
                 None \<Rightarrow> fdb
               | Some node \<Rightarrow> if flush_match jiffies fdb opn node then fdb_remove k fdb else fdb))"

definition flush_loop ::
  "u64 \<Rightarrow> ubr_fdb_flush_op \<Rightarrow> (nat \<Rightarrow> walk_item option) \<Rightarrow> ubr_fdb \<Rightarrow> (int \<times> ubr_fdb) option" where
  "flush_loop jiffies opn ask fdb = loop_from (flush_round jiffies opn ask) 0 fdb"

lemma flush_round_simps:
  "ask n = None \<Longrightarrow> flush_round j opn ask n fdb = Inr (0, fdb)"
  "ask n = Some (WalkErr e) \<Longrightarrow> flush_round j opn ask n fdb = Inr (e, fdb)"
  "ask n = Some WalkAgain \<Longrightarrow> flush_round j opn ask n fdb = Inl fdb"
  "ask n = Some (WalkNode k) \<Longrightarrow> flush_round j opn ask n fdb =
     Inl (case f_nodes fdb k of
            None \<Rightarrow> fdb
          | Some node \<Rightarrow> if flush_match j fdb opn node then fdb_remove k fdb else fdb)"
  by (simp_all add: flush_round_def)

fun ends_walk :: "walk_item option \<Rightarrow> bool" where
  "ends_walk None = True"
| "ends_walk (Some (WalkErr e)) = True"
| "ends_walk (Some w) = False"

interpretation walk: asked_loop "flush_round j opn ask" "\<lambda>n. ends_walk (ask n)"
  by unfold_locales (auto simp: flush_round_def split: option.split walk_item.split)

text \<open>The answers of the rounds from \<open>n\<close> to \<open>m\<close>.\<close>

definition answers :: "(nat \<Rightarrow> 'a option) \<Rightarrow> nat \<Rightarrow> nat \<Rightarrow> 'a list" where
  "answers ask n m = List.map_filter ask [n ..< Suc m]"

lemma answers_step:
  "n < m \<Longrightarrow> answers ask n m = (case ask n of None \<Rightarrow> [] | Some w \<Rightarrow> [w]) @ answers ask (Suc n) m"
  by (simp add: answers_def upt_conv_Cons List.map_filter_simps split: option.split)

lemma answers_last: "answers ask n n = (case ask n of None \<Rightarrow> [] | Some w \<Rightarrow> [w])"
  by (simp add: answers_def List.map_filter_simps split: option.split)

lemma flush_until:
  assumes "ends_walk (ask (n + k))" and "\<And>i. i < k \<Longrightarrow> \<not> ends_walk (ask (n + i))"
  shows "loop_from (flush_round j opn ask) n fdb =
    Some (ubr_fdb_flush j opn (answers ask n (n + k)) fdb)"
  using assms
proof (induction k arbitrary: n fdb)
  case 0
  then show ?case
    by (cases "ask n" rule: ends_walk.cases)
      (simp_all add: loop_from_stops flush_round_simps answers_last)
next
  case (Suc k)
  have go: "\<not> ends_walk (ask n)" using Suc.prems(2) [of 0] by simp
  have rest: "loop_from (flush_round j opn ask) (Suc n) f =
      Some (ubr_fdb_flush j opn (answers ask (Suc n) (n + Suc k)) f)" for f
    using Suc.IH [of "Suc n" f] Suc.prems(1) Suc.prems(2) [of "Suc i" for i] by simp
  from go show ?case
    by (cases "ask n" rule: ends_walk.cases)
      (simp_all add: loop_from_goes flush_round_simps answers_step rest split: option.split)
qed

text \<open>
  C28. (termination) Nothing in \<^verbatim>\<open>ubr_fdb_flush\<close> bounds its walk: an \<^verbatim>\<open>-EAGAIN\<close> (the table was
  resized) starts it again. It returns exactly when the table gives, in some round, its end or
  another error; then the result and the database are those of the answers up to there, and
  when it never does, a flush, and with it the ageing work, the unlinking of the bridge and
  \<^verbatim>\<open>fdb flush\<close>, does not return.
\<close>

theorem flush_returns_iff_walk_ends:
  "flush_loop j opn ask fdb =
     (if \<exists>n. ends_walk (ask n)
      then Some (ubr_fdb_flush j opn (answers ask 0 (LEAST n. ends_walk (ask n))) fdb)
      else None)"
proof (cases "\<exists>n. ends_walk (ask n)")
  case True
  let ?n = "LEAST n. ends_walk (ask n)"
  have end0: "ends_walk (ask (0 + ?n))" unfolding add_0 using True by (rule LeastI_ex)
  have "\<not> ends_walk (ask (0 + i))" if "i < ?n" for i
    unfolding add_0 using that by (rule not_less_Least)
  from flush_until [of ask 0 ?n, OF end0 this] show ?thesis
    unfolding flush_loop_def if_P [OF True] add_0 .
next
  case False
  then have "loop_from (flush_round j opn ask) 0 fdb = None" by (intro walk.never_last) blast
  then show ?thesis unfolding flush_loop_def if_not_P [OF False] .
qed

section \<open>The answers to a request\<close>

text \<open>
  In round \<open>n\<close> of \<^verbatim>\<open>msg_recv\<close> the tool reads a datagram, with result \<open>recv n\<close>, and if there is one
  runs the callback on it, with result \<open>run n\<close>.
\<close>

definition recv_round :: "(nat \<Rightarrow> int) \<Rightarrow> (nat \<Rightarrow> int) \<Rightarrow> nat \<Rightarrow> unit \<Rightarrow> unit + int" where
  "recv_round recv run n s =
     (if recv n > 0 then if run n \<le> 0 then Inr (run n) else Inl () else Inr (recv n))"

definition recv_loop :: "(nat \<Rightarrow> int) \<Rightarrow> (nat \<Rightarrow> int) \<Rightarrow> int option" where
  "recv_loop recv run = loop_from (recv_round recv run) 0 ()"

lemma recv_round_simps:
  "recv n \<le> 0 \<Longrightarrow> recv_round recv run n s = Inr (recv n)"
  "recv n > 0 \<Longrightarrow> run n \<le> 0 \<Longrightarrow> recv_round recv run n s = Inr (run n)"
  "recv n > 0 \<Longrightarrow> run n > 0 \<Longrightarrow> recv_round recv run n s = Inl ()"
  by (simp_all add: recv_round_def)

definition last_datagram :: "(nat \<Rightarrow> int) \<Rightarrow> (nat \<Rightarrow> int) \<Rightarrow> nat \<Rightarrow> bool" where
  "last_datagram recv run n = (recv n \<le> 0 \<or> run n \<le> 0)"

interpretation answered: asked_loop "recv_round recv run" "last_datagram recv run"
  by unfold_locales (auto simp: recv_round_def last_datagram_def)

text \<open>The results of the callback in the rounds before \<open>m\<close>, and in round \<open>m\<close> if it was run there.\<close>

definition callbacks :: "(nat \<Rightarrow> int) \<Rightarrow> (nat \<Rightarrow> int) \<Rightarrow> nat \<Rightarrow> int list" where
  "callbacks recv run m = map run [0 ..< m] @ (if recv m > 0 then [run m] else [])"

lemma msg_recv_append:
  "\<forall>r \<in> set rs. r > 0 \<Longrightarrow> msg_recv (rs @ qs) final = msg_recv qs final"
  by (induction rs) (auto simp: not_le)

lemma recv_until:
  assumes "last_datagram recv run (n + k)" and "\<And>i. i < k \<Longrightarrow> \<not> last_datagram recv run (n + i)"
  shows "loop_from (recv_round recv run) n s =
    Some (if recv (n + k) > 0 then run (n + k) else recv (n + k))"
  using assms
proof (induction k arbitrary: n s)
  case 0
  then show ?case
    by (cases "recv n > 0")
      (simp_all add: loop_from_stops recv_round_simps last_datagram_def)
next
  case (Suc k)
  have "recv_round recv run n s = Inl ()"
    using Suc.prems(2) [of 0] by (simp add: recv_round_simps last_datagram_def)
  with Suc.IH [of "Suc n" "()"] Suc.prems(1) Suc.prems(2) [of "Suc i" for i] show ?case
    by (simp add: loop_from_goes)
qed

text \<open>
  The tool waits for ever exactly when every datagram it reads leaves the callback content and
  there is always another; the acknowledgement it asks for makes \<^verbatim>\<open>mnl_cb_run\<close> return 0.
\<close>

theorem msg_recv_returns_iff_answered:
  "recv_loop recv run =
     (if \<exists>n. last_datagram recv run n
      then let m = (LEAST n. last_datagram recv run n)
           in Some (msg_recv (callbacks recv run m) (recv m))
      else None)"
proof (cases "\<exists>n. last_datagram recv run n")
  case True
  define m where "m = (LEAST n. last_datagram recv run n)"
  have last: "last_datagram recv run (0 + m)"
    unfolding add_0 m_def using True by (rule LeastI_ex)
  have before: "\<not> last_datagram recv run (0 + i)" if "i < m" for i
    using not_less_Least that unfolding add_0 m_def by blast
  have pos: "\<forall>r \<in> set (map run [0 ..< m]). r > 0"
    using before by (auto simp: last_datagram_def not_le)
  have "msg_recv (callbacks recv run m) (recv m) = (if recv m > 0 then run m else recv m)"
    unfolding callbacks_def msg_recv_append [OF pos] using last by (auto simp: last_datagram_def)
  with recv_until [of recv run 0 m, OF last before] show ?thesis
    unfolding recv_loop_def if_P [OF True] Let_def m_def [symmetric] by simp
next
  case False
  then have "loop_from (recv_round recv run) 0 () = None" by (intro answered.never_last) blast
  then show ?thesis unfolding recv_loop_def if_not_P [OF False] .
qed

end
