(* ===== verification/Ubr_Abstract.thy ===== *)
theory Ubr_Abstract
  imports Ubr_System
begin

text \<open>
  What a bridge promises, without its data structures: a learning switch with VLANs. Its state
  is three maps and a timeout, its operations are one line each, and a frame goes where \<open>sw_receive\<close> says. The
  abstraction \<open>abs_switch\<close> forgets the hash table, the heap of VLAN objects, the bit vectors, the
  templates of the control buffer and the callbacks; here are the lemmas that each operation of
  the code is, through it, one of the switch. Ubr_Network has the module's steps, and Ubr_Refine
  the theorems.
\<close>

section \<open>The switch\<close>

text \<open>
  A port has a device and a PVID, a VLAN its members and those of them that are tagged, a station
  the port and the time it was last heard.
\<close>

record switch =
  sw_port :: "nat \<rightharpoonup> netdev \<times> u16"
  sw_vlan :: "u16 \<rightharpoonup> nat set \<times> nat set"
  sw_station :: "u16 \<times> mac \<rightharpoonup> nat \<times> u64"
  sw_timeout :: u64

datatype sw_op =
    Sw_Add u16
  | Sw_Attach u16 nat bool
  | Sw_Detach u16 nat
  | Sw_Pvid nat u16
  | Sw_Learn nat u16 mac u64
  | Sw_Forget "(u16 \<times> mac) set"
  | Sw_Join nat netdev
  | Sw_Leave nat

definition sw_members :: "u16 \<Rightarrow> switch \<Rightarrow> nat set" where
  "sw_members vid sw = (case sw_vlan sw vid of None \<Rightarrow> {} | Some (ms, ts) \<Rightarrow> ms)"

definition sw_tagged :: "u16 \<Rightarrow> switch \<Rightarrow> nat set" where
  "sw_tagged vid sw = (case sw_vlan sw vid of None \<Rightarrow> {} | Some (ms, ts) \<Rightarrow> ts)"

definition sw_stale :: "switch \<Rightarrow> u64 \<Rightarrow> u64 \<Rightarrow> bool" where
  "sw_stale sw now since = time_is_before_jiffies now (since + sw_timeout sw)"

text \<open>What an operation needs, with the time at which it is done, and what it does.\<close>

fun sw_enabled :: "u64 \<Rightarrow> sw_op \<Rightarrow> switch \<Rightarrow> bool" where
  "sw_enabled now (Sw_Add vid) sw = (sw_vlan sw vid = None)"
| "sw_enabled now (Sw_Attach vid i tagged) sw = (sw_vlan sw vid \<noteq> None \<and> sw_port sw i \<noteq> None)"
| "sw_enabled now (Sw_Detach vid i) sw = (sw_vlan sw vid \<noteq> None \<and> sw_port sw i \<noteq> None)"
| "sw_enabled now (Sw_Pvid i pvid) sw = (sw_port sw i \<noteq> None)"
| "sw_enabled now (Sw_Learn i vid m t) sw =
     (sw_port sw i \<noteq> None \<and> sw_vlan sw vid \<noteq> None \<and> is_valid_ether_addr m)"
| "sw_enabled now (Sw_Forget ks) sw =
     (\<forall>k \<in> ks. case sw_station sw k of None \<Rightarrow> False | Some (i, since) \<Rightarrow> sw_stale sw now since)"
| "sw_enabled now (Sw_Join i dev) sw = (sw_port sw i = None \<and> sw_vlan sw 0 \<noteq> None)"
| "sw_enabled now (Sw_Leave i) sw = (sw_port sw i \<noteq> None \<and> (\<forall>vid. i \<notin> sw_members vid sw))"

fun sw_exec :: "sw_op \<Rightarrow> switch \<Rightarrow> switch" where
  "sw_exec (Sw_Add vid) sw = sw\<lparr>sw_vlan := (sw_vlan sw)(vid \<mapsto> ({}, {}))\<rparr>"
| "sw_exec (Sw_Attach vid i tagged) sw =
     sw\<lparr>sw_vlan := (sw_vlan sw)(vid \<mapsto> (insert i (sw_members vid sw),
       if tagged then insert i (sw_tagged vid sw) else sw_tagged vid sw))\<rparr>"
| "sw_exec (Sw_Detach vid i) sw =
     sw\<lparr>sw_vlan := (sw_vlan sw)(vid \<mapsto> (sw_members vid sw - {i}, sw_tagged vid sw - {i}))\<rparr>"
| "sw_exec (Sw_Pvid i pvid) sw =
     sw\<lparr>sw_port := (sw_port sw)(i := map_option (\<lambda>(dev, _). (dev, pvid)) (sw_port sw i))\<rparr>"
| "sw_exec (Sw_Learn i vid m t) sw = sw\<lparr>sw_station := (sw_station sw)((vid, m) \<mapsto> (i, t))\<rparr>"
| "sw_exec (Sw_Forget ks) sw = sw\<lparr>sw_station := (sw_station sw) |` (- ks)\<rparr>"
| "sw_exec (Sw_Join i dev) sw =
     sw\<lparr>sw_port := (sw_port sw)(i \<mapsto> (dev, 0)),
        sw_vlan := (sw_vlan sw)(0 \<mapsto> (insert i (sw_members 0 sw), sw_tagged 0 sw))\<rparr>"
| "sw_exec (Sw_Leave i) sw = sw\<lparr>sw_port := (sw_port sw)(i := None)\<rparr>"

text \<open>
  A frame: the VLAN it is in (\<open>tag\<close> is 0 when it carries no VID), learning, and the ports it goes
  to. A port without a PVID takes part in VLAN 0 alone and is not asked whether it is a member; a
  frame of a VLAN the switch does not have is not its business (\<open>None\<close>).
\<close>

definition sw_vid :: "switch \<Rightarrow> nat \<Rightarrow> u16 \<Rightarrow> u16" where
  "sw_vid sw i tag =
     (case sw_port sw i of
        None \<Rightarrow> 0
      | Some (dev, pvid) \<Rightarrow> if pvid = 0 then 0 else if tag \<noteq> 0 then tag else pvid)"

definition sw_known :: "switch \<Rightarrow> u64 \<Rightarrow> u16 \<Rightarrow> mac \<Rightarrow> nat option" where
  "sw_known sw now vid dst =
     (case sw_station sw (vid, dst) of
        None \<Rightarrow> None
      | Some (j, since) \<Rightarrow> if sw_stale sw now since then None else Some j)"

definition sw_targets :: "switch \<Rightarrow> u64 \<Rightarrow> nat \<Rightarrow> u16 \<Rightarrow> mac \<Rightarrow> nat set" where
  "sw_targets sw now i vid dst =
     {j \<in> sw_members vid sw. j \<noteq> i \<and>
        (case sw_known sw now vid dst of None \<Rightarrow> True | Some p \<Rightarrow> j = p)}"

definition sw_admits :: "switch \<Rightarrow> nat \<Rightarrow> u16 \<Rightarrow> bool" where
  "sw_admits sw i vid = (map_option snd (sw_port sw i) = Some 0 \<or> i \<in> sw_members vid sw)"

definition sw_receive ::
  "u64 \<Rightarrow> nat \<Rightarrow> u16 \<Rightarrow> mac \<Rightarrow> mac \<Rightarrow> switch \<Rightarrow> (nat set \<times> switch) option" where
  "sw_receive now i tag src dst sw =
     (let vid = sw_vid sw i tag;
          sw' = (if is_valid_ether_addr src then sw_exec (Sw_Learn i vid src now) sw else sw)
      in if sw_vlan sw vid = None then None
         else Some (if sw_admits sw i vid then sw_targets sw' now i vid dst else {}, sw'))"

section \<open>The abstraction\<close>

definition abs_vlan :: "ubr_vlan \<Rightarrow> nat set \<times> nat set" where
  "abs_vlan v = (vec_ports (vl_members v), vec_ports (vl_tagged v))"

definition abs_station :: "ubr_fdb \<Rightarrow> u16 \<times> mac \<Rightarrow> (nat \<times> u64) option" where
  "abs_station fdb = (\<lambda>(vid, m).
     map_option (\<lambda>n. (find_first_bit (n_vec n), n_tstamp n))
       (f_nodes fdb \<lparr>a_addr = UBR_ADDR_MAC m, a_vid = vid\<rparr>))"

definition abs_switch :: "kernel \<Rightarrow> ubr \<Rightarrow> switch" where
  "abs_switch K br =
     \<lparr>sw_port = (\<lambda>i. if ubr_vec_test (br_busy br) i
        then map_option (\<lambda>dev. (dev, p_pvid (br_ports br i))) (port_netdev br i) else None),
      sw_vlan = (\<lambda>vid. Option.bind (vlan_of K br vid) (\<lambda>a. map_option abs_vlan (br_heap br a))),
      sw_station = abs_station (br_fdb br),
      sw_timeout = f_ageing_timeout (br_fdb br)\<rparr>"

text \<open>
  What the module never does and the data structures would allow: a station that was not learned
  or is a group, a VLAN that does not learn or does not flood everywhere, another device in the
  bridge's own slot.
\<close>

definition learned :: "ubr_fdb \<Rightarrow> bool" where
  "learned fdb \<longleftrightarrow>
     (\<forall>k n. f_nodes fdb k = Some n \<longrightarrow> n_proto n = UBR_FDB_DYNAMIC \<and>
        (\<exists>m. a_addr k = UBR_ADDR_MAC m \<and> is_valid_ether_addr m))"

definition open_vlan :: "ubr_vlan \<Rightarrow> bool" where
  "open_vlan v \<longleftrightarrow> vl_sa_learning v \<and> vl_ucflood v = ubr_vec_fill \<and> vl_bcflood v = ubr_vec_fill \<and>
     vl_mcflood v = ubr_vec_fill"

definition plain :: "ubr \<Rightarrow> bool" where
  "plain br \<longleftrightarrow> learned (br_fdb br) \<and> (\<forall>a v. br_heap br a = Some v \<longrightarrow> open_vlan v) \<and>
     p_dev (br_ports br 0) = Some (br_dev br)"

lemma plainD:
  "plain br \<Longrightarrow> learned (br_fdb br)" "plain br \<Longrightarrow> br_heap br a = Some v \<Longrightarrow> open_vlan v"
  "plain br \<Longrightarrow> port_netdev br i = p_dev (br_ports br i)"
  unfolding plain_def port_netdev_def by auto

lemma abs_switch_simps [simp]:
  "sw_station (abs_switch K br) = abs_station (br_fdb br)"
  "sw_timeout (abs_switch K br) = f_ageing_timeout (br_fdb br)"
  by (simp_all add: abs_switch_def)

lemma abs_port:
  "bridge_ok K br \<Longrightarrow> ubr_vec_test (br_busy br) i \<Longrightarrow>
     \<exists>dev. port_netdev br i = Some dev \<and> sw_port (abs_switch K br) i = Some (dev, p_pvid (br_ports br i))"
  using port_cb(5) by (fastforce simp: abs_switch_def port_netdev_def)

lemma abs_port_None: "\<not> ubr_vec_test (br_busy br) i \<Longrightarrow> sw_port (abs_switch K br) i = None"
  by (simp add: abs_switch_def)

lemma abs_vlan_None: "vlan_of K br vid = None \<Longrightarrow> sw_vlan (abs_switch K br) vid = None"
  by (simp add: abs_switch_def)

lemma abs_vlan_Some:
  "vlan_of K br vid = Some a \<Longrightarrow> br_heap br a = Some v \<Longrightarrow>
     sw_vlan (abs_switch K br) vid = Some (abs_vlan v)"
  by (simp add: abs_switch_def)

lemma abs_members:
  assumes "vlan_of K br vid = Some a" "br_heap br a = Some v"
  shows "sw_members vid (abs_switch K br) = vec_ports (vl_members v)"
    and "sw_tagged vid (abs_switch K br) = vec_ports (vl_tagged v)"
  using abs_vlan_Some [OF assms] by (simp_all add: sw_members_def sw_tagged_def abs_vlan_def)

lemma abs_vlan_known:
  "vlan_table_ok K br \<Longrightarrow> sw_vlan (abs_switch K br) vid = None \<longleftrightarrow> vlan_of K br vid = None"
  using vlan_of_SomeD(1) by (cases "vlan_of K br vid") (fastforce simp: abs_switch_def)+

section \<open>Configuration\<close>

lemma abs_add:
  assumes "vlan_table_ok K br" "vlan_of K br vid = None" "br_heap br a = None"
  shows "abs_switch K (update_port_vlan a vid True (vlan_add K a vid br)) =
    sw_exec (Sw_Add vid) (abs_switch K br)"
proof -
  let ?b = "vlan_add K a vid br" and ?u = "update_port_vlan a vid True (vlan_add K a vid br)"
  have "vlan_of K ?u = vlan_of K ?b" by (rule vlan_table_cong; simp)
  then have of: "vlan_of K ?u = (vlan_of K br)(vid \<mapsto> a)"
    using vt.find_add [OF assms] by (auto simp: fun_eq_iff)
  have "br_heap ?u = (br_heap br)(a \<mapsto> new_vlan (br_dev br) vid)" by simp
  moreover have "vlan_of K br x \<noteq> Some a" for x using vt.find_fresh [OF assms(1,3)] by simp
  moreover have "abs_vlan (new_vlan d vid) = ({}, {})" for d
    by (simp add: abs_vlan_def vec_ports_def)
  ultimately show ?thesis
    using of by (auto simp: abs_switch_def port_netdev_def update_port_vlan_ports fun_eq_iff bind_eq_Some_conv split: bind_split)
qed

lemma abs_write:
  assumes "vlan_table_ok K br" "vlan_of K br vid = Some a" "br_heap br a = Some v" "vl_vid v' = vl_vid v"
  shows "abs_switch K (vlan_write a v' br) =
    (abs_switch K br)\<lparr>sw_vlan := (sw_vlan (abs_switch K br))(vid \<mapsto> abs_vlan v')\<rparr>"
proof -
  let ?w = "vlan_write a v' br"
  have of: "vlan_of K ?w = vlan_of K br" by (rule vt.find_put [OF assms(1,3,4)])
  have "sw_vlan (abs_switch K ?w) x = ((sw_vlan (abs_switch K br))(vid \<mapsto> abs_vlan v')) x" for x
  proof (cases "x = vid")
    case True
    then show ?thesis using assms(2) by (simp add: abs_switch_def of)
  next
    case False
    then have "vlan_of K br x \<noteq> Some a" using vt.find_inj [OF assms(1) _ assms(2)] by blast
    with False show ?thesis by (cases "vlan_of K br x") (simp_all add: abs_switch_def of)
  qed
  then have "sw_vlan (abs_switch K ?w) = (sw_vlan (abs_switch K br))(vid \<mapsto> abs_vlan v')" ..
  then show ?thesis by (simp add: abs_switch_def port_netdev_def cong: if_cong)
qed

lemma vec_ports_simps [simp]:
  "vec_ports (ubr_vec_set i v) = (if i < UBR_MAX_PORTS then insert i (vec_ports v) else vec_ports v)"
  "vec_ports (ubr_vec_clear i v) = vec_ports v - {i}"
  by (auto simp: vec_ports_def vec_simps UBR_MAX_PORTS_256)

lemma abs_add_member:
  assumes "vlan_table_ok K br" "vlan_of K br vid = Some a" "br_heap br a = Some v" "i < UBR_MAX_PORTS"
  shows "abs_switch K (vlan_write a (add_member i tagged v) br) =
    sw_exec (Sw_Attach vid i tagged) (abs_switch K br)"
  unfolding abs_write [OF assms(1-3) member_simps(1)] using assms(4)
  by (simp add: abs_members [OF assms(2,3)] abs_vlan_def add_member_def)

lemma abs_del_member:
  assumes "vlan_table_ok K br" "vlan_of K br vid = Some a" "br_heap br a = Some v"
  shows "abs_switch K (vlan_write a (del_member i v) br) =
    sw_exec (Sw_Detach vid i) (abs_switch K br)"
  unfolding abs_write [OF assms(1-3) member_simps(2)]
  by (simp add: abs_members [OF assms(2,3)] abs_vlan_def del_member_def)

lemma abs_set_pvid:
  assumes "ubr_vec_test (br_busy br) i"
  shows "abs_switch K (port_write i (set_port_pvid pvid vl (br_ports br i)) br) =
    sw_exec (Sw_Pvid i pvid) (abs_switch K br)"
proof -
  let ?b = "port_write i (set_port_pvid pvid vl (br_ports br i)) br"
  have "sw_port (abs_switch K ?b) x = sw_port (sw_exec (Sw_Pvid i pvid) (abs_switch K br)) x" for x
    using assms
    by (simp add: abs_switch_def port_netdev_def set_port_pvid_def option.map_comp o_def)
  then have "sw_port (abs_switch K ?b) = sw_port (sw_exec (Sw_Pvid i pvid) (abs_switch K br))" ..
  then show ?thesis by (simp add: abs_switch_def port_write_table)
qed

section \<open>Ports\<close>

lemma abs_enslaved:
  assumes ok: "bridge_ok K br" and slot: "free_slot br \<noteq> UBR_MAX_PORTS"
    and own: "free_slot br = 0 \<Longrightarrow> dev = br_dev br"
  shows "abs_switch K (enslaved K (free_slot br) dev br) =
    sw_exec (Sw_Join (free_slot br) dev) (abs_switch K br)"
proof -
  let ?i = "free_slot br"
  obtain a where a: "vlan_of K br 0 = Some a" using bridge_okD(2) [OF ok] by auto
  with vlan_of_SomeD(1) [OF bridge_okD(1) [OF ok]] obtain v where v: "br_heap br a = Some v" by blast
  let ?w = "vlan_write a (add_member ?i False v) br" and ?p = "init_port ?i dev (Some a) zero_port"
  have i: "?i < UBR_MAX_PORTS" using slot find_first_zero_bit_le [of "br_busy br"] by (simp add: free_slot_def)
  have w: "abs_switch K ?w = sw_exec (Sw_Attach 0 ?i False) (abs_switch K br)"
    by (rule abs_add_member [OF bridge_okD(1) [OF ok] a v i])
  have "enslaved K ?i dev br = take_slot ?i ?p a (add_member ?i False v) br"
    by (simp add: enslaved_def a v)
  moreover have "abs_switch K (take_slot ?i ?p a (add_member ?i False v) br) =
      (abs_switch K ?w)\<lparr>sw_port := (sw_port (abs_switch K br))(?i \<mapsto> (dev, 0))\<rparr>"
    using i own by (auto simp: abs_switch_def port_netdev_def take_slot_table vec_simps UBR_MAX_PORTS_256 fun_eq_iff)
  ultimately show ?thesis by (simp add: w)
qed

lemma abs_released:
  "abs_switch K (released i br) = sw_exec (Sw_Leave i) (abs_switch K br)"
proof -
  have "vlan_of K (released i br) = vlan_of K br" by (rule vlan_table_cong) (simp_all add: released_def)
  then show ?thesis by (auto simp: abs_switch_def port_netdev_def released_def vec_simps fun_eq_iff)
qed

lemma abs_cleanup:
  "\<not> ubr_vec_test (br_busy br) i \<Longrightarrow> abs_switch K (port_cleanup_rcu i (br\<lparr>br_rcu := cbs\<rparr>)) = abs_switch K br"
proof -
  assume i: "\<not> ubr_vec_test (br_busy br) i"
  have "vlan_of K (port_cleanup_rcu i (br\<lparr>br_rcu := cbs\<rparr>)) = vlan_of K br"
    by (rule vlan_table_cong) (simp_all add: port_cleanup_rcu_def port_write_def)
  with i show ?thesis
    by (auto simp: abs_switch_def port_netdev_def port_cleanup_rcu_def port_write_def fun_eq_iff)
qed

section \<open>Stations\<close>

lemma first_bit_single: "i < 256 \<Longrightarrow> find_first_bit (ubr_vec_set i ubr_vec_zero) = i"
proof -
  assume i: "i < 256"
  let ?v = "ubr_vec_set i ubr_vec_zero"
  have "find_first_bit ?v \<noteq> UBR_MAX_PORTS" using set_zero_test [OF i] by (auto simp: find_first_bit_none)
  then have "find_first_bit ?v < UBR_MAX_PORTS" using find_first_bit_le [of ?v] by simp
  from find_first_bit_found [OF this] set_zero_test [OF i] show ?thesis by simp
qed

lemma learned_node:
  assumes "learned fdb" "fdb_ok fdb" "f_nodes fdb k = Some n"
  shows "n_proto n = UBR_FDB_DYNAMIC" "n_vec n = ubr_vec_set (find_first_bit (n_vec n)) ubr_vec_zero"
    "find_first_bit (n_vec n) < 256"
proof -
  show dyn: "n_proto n = UBR_FDB_DYNAMIC" using assms(1,3) unfolding learned_def by blast
  then obtain i where "i < 256" "n_vec n = ubr_vec_set i ubr_vec_zero"
    using assms(2,3) unfolding fdb_ok_def by blast
  then show "n_vec n = ubr_vec_set (find_first_bit (n_vec n)) ubr_vec_zero"
    "find_first_bit (n_vec n) < 256" by (simp_all add: first_bit_single)
qed

definition mac_key :: "u16 \<Rightarrow> mac \<Rightarrow> ubr_fdb_addr" where
  "mac_key vid m = \<lparr>a_addr = UBR_ADDR_MAC m, a_vid = vid\<rparr>"

lemma mac_key_inj [simp]: "mac_key vid m = mac_key vid' m' \<longleftrightarrow> vid = vid' \<and> m = m'"
  by (auto simp: mac_key_def)

lemma abs_station_key:
  "abs_station fdb (vid, m) =
     map_option (\<lambda>n. (find_first_bit (n_vec n), n_tstamp n)) (f_nodes fdb (mac_key vid m))"
  by (simp add: abs_station_def mac_key_def)

lemma abs_learn_key:
  assumes "learned fdb" "fdb_ok fdb" "i < 256" "is_valid_ether_addr m"
  shows "abs_station (learn_key j (mac_key vid m) i fdb) = (abs_station fdb)((vid, m) \<mapsto> (i, j))"
    and "learned (learn_key j (mac_key vid m) i fdb)"
proof -
  have dyn: "n_proto n = UBR_FDB_DYNAMIC" if "f_nodes fdb k = Some n" for k n
    using assms(1) that unfolding learned_def by blast
  obtain n where n: "f_nodes (learn_key j (mac_key vid m) i fdb) (mac_key vid m) = Some n"
    "n_proto n = UBR_FDB_DYNAMIC" "n_tstamp n = j" "n_vec n = ubr_vec_set i ubr_vec_zero"
    by (rule learn_key_exact [OF assms(2,3) dyn])
  have "abs_station (learn_key j (mac_key vid m) i fdb) x = ((abs_station fdb)((vid, m) \<mapsto> (i, j))) x" for x
    by (cases x) (auto simp: abs_station_key n first_bit_single [OF assms(3)] learn_key_other)
  then show "abs_station (learn_key j (mac_key vid m) i fdb) = (abs_station fdb)((vid, m) \<mapsto> (i, j))" ..
  show "learned (learn_key j (mac_key vid m) i fdb)"
    unfolding learned_def
  proof (intro allI impI)
    fix k n' assume k: "f_nodes (learn_key j (mac_key vid m) i fdb) k = Some n'"
    show "n_proto n' = UBR_FDB_DYNAMIC \<and> (\<exists>m. a_addr k = UBR_ADDR_MAC m \<and> is_valid_ether_addr m)"
    proof (cases "k = mac_key vid m")
      case True
      with k n assms(4) show ?thesis by (simp add: mac_key_def)
    next
      case False
      with k assms(1) show ?thesis by (simp add: learn_key_other learned_def)
    qed
  qed
qed

lemma src_key_mac: "src_key vid s = mac_key vid (skb_h_source s)"
  by (simp add: src_key_def mac_key_def)

text \<open>Learning happens, or for want of memory it does not.\<close>

lemma abs_learn:
  assumes "learned fdb" "fdb_ok fdb"
  shows "learned (ubr_fdb_learn E v s fdb)"
    and "abs_station (ubr_fdb_learn E v s fdb) = abs_station fdb \<or>
      is_valid_ether_addr (skb_h_source s) \<and> abs_station (ubr_fdb_learn E v s fdb) =
        (abs_station fdb)((vl_vid v, skb_h_source s) \<mapsto> (unat (cb_pidx (skb_cb s)), fe_jiffies E))"
  using fdb_learn_cases [of E v s fdb] abs_learn_key [OF assms pidx_bound] assms(1)
  by (auto simp: src_key_mac)

lemma abs_learn_granted:
  assumes "learned fdb" "fdb_ok fdb" "fe_node_alloc E" "fe_insert_err E = 0"
  shows "abs_station (ubr_fdb_learn E v s fdb) =
    (if is_valid_ether_addr (skb_h_source s)
     then (abs_station fdb)((vl_vid v, skb_h_source s) \<mapsto> (unat (cb_pidx (skb_cb s)), fe_jiffies E))
     else abs_station fdb)"
proof (cases "is_valid_ether_addr (skb_h_source s)")
  case True
  with abs_learn_key [OF assms(1,2) pidx_bound True] show ?thesis
    by (simp add: fdb_learn_eq [OF assms(3,4) True] src_key_mac)
qed (simp add: ubr_fdb_learn_def)

text \<open>The ageing work forgets stations that are stale, whichever the walk comes by.\<close>

lemma abs_flush:
  assumes "learned fdb"
  shows "learned (snd (ubr_fdb_flush j opn walk fdb))"
    and "\<exists>ks. abs_station (snd (ubr_fdb_flush j opn walk fdb)) = abs_station fdb |` (- ks) \<and>
      (\<forall>(vid, m) \<in> ks. \<exists>n. f_nodes fdb (mac_key vid m) = Some n \<and> flush_match j fdb opn n)"
proof -
  let ?f = "snd (ubr_fdb_flush j opn walk fdb)"
  show "learned ?f"
    using assms unfolding learned_def by (metis flush_sound)
  let ?ks = "{(vid, m). f_nodes fdb (mac_key vid m) \<noteq> None \<and> f_nodes ?f (mac_key vid m) = None}"
  have same: "f_nodes ?f k = f_nodes fdb k" if "f_nodes fdb k = None \<or> f_nodes ?f k \<noteq> None" for k
    using flush_sound [of j opn walk fdb k] that by (cases "f_nodes ?f k") auto
  have "abs_station ?f x = (abs_station fdb |` (- ?ks)) x" for x
  proof (cases x)
    case (Pair vid m)
    then show ?thesis
      using same [of "mac_key vid m"]
      by (cases "f_nodes fdb (mac_key vid m) = None \<or> f_nodes ?f (mac_key vid m) \<noteq> None")
        (auto simp: abs_station_key restrict_map_def)
  qed
  then have "abs_station ?f = abs_station fdb |` (- ?ks)" ..
  moreover have "\<exists>n. f_nodes fdb k = Some n \<and> flush_match j fdb opn n"
    if "f_nodes fdb k \<noteq> None" "f_nodes ?f k = None" for k
    using flush_keeps [of fdb k _ j opn walk] that by force
  ultimately show "\<exists>ks. abs_station ?f = abs_station fdb |` (- ks) \<and>
      (\<forall>(vid, m) \<in> ks. \<exists>n. f_nodes fdb (mac_key vid m) = Some n \<and> flush_match j fdb opn n)"
    by (intro exI [of _ ?ks]) auto
qed

lemma abs_fdb:
  "abs_switch K (br\<lparr>br_fdb := f\<rparr>) =
     (abs_switch K br)\<lparr>sw_station := abs_station f, sw_timeout := f_ageing_timeout f\<rparr>"
proof -
  have "vlan_of K (br\<lparr>br_fdb := f\<rparr>) = vlan_of K br" by (rule vlan_table_cong) simp_all
  then show ?thesis by (simp add: abs_switch_def port_netdev_def cong: if_cong)
qed

lemma abs_age:
  assumes "learned (br_fdb br)"
  shows "learned (ubr_fdb_age j walk (br_fdb br))"
    and "\<exists>ks. abs_switch K (br\<lparr>br_fdb := ubr_fdb_age j walk (br_fdb br)\<rparr>) =
          sw_exec (Sw_Forget ks) (abs_switch K br) \<and> sw_enabled j (Sw_Forget ks) (abs_switch K br)"
proof -
  let ?f = "snd (ubr_fdb_flush j age_op walk (br_fdb br))" and ?a = "ubr_fdb_age j walk (br_fdb br)"
  have nodes: "f_nodes ?a = f_nodes ?f" "f_ageing_timeout ?a = f_ageing_timeout (br_fdb br)"
    by (simp_all add: ubr_fdb_age_def Let_def)
  show "learned ?a"
    using abs_flush(1) [OF assms, of j age_op walk] by (simp add: learned_def nodes)
  obtain ks where ks: "abs_station ?f = abs_station (br_fdb br) |` (- ks)"
    and old: "\<And>vid m. (vid, m) \<in> ks \<Longrightarrow>
      \<exists>n. f_nodes (br_fdb br) (mac_key vid m) = Some n \<and> ubr_fdb_node_is_old j (br_fdb br) n"
    using abs_flush(2) [OF assms, of j age_op walk] by (fastforce simp: flush_match_age)
  have "abs_station ?a = abs_station ?f" by (simp add: abs_station_def nodes)
  then have "abs_switch K (br\<lparr>br_fdb := ?a\<rparr>) = sw_exec (Sw_Forget ks) (abs_switch K br)"
    by (simp add: abs_fdb ks nodes)
  moreover have "sw_enabled j (Sw_Forget ks) (abs_switch K br)"
    using old by (fastforce simp: abs_station_key ubr_fdb_node_is_old_def sw_stale_def)
  ultimately show "\<exists>ks. abs_switch K (br\<lparr>br_fdb := ?a\<rparr>) = sw_exec (Sw_Forget ks) (abs_switch K br) \<and>
      sw_enabled j (Sw_Forget ks) (abs_switch K br)" by blast
qed

section \<open>A frame\<close>

text \<open>The VID a frame carries, as far as the port looks at it: 0 for none.\<close>

definition carried_vid :: "kernel \<Rightarrow> ubr \<Rightarrow> sk_buff \<Rightarrow> u16 option" where
  "carried_vid K br s =
     (if \<not> cb_vlan_filtering (skb_cb s) then Some 0
      else case ingress_untag K br s of
        Inr (Some s1) \<Rightarrow> map_option snd (ingress_classify K br s1)
      | _ \<Rightarrow> None)"

lemma ingress_vid:
  assumes K: "helpers_ok K" and ok: "bridge_ok K br" and i: "ubr_vec_test (br_busy br) i"
    and tag: "carried_vid K br (enter_port br i s) = Some tag"
  shows "ingress_vlan K br (enter_port br i s) = vlan_of K br (sw_vid (abs_switch K br) i tag)"
proof -
  let ?s = "enter_port br i s" and ?pvid = "p_pvid (br_ports br i)"
  have vid: "sw_vid (abs_switch K br) i tag = (if ?pvid = 0 then 0 else if tag \<noteq> 0 then tag else ?pvid)"
    using abs_port [OF ok i] by (auto simp: sw_vid_def)
  have cb: "cb_vlan (skb_cb ?s) = vlan_of K br ?pvid" "cb_vlan_filtering (skb_cb ?s) \<longleftrightarrow> ?pvid \<noteq> 0"
    using port_cb(6,7) [OF ok i] by simp_all
  show ?thesis
  proof (cases "?pvid = 0")
    case True
    then show ?thesis using cb vid by (simp add: ingress_vlan_def)
  next
    case False
    with tag cb obtain s1 s2 where 1: "ingress_untag K br ?s = Inr (Some s1)"
      and 2: "ingress_classify K br s1 = Some (s2, tag)"
      by (auto simp: carried_vid_def split: sum.splits option.splits)
    have "keeps_frame ?s s2"
      using untag_Some [OF K 1] classify_Some(1) [OF K 2] by (rule keeps_frame_trans)
    then have "cb_vlan (skb_cb s2) = vlan_of K br ?pvid" using cb by (simp add: keeps_frame_def)
    with False cb vid 1 2 show ?thesis by (simp add: ingress_vlan_def frame_vlan_def)
  qed
qed

lemma filter_known:
  assumes ok: "fdb_ok (br_fdb br)" and p: "learned (br_fdb br)" "open_vlan v"
  shows "vec_ports (fdb_filter K E v s (br_fdb br)) =
    {j. j < UBR_MAX_PORTS \<and>
      (case sw_known (abs_switch K' br) (fe_jiffies E) (vl_vid v) (skb_h_dest s) of
         None \<Rightarrow> True | Some p \<Rightarrow> j = p)}"
proof -
  have flood: "flood_filter v s = ubr_vec_fill" using p(2) by (simp add: open_vlan_def flood_filter_def)
  have none: "f_nodes (br_fdb br) k = None" if "\<And>m. is_valid_ether_addr m \<Longrightarrow> a_addr k \<noteq> UBR_ADDR_MAC m" for k
    using p(1) that unfolding learned_def by (cases "f_nodes (br_fdb br) k") auto
  have full: "vec_ports ubr_vec_fill = {j. j < UBR_MAX_PORTS}"
    by (auto simp: vec_ports_def vec_simps UBR_MAX_PORTS_256)
  show ?thesis
  proof (cases "is_valid_ether_addr (skb_h_dest s)")
    case True
    then have key: "dst_key K (vl_vid v) s = mac_key (vl_vid v) (skb_h_dest s)"
      by (simp add: dst_key_unicast mac_key_def)
    show ?thesis
    proof (cases "f_nodes (br_fdb br) (mac_key (vl_vid v) (skb_h_dest s))")
      case None
      then show ?thesis by (simp add: fdb_filter_def key flood full sw_known_def abs_station_key)
    next
      case (Some n)
      note n = learned_node [OF p(1) ok Some]
      have "vec_ports (n_vec n) = {find_first_bit (n_vec n)}"
        using n(2,3) set_zero_test [OF n(3)] by (auto simp: vec_ports_def)
      moreover have "ubr_fdb_node_is_old (fe_jiffies E) (br_fdb br) n \<longleftrightarrow>
          sw_stale (abs_switch K' br) (fe_jiffies E) (n_tstamp n)"
        by (simp add: ubr_fdb_node_is_old_def sw_stale_def n(1))
      ultimately show ?thesis
        using Some n(3)
        by (auto simp: fdb_filter_def key flood full sw_known_def abs_station_key UBR_MAX_PORTS_256)
    qed
  next
    case False
    have "f_nodes (br_fdb br) (dst_key K (vl_vid v) s) = None"
      using False by (intro none) (auto simp: dst_key_def split: if_splits)
    moreover have "f_nodes (br_fdb br) (mac_key (vl_vid v) (skb_h_dest s)) = None"
      using False by (intro none) (auto simp: mac_key_def)
    ultimately show ?thesis by (simp add: fdb_filter_def flood full sw_known_def abs_station_key)
  qed
qed

text \<open>What a frame does to the switch, and with the memory for its station granted.\<close>

lemma plain_fdb: "plain br \<Longrightarrow> learned f \<Longrightarrow> plain (br\<lparr>br_fdb := f\<rparr>)"
  by (simp add: plain_def)

lemma rx_abs:
  assumes K: "helpers_ok K" and ok: "bridge_ok K br" and i: "ubr_vec_test (br_busy br) i"
    and p: "plain br" and r: "ubr_port_rx_handler K E i br s = Inr (r, br', s', ts)"
  obtains a v where "ingress_vlan K br (enter_port br i s) = Some a" "br_heap br a = Some v"
    "vlan_of K br (vl_vid v) = Some a" "plain br'" "bridge_ok K br'"
    "abs_switch K br' = abs_switch K br \<or> is_valid_ether_addr (skb_h_source s) \<and>
       abs_switch K br' = sw_exec (Sw_Learn i (vl_vid v) (skb_h_source s) (fe_jiffies E)) (abs_switch K br)"
    "fe_node_alloc E \<Longrightarrow> fe_insert_err E = 0 \<Longrightarrow> abs_switch K br' =
       (if is_valid_ether_addr (skb_h_source s)
        then sw_exec (Sw_Learn i (vl_vid v) (skb_h_source s) (fe_jiffies E)) (abs_switch K br)
        else abs_switch K br)"
proof -
  obtain s0 a v where a: "ingress_vlan K br (enter_port br i s) = Some a" "br_heap br a = Some v"
    "vlan_of K br (vl_vid v) = Some a"
    and s0: "cb_sa_learning (skb_cb s0)" "unat (cb_pidx (skb_cb s0)) = i" "skb_h_source s0 = skb_h_source s"
    and br': "br' = br\<lparr>br_fdb := fdb_after E v s0 (br_fdb br)\<rparr>"
    by (rule rx_stages [OF K ok i r]) (rule that; assumption)
  have l: "learned (br_fdb br)" and open_v: "vl_sa_learning v"
    using plainD(1) [OF p] plainD(2) [OF p a(2)] by (simp_all add: open_vlan_def)
  have after: "fdb_after E v s0 (br_fdb br) = ubr_fdb_learn E v s0 (br_fdb br)"
    using s0(1) open_v by (simp add: fdb_after_def)
  note learn = abs_learn [OF l bridge_okD(6) [OF ok], of E v s0]
  show thesis
  proof (rule that [OF a])
    show "plain br'" unfolding br' after using p learn(1) by (rule plain_fdb)
    show "bridge_ok K br'"
      unfolding br' by (rule bridge_ok_fdb [OF ok fdb_after_ok [OF bridge_okD(6) [OF ok]]])
    have same: "(abs_switch K br)\<lparr>sw_station := abs_station (br_fdb br), sw_timeout := f_ageing_timeout (br_fdb br)\<rparr>
        = abs_switch K br" by simp
    show "abs_switch K br' = abs_switch K br \<or> is_valid_ether_addr (skb_h_source s) \<and>
       abs_switch K br' = sw_exec (Sw_Learn i (vl_vid v) (skb_h_source s) (fe_jiffies E)) (abs_switch K br)"
      using learn(2) s0 same by (auto simp: br' abs_fdb after)
    assume "fe_node_alloc E" "fe_insert_err E = 0"
    from abs_learn_granted [OF l bridge_okD(6) [OF ok] this, of v s0] s0 same
    show "abs_switch K br' = (if is_valid_ether_addr (skb_h_source s)
        then sw_exec (Sw_Learn i (vl_vid v) (skb_h_source s) (fe_jiffies E)) (abs_switch K br)
        else abs_switch K br)"
      by (simp add: br' abs_fdb after)
  qed
qed

text \<open>A frame of a VLAN the bridge does not have.\<close>

lemma rx_no_vlan:
  assumes K: "helpers_ok K" and ok: "bridge_ok K br" and i: "ubr_vec_test (br_busy br) i"
    and tag: "carried_vid K br (enter_port br i s) = Some tag"
    and none: "vlan_of K br (sw_vid (abs_switch K br) i tag) = None"
  shows "ubr_port_rx_handler K E i br s = Inl NullDeref"
proof -
  let ?s = "enter_port br i s"
  have lost: "ingress_vlan K br ?s = None" by (simp add: ingress_vid [OF K ok i tag] none)
  then have filt: "cb_vlan_filtering (skb_cb ?s)"
    using port_cb(6,7) [OF ok i] bridge_okD(2) [OF ok] by (auto simp: ingress_vlan_def split: if_splits)
  with tag obtain s1 s2 where 1: "ingress_untag K br ?s = Inr (Some s1)"
    and 2: "ingress_classify K br s1 = Some (s2, tag)"
    by (auto simp: carried_vid_def split: sum.splits option.splits)
  then have "frame_vlan K br s2 tag = None" using lost filt by (simp add: ingress_vlan_def)
  then have ing: "ubr_vlan_ingress K br ?s = Inr (False, Some (set_frame_vlan None s2))"
    using filt 1 2 by (simp add: ubr_vlan_ingress_def resolve_none [OF bridge_okD(1) [OF ok]])
  have "keeps_frame ?s s2"
    using untag_Some [OF K 1] classify_Some(1) [OF K 2] by (rule keeps_frame_trans)
  then have "\<not> cb_ctrl (skb_cb s2)" using port_cb(3) [OF ok i] by (simp add: keeps_frame_def)
  then show ?thesis
    by (simp add: rx_handler_eq [OF ok i] forward_eq [OF ing] fdb_forward_null)
qed

section \<open>Preservation\<close>

lemma plain_write:
  "plain br \<Longrightarrow> open_vlan v \<Longrightarrow> plain (vlan_write a v br)"
  by (simp add: plain_def)

lemma open_vlan_members [simp]:
  "open_vlan (add_member i t v) = open_vlan v" "open_vlan (del_member i v) = open_vlan v"
  by (simp_all add: open_vlan_def add_member_def del_member_def)

lemma open_vlan_new [simp]: "open_vlan (new_vlan d vid)"
  by (simp add: open_vlan_def)

lemma plain_add: "plain br \<Longrightarrow> plain (update_port_vlan a vid True (vlan_add K a vid br))"
  by (simp add: plain_def update_port_vlan_ports)

lemma plain_pvid: "plain br \<Longrightarrow> plain (port_write i (set_port_pvid pvid vl (br_ports br i)) br)"
  by (simp add: plain_def set_port_pvid_def)

lemma plain_released: "plain br \<Longrightarrow> plain (released i br)"
  by (simp add: plain_def released_def)

lemma plain_cleanup: "plain br \<Longrightarrow> i \<noteq> 0 \<Longrightarrow> plain (port_cleanup_rcu i (br\<lparr>br_rcu := cbs\<rparr>))"
  by (simp add: plain_def port_cleanup_rcu_def port_write_def)

lemma plain_enslaved: "plain br \<Longrightarrow> i \<noteq> 0 \<Longrightarrow> plain (enslaved K i dev br)"
  using plainD(2) [of br] by (auto simp: enslaved_def plain_def split: option.split)

end
