(* ===== verification/Ubr_Network.thy ===== *)
theory Ubr_Network
  imports Ubr_Abstract
begin

text \<open>
  The whole module against its abstraction: a network of the switches of Ubr_Abstract, in which
  every event of the machine does one of their operations, or nothing. The abstraction of an
  orderly run is a run of the network.
\<close>

section \<open>The network\<close>

record network =
  nt_clock :: u64
  nt_switch :: "netdev \<rightharpoonup> switch"

definition sw_new :: "kernel \<Rightarrow> netdev \<Rightarrow> switch" where
  "sw_new K b =
     \<lparr>sw_port = [0 \<mapsto> (b, 0)], sw_vlan = [0 \<mapsto> ({0}, {})], sw_station = Map.empty,
      sw_timeout = k_msecs_to_jiffies K (300 * 1000)\<rparr>"

definition on_port :: "switch \<Rightarrow> nat \<Rightarrow> netdev \<Rightarrow> bool" where
  "on_port sw i dev \<longleftrightarrow> map_option fst (sw_port sw i) = Some dev"

text \<open>The operation an event stands for, and the switch it is done on.\<close>

inductive stands_for :: "netlink_lib \<Rightarrow> event \<Rightarrow> netdev \<Rightarrow> switch \<Rightarrow> sw_op \<Rightarrow> bool" for N where
  means_add: "named_bridge info = Some b \<Longrightarrow> get_vid N info = Inr (attrs, vid) \<Longrightarrow>
    stands_for N (Netlink UBR_NL_VLAN_ADD info mem) b sw (Sw_Add vid)"
| means_attach: "named_bridge info = Some b \<Longrightarrow> get_vid N info = Inr (attrs, vid) \<Longrightarrow>
    get_port attrs = Inr (dev, tagged) \<Longrightarrow> on_port sw i dev \<Longrightarrow>
    stands_for N (Netlink UBR_NL_VLAN_ATTACH info mem) b sw (Sw_Attach vid i (tagged \<noteq> 0))"
| means_detach: "named_bridge info = Some b \<Longrightarrow> get_vid N info = Inr (attrs, vid) \<Longrightarrow>
    get_port attrs = Inr (dev, tagged) \<Longrightarrow> on_port sw i dev \<Longrightarrow>
    stands_for N (Netlink UBR_NL_VLAN_DETACH info mem) b sw (Sw_Detach vid i)"
| means_pvid: "named_bridge info = Some b \<Longrightarrow> get_port_attrs N info = Inr (pattrs, dev) \<Longrightarrow>
    on_port sw i dev \<Longrightarrow> pvid = (case pa_pvid pattrs of None \<Rightarrow> 0 | Some v \<Rightarrow> v) \<Longrightarrow>
    stands_for N (Netlink UBR_NL_PORT_SET info mem) b sw (Sw_Pvid i pvid)"
| means_heard: "on_port sw i d \<Longrightarrow>
    stands_for N (Receive E d s) b sw (Sw_Learn i (sw_vid sw i tag) (skb_h_source s) (fe_jiffies E))"
| means_sent:
    "stands_for N (Transmit E b s) b sw (Sw_Learn 0 (sw_vid sw 0 tag) (skb_h_source s) (fe_jiffies E))"
| means_age: "stands_for N (Age b walk) b sw (Sw_Forget ks)"
| means_join: "stands_for N (Add_Slave P b dev) b sw (Sw_Join i dev)"
| means_leave: "on_port sw i dev \<Longrightarrow> stands_for N (Del_Slave m dev) b sw (Sw_Leave i)"
| means_gone: "on_port sw i dev \<Longrightarrow>
    stands_for N (Device_Event NETDEV_UNREGISTER dev) b sw (Sw_Leave i)"

inductive net_step :: "kernel \<Rightarrow> netlink_lib \<Rightarrow> network \<Rightarrow> event \<Rightarrow> network \<Rightarrow> bool" for K N where
  net_idle: "(\<And>j. e \<noteq> Clock j) \<Longrightarrow> net_step K N n e n"
| net_operate: "nt_switch n b = Some sw \<Longrightarrow> stands_for N e b sw op \<Longrightarrow>
    sw_enabled (nt_clock n) op sw \<Longrightarrow>
    net_step K N n e (n\<lparr>nt_switch := (nt_switch n)(b \<mapsto> sw_exec op sw)\<rparr>)"
| net_create: "nt_switch n b = None \<Longrightarrow>
    net_step K N n (New_Bridge L b nd) (n\<lparr>nt_switch := (nt_switch n)(b \<mapsto> sw_new K b)\<rparr>)"
| net_tick: "net_step K N n (Clock j) (n\<lparr>nt_clock := j\<rparr>)"

definition abs_world :: "kernel \<Rightarrow> world \<Rightarrow> network" where
  "abs_world K w = \<lparr>nt_clock = w_jiffies w, nt_switch = (\<lambda>b. map_option (abs_switch K) (w_bridges w b))\<rparr>"

section \<open>Steps\<close>

definition all_plain :: "world \<Rightarrow> bool" where
  "all_plain w \<longleftrightarrow> (\<forall>b br. w_bridges w b = Some br \<longrightarrow> plain br)"

lemma all_plainD: "all_plain w \<Longrightarrow> w_bridges w b = Some br \<Longrightarrow> plain br"
  by (simp add: all_plain_def)

definition moved :: "kernel \<Rightarrow> netlink_lib \<Rightarrow> world \<Rightarrow> event \<Rightarrow> world \<Rightarrow> bool" where
  "moved K N w e w' \<longleftrightarrow> all_plain w' \<and> net_step K N (abs_world K w) e (abs_world K w')"

lemma moved_idle:
  assumes "all_plain w" "w_bridges w' = w_bridges w" "w_jiffies w' = w_jiffies w" "\<And>j. e \<noteq> Clock j"
  shows "moved K N w e w'"
proof -
  have "abs_world K w' = abs_world K w" using assms(2,3) by (simp add: abs_world_def)
  with net_idle [of e K N "abs_world K w", OF assms(4)] assms(1,2) show ?thesis
    by (simp add: moved_def all_plain_def)
qed

lemma all_plain_put:
  "all_plain w \<Longrightarrow> plain br' \<Longrightarrow> w_bridges w' = (w_bridges w)(b \<mapsto> br') \<Longrightarrow> all_plain w'"
  by (simp add: all_plain_def)

lemma abs_world_operate:
  assumes "w_bridges w b = Some br" "w_bridges w' = (w_bridges w)(b \<mapsto> br')" "w_jiffies w' = w_jiffies w"
    and "abs_switch K br' = sw_exec op (abs_switch K br)"
  shows "abs_world K w' = (abs_world K w)
    \<lparr>nt_switch := (nt_switch (abs_world K w))(b \<mapsto> sw_exec op (abs_switch K br))\<rparr>"
  using assms(2-4) by (simp add: abs_world_def fun_eq_iff)

lemma moved_operate:
  assumes "all_plain w" "w_bridges w b = Some br" "plain br'"
    and "w_bridges w' = (w_bridges w)(b \<mapsto> br')" "w_jiffies w' = w_jiffies w"
    and "abs_switch K br' = sw_exec op (abs_switch K br)"
    and "stands_for N e b (abs_switch K br) op" "sw_enabled (w_jiffies w) op (abs_switch K br)"
  shows "moved K N w e w'"
proof -
  note abs_world_operate [OF assms(2,4-6)]
  moreover have "nt_switch (abs_world K w) b = Some (abs_switch K br)"
    "nt_clock (abs_world K w) = w_jiffies w"
    using assms(2) by (simp_all add: abs_world_def)
  ultimately show ?thesis
    using net_operate [of "abs_world K w" b "abs_switch K br" N e op K] assms(7,8)
      all_plain_put [OF assms(1,3,4)] by (simp add: moved_def)
qed

lemma moved_same:
  assumes "all_plain w" "w_bridges w b = Some br" "plain br'"
    and "w_bridges w' = (w_bridges w)(b \<mapsto> br')" "w_jiffies w' = w_jiffies w"
    and "abs_switch K br' = abs_switch K br" "\<And>j. e \<noteq> Clock j"
  shows "moved K N w e w'"
proof -
  have "abs_world K w' = abs_world K w"
    using assms(2,4-6) by (simp add: abs_world_def fun_eq_iff)
  with net_idle [of e K N "abs_world K w", OF assms(7)] all_plain_put [OF assms(1,3,4)] show ?thesis
    by (simp add: moved_def)
qed

text \<open>A port in use is on the switch, with its device.\<close>

lemma port_on:
  assumes "bridge_ok K br" "plain br" "ubr_vec_test (br_busy br) i" "p_dev (br_ports br i) = Some dev"
  shows "on_port (abs_switch K br) i dev" "sw_port (abs_switch K br) i \<noteq> None"
  using abs_port [OF assms(1,3)] plainD(3) [OF assms(2), of i] assms(4)
  by (auto simp: on_port_def)

lemma vlan_on:
  assumes "bridge_ok K br" "ubr_vlan_find K br vid = Inr (Some a)"
  shows "vlan_of K br vid = Some a" "sw_vlan (abs_switch K br) vid \<noteq> None"
  using assms(2) abs_vlan_known [OF bridge_okD(1) [OF assms(1)], of vid] by (simp_all add: vlan_of_def)

section \<open>Requests\<close>

lemma moved_add:
  assumes w: "world_ok K w" "all_plain w" and mem: "\<And>a. mem = Some a \<Longrightarrow> fresh_addr w a"
    and r: "ubr_vlan_nl_add_cmd K N mem info w = Inr (ret, w')"
  shows "moved K N w (Netlink UBR_NL_VLAN_ADD info mem) w'"
  using nl_add_result [OF r]
proof (elim disjE exE conjE)
  fix b br vid r br1 attrs
  assume br: "w_bridges w b = Some br" and new: "ubr_vlan_new K mem vid 0 0 br = Inr (r, br1)"
    and named: "named_bridge info = Some b" "get_vid N info = Inr (attrs, vid)"
    and rest: "case r of Inl err \<Rightarrow> ret = err \<and> w' = br_put b br1 w
     | Inr a \<Rightarrow> ret = 0 \<and> (\<exists>v. br_heap br1 a = Some v \<and>
         w' = br_put b (update_port_vlan a (vl_vid v) True br1) w)"
  note p = all_plainD [OF w(2) br]
  note table = bridge_okD(1) [OF bridge_liveD(1) [OF world_okD(1) [OF w(1) br]]]
  from table new show ?thesis
  proof (cases rule: vlan_new_cases)
    case (3 a)
    let ?b = "update_port_vlan a vid True (vlan_add K a vid br)"
    have "br_heap br a = None" using mem [OF 3(2)] br by (simp add: fresh_addr_def)
    note abs = abs_add [OF table 3(4) this]
    have "sw_enabled (w_jiffies w) (Sw_Add vid) (abs_switch K br)"
      using abs_vlan_None [OF 3(4)] by simp
    from moved_operate [OF w(2) br plain_add [OF p] _ _ abs means_add [OF named] this, of w'] rest 3
    show ?thesis by (simp add: fun_upd_same)
  qed (use rest moved_same [OF w(2) br p, of w'] in simp_all)
qed (use moved_idle [OF w(2)] in simp)

lemma moved_attach:
  assumes w: "world_ok K w" "all_plain w" and r: "ubr_vlan_nl_attach_cmd K N info w = Inr (ret, w')"
  shows "moved K N w (Netlink UBR_NL_VLAN_ATTACH info mem) w'"
  using nl_attach_result [OF r]
proof (elim disjE exE conjE)
  fix b br vl vid port br' attrs tagged
  assume br: "w_bridges w b = Some br" and f: "ubr_vlan_find K br vid = Inr vl"
    and named: "named_bridge info = Some b" "get_vid N info = Inr (attrs, vid)"
      "get_port attrs = Inr (port, tagged)"
    and p: "0 \<le> ubr_port_find br (Some port)"
    and add: "ubr_vlan_port_add vl (nat (ubr_port_find br (Some port))) (tagged \<noteq> 0) br = Inr (ret, br')"
    and w': "w' = br_put b br' w"
  note ok = bridge_liveD(1) [OF world_okD(1) [OF w(1) br]] and pl = all_plainD [OF w(2) br]
  from p obtain i where i: "ubr_vec_test (br_busy br) i" "nat (ubr_port_find br (Some port)) = i"
    "p_dev (br_ports br i) = Some port" "i < UBR_MAX_PORTS"
    by (rule port_find_nonneg) simp
  with add obtain a v where v: "vl = Some a" "br_heap br a = Some v"
    "br' = vlan_write a (add_member i (tagged \<noteq> 0) v) br"
    by (auto dest!: vlan_port_add_InrD)
  note a = vlan_on [OF ok f [unfolded v(1)]] and on = port_on [OF ok pl i(1,3)]
  have new: "plain br'" unfolding v(3) by (rule plain_write [OF pl]) (simp add: plainD(2) [OF pl v(2)])
  have abs: "abs_switch K br' = sw_exec (Sw_Attach vid i (tagged \<noteq> 0)) (abs_switch K br)"
    unfolding v(3) by (rule abs_add_member [OF bridge_okD(1) [OF ok] a(1) v(2) i(4)])
  show ?thesis
    by (rule moved_operate [OF w(2) br new _ _ abs means_attach [OF named on(1)]])
      (use a(2) on(2) in \<open>simp_all add: w'\<close>)
qed (use moved_idle [OF w(2)] in simp)

lemma moved_detach:
  assumes w: "world_ok K w" "all_plain w" and r: "ubr_vlan_nl_detach_cmd K N info w = Inr (ret, w')"
  shows "moved K N w (Netlink UBR_NL_VLAN_DETACH info mem) w'"
  using nl_detach_result [OF r]
proof (elim disjE exE conjE)
  fix b br vl vid port br' attrs tagged
  assume br: "w_bridges w b = Some br" and f: "ubr_vlan_find K br vid = Inr vl"
    and named: "named_bridge info = Some b" "get_vid N info = Inr (attrs, vid)"
      "get_port attrs = Inr (port, tagged)"
    and p: "0 \<le> ubr_port_find br (Some port)"
    and del: "ubr_vlan_port_del vl (nat (ubr_port_find br (Some port))) br = Inr (ret, br')"
    and w': "w' = br_put b br' w"
  note ok = bridge_liveD(1) [OF world_okD(1) [OF w(1) br]] and pl = all_plainD [OF w(2) br]
  from p obtain i where i: "ubr_vec_test (br_busy br) i" "nat (ubr_port_find br (Some port)) = i"
    "p_dev (br_ports br i) = Some port"
    by (rule port_find_nonneg) simp
  with del obtain a v where v: "vl = Some a" "br_heap br a = Some v"
    "br' = vlan_write a (del_member i v) br"
    by (auto dest!: vlan_port_del_InrD)
  note a = vlan_on [OF ok f [unfolded v(1)]] and on = port_on [OF ok pl i(1,3)]
  have new: "plain br'" unfolding v(3) by (rule plain_write [OF pl]) (simp add: plainD(2) [OF pl v(2)])
  have abs: "abs_switch K br' = sw_exec (Sw_Detach vid i) (abs_switch K br)"
    unfolding v(3) by (rule abs_del_member [OF bridge_okD(1) [OF ok] a(1) v(2)])
  show ?thesis
    by (rule moved_operate [OF w(2) br new _ _ abs means_detach [OF named on(1)]])
      (use a(2) on(2) in \<open>simp_all add: w'\<close>)
qed (use moved_idle [OF w(2)] in simp_all)

lemma moved_pvid:
  assumes w: "world_ok K w" "all_plain w" and r: "ubr_port_nl_set_cmd K N info w = Inr (ret, w')"
  shows "moved K N w (Netlink UBR_NL_PORT_SET info mem) w'"
  using nl_port_set_result [OF r]
proof (elim disjE exE conjE)
  fix attrs ifindex b br i pvid vl
  assume br: "w_bridges w b = Some br" and i: "ubr_vec_test (br_busy br) i" "p_dev (br_ports br i) = Some ifindex"
    and named: "named_bridge info = Some b" "get_port_attrs N info = Inr (attrs, ifindex)"
    and pvid: "pvid = (case pa_pvid attrs of None \<Rightarrow> 0 | Some v \<Rightarrow> v)"
    and w': "w' = br_put b (port_write i (set_port_pvid pvid vl (br_ports br i)) br) (hold_port ifindex w)"
  note ok = bridge_liveD(1) [OF world_okD(1) [OF w(1) br]] and pl = all_plainD [OF w(2) br]
  note on = port_on [OF ok pl i]
  show ?thesis
    by (rule moved_operate [OF w(2) br plain_pvid [OF pl] _ _ abs_set_pvid [OF i(1)] means_pvid [OF named on(1) pvid]])
      (use on(2) in \<open>simp_all add: w'\<close>)
qed (use moved_idle [OF w(2)] in simp_all)

lemma moved_netlink:
  assumes w: "world_ok K w" "all_plain w" and adm: "orderly K w (Netlink cmd info mem)"
    and r: "ubr_genl_doit K N mem cmd info w = Inr (ret, w')"
  shows "moved K N w (Netlink cmd info mem) w'"
proof (cases cmd)
  case UBR_NL_VLAN_ADD
  with adm r moved_add [OF w] show ?thesis by (simp add: orderly_def)
next
  case UBR_NL_VLAN_DEL
  with adm show ?thesis by (simp add: orderly_def)
next
  case UBR_NL_VLAN_SET
  with r have "w' = w" using nl_set_result [of N info w ret w'] by simp
  with moved_idle [OF w(2)] show ?thesis by simp
next
  case UBR_NL_FDB_FLUSH
  with r have "w' = w" using nl_flush_result [of info w ret w'] by simp
  with moved_idle [OF w(2)] show ?thesis by simp
qed (use r moved_attach [OF w] moved_detach [OF w] moved_pvid [OF w] in simp_all)

section \<open>Frames\<close>

lemma carried_known:
  "ingress_vlan K br s = Some a \<Longrightarrow> \<exists>tag. carried_vid K br s = Some tag"
  by (auto simp: ingress_vlan_def carried_vid_def split: sum.splits option.splits if_splits)

lemma moved_frame:
  assumes K: "helpers_ok K" and w: "world_ok K w" "all_plain w" "w_bridges w b = Some br"
    and i: "ubr_vec_test (br_busy br) i"
    and r: "ubr_port_rx_handler K E i br s = Inr (r, br', s', ts)"
    and e: "\<And>tag. stands_for N e b (abs_switch K br)
      (Sw_Learn i (sw_vid (abs_switch K br) i tag) (skb_h_source s) (fe_jiffies E))" "\<And>j. e \<noteq> Clock j"
  shows "moved K N w e (br_put b br' w)"
proof -
  let ?sw = "abs_switch K br"
  note ok = bridge_liveD(1) [OF world_okD(1) [OF w(1,3)]] and pl = all_plainD [OF w(2,3)]
  obtain a v where a: "ingress_vlan K br (enter_port br i s) = Some a" "vlan_of K br (vl_vid v) = Some a"
    and "br_heap br a = Some v" and new: "plain br'"
    and abs: "abs_switch K br' = ?sw \<or> is_valid_ether_addr (skb_h_source s) \<and>
       abs_switch K br' = sw_exec (Sw_Learn i (vl_vid v) (skb_h_source s) (fe_jiffies E)) ?sw"
    by (rule rx_abs [OF K ok i pl r]) (rule that; assumption)
  obtain tag where tag: "carried_vid K br (enter_port br i s) = Some tag"
    using carried_known [OF a(1)] by blast
  have "vlan_of K br (sw_vid ?sw i tag) = Some a" using ingress_vid [OF K ok i tag] a(1) by simp
  then have vid: "vl_vid v = sw_vid ?sw i tag" using vt.find_inj [OF bridge_okD(1) [OF ok]] a(2) by blast
  from abs show ?thesis
  proof (elim disjE conjE)
    assume "abs_switch K br' = ?sw"
    from moved_same [OF w(2,3) new _ _ this e(2)] show ?thesis by simp
  next
    assume valid: "is_valid_ether_addr (skb_h_source s)"
      and abs: "abs_switch K br' = sw_exec (Sw_Learn i (vl_vid v) (skb_h_source s) (fe_jiffies E)) ?sw"
    have "sw_vlan ?sw (vl_vid v) \<noteq> None"
      using abs_vlan_known [OF bridge_okD(1) [OF ok], of "vl_vid v"] a(2) by simp
    with moved_operate [OF w(2,3) new _ _ abs, of "br_put b br' w" N e] e(1) [of tag] valid abs_port [OF ok i]
    show ?thesis by (auto simp: vid)
  qed
qed

lemma moved_receive:
  assumes K: "helpers_ok K" and w: "world_ok K w" "all_plain w" "w_bridges w b = Some br"
    and d: "w_devs w d = Some nd" "nd_rx_handler_data nd = Some (b, i)"
    and r: "ubr_port_rx_handler K E i br s = Inr (r, br', s', ts)"
  shows "moved K N w (Receive E d s) (br_put b br' w)"
proof -
  have i: "ubr_vec_test (br_busy br) i" "p_dev (br_ports br i) = Some d"
    using world_okD(2) [OF w(1) d(1)] d(2) w(3) by (auto simp: handler_ok_def)
  note on = port_on(1) [OF bridge_liveD(1) [OF world_okD(1) [OF w(1,3)]] all_plainD [OF w(2,3)] i]
  show ?thesis by (rule moved_frame [OF K w i(1) r means_heard [OF on]]) simp
qed

lemma moved_transmit:
  assumes K: "helpers_ok K" and w: "world_ok K w" "all_plain w" "w_bridges w b = Some br"
    and x: "ubr_ndo_start_xmit K E br s = Inr (br', ts)"
  shows "moved K N w (Transmit E b s) (br_put b br' w)"
proof -
  note live = world_okD(1) [OF w(1,3)]
  note i = bridge_liveD(4) [OF live]
  from x obtain r s' ts' where
    "ubr_forward K E br (enter_port br 0 (skb_pull s ETH_HLEN)) = Inr (r, br', s', ts')"
    by (auto simp: ubr_ndo_start_xmit_def enter_port_def res_simps)
  then have "\<exists>r'. ubr_port_rx_handler K E 0 br (skb_pull s ETH_HLEN) = Inr (r', br', s', ts')"
    by (simp add: rx_handler_eq [OF bridge_liveD(1) [OF live] i])
  then obtain r' where "ubr_port_rx_handler K E 0 br (skb_pull s ETH_HLEN) = Inr (r', br', s', ts')" ..
  from moved_frame [OF K w i this, of N "Transmit E b s"] means_sent show ?thesis
    by (simp add: skb_pull_def)
qed

section \<open>Ports, bridges and time\<close>

lemma moved_add_slave:
  assumes w: "world_ok K w" "all_plain w" and adm: "orderly K w (Add_Slave P b dev)"
    and r: "ubr_ndo_add_slave K P b dev w = Inr (ret, w')"
  shows "moved K N w (Add_Slave P b dev) w'"
proof -
  from r obtain br d where br: "w_bridges w b = Some br" and d: "w_devs w dev = Some d"
    by (auto simp: ubr_ndo_add_slave_def ubr_port_add_def dev_at_def res_simps)
  note live = world_okD(1) [OF w(1) br] and pl = all_plainD [OF w(2) br]
  note ok = bridge_liveD(1) [OF live]
  show ?thesis
  proof (cases "port_add_allowed d \<noteq> 0 \<or> free_slot br = UBR_MAX_PORTS")
    case True
    with r port_add_refused [OF br d, of K P] have "w' = w"
      by (cases "port_add_allowed d = 0") (auto simp: ubr_ndo_add_slave_def)
    with moved_idle [OF w(2)] show ?thesis by simp
  next
    case False
    let ?i = "free_slot br" and ?e = "enslaved K (free_slot br) dev br"
    have slot: "?i \<noteq> UBR_MAX_PORTS" "Port_Cleanup_Rcu ?i \<notin> set (br_rcu br)"
      using False adm br by (auto simp: orderly_def)
    have idle: "\<not> ubr_vec_test (br_busy br) ?i" using free_slot_idle [OF slot(1)] by simp
    then have i: "?i \<noteq> 0" using bridge_liveD(4) [OF live] by metis
    obtain bd where bd: "w_devs w b = Some bd" using world_okD(3) [OF w(1) br] by auto
    have "port_add_allowed d = 0" using False by simp
    from port_add_done [OF br d bd bridge_liveD(1,2) [OF live] this slot, of P] r adm
    have w': "w_bridges w' = (w_bridges w)(b \<mapsto> ?e)" "w_jiffies w' = w_jiffies w"
      by (simp_all add: ubr_ndo_add_slave_def same_devs_def orderly_def)
    have abs: "abs_switch K ?e = sw_exec (Sw_Join ?i dev) (abs_switch K br)"
      by (rule abs_enslaved [OF ok slot(1)]) (use i in simp)
    have "sw_vlan (abs_switch K br) 0 \<noteq> None"
      using abs_vlan_known [OF bridge_okD(1) [OF ok], of 0] bridge_okD(2) [OF ok] by simp
    with abs_port_None [OF idle] show ?thesis
      by (intro moved_operate [OF w(2) br plain_enslaved [OF pl i] w' abs means_join]) simp
  qed
qed

lemma free_not_member: "no_member K br i \<Longrightarrow> i \<notin> sw_members vid (abs_switch K br)"
  by (auto simp: no_member_def sw_members_def abs_switch_def abs_vlan_def vec_ports_def
      split: option.splits bind_splits)

lemma moved_port_del:
  assumes w: "world_ok K w" "all_plain w" and free: "free_to_go K w dev"
    and r: "ubr_port_del m dev w = Inr (ret, w')"
    and e: "\<And>b sw i. on_port sw i dev \<Longrightarrow> stands_for N e b sw (Sw_Leave i)"
  shows "moved K N w e w'"
proof -
  from r obtain d b i where d: "w_devs w dev = Some d" "nd_rx_handler_data d = Some (b, i)"
    and m: "w_bridges w m \<noteq> None"
    by (auto simp: ubr_port_del_def netdev_priv_Inr_iff dev_at_def Let_def res_simps split: option.splits)
  from world_okD(2) [OF w(1) d(1)] d(2) obtain br where br: "w_bridges w b = Some br"
    and i: "ubr_vec_test (br_busy br) i" "p_dev (br_ports br i) = Some dev"
    by (auto simp: handler_ok_def)
  note ok = bridge_liveD(1) [OF world_okD(1) [OF w(1) br]] and pl = all_plainD [OF w(2) br]
  have w': "w' = br_put b (released i br) (dev_upd dev (unlinked m) w)"
    using r port_del_eq [OF d br slots_okD [OF bridge_okD(3) [OF ok] i(1)] m] by simp
  note on = port_on [OF ok pl i]
  have "no_member K br i" using free d br by (simp add: free_to_go_def)
  from free_not_member [OF this] show ?thesis using on
    by (intro moved_operate [OF w(2) br plain_released [OF pl] _ _ abs_released e]) (auto simp: w')
qed

lemma moved_event:
  assumes w: "world_ok K w" "all_plain w" and free: "ev = NETDEV_UNREGISTER \<Longrightarrow> free_to_go K w dev"
    and r: "ubr_device_event ev dev w = Inr (ret, w')"
  shows "moved K N w (Device_Event ev dev) w'"
proof (cases "ev = NETDEV_UNREGISTER \<and> (\<exists>d. w_devs w dev = Some d \<and> netif_is_ubr_port d)")
  case True
  with r obtain b ret' where "ubr_port_del b dev w = Inr (ret', w')"
    by (auto simp: ubr_device_event_def dev_at_def res_simps split: option.splits)
  with True free show ?thesis by (auto intro: moved_port_del [OF w] means_gone)
next
  case False
  with r have "w' = w"
    by (auto simp: ubr_device_event_def dev_at_def res_simps split: option.splits if_splits netdev_event.splits)
  with moved_idle [OF w(2)] show ?thesis by simp
qed

text \<open>A new bridge is the switch that has its own device in port 0.\<close>

lemma base_plain: "open_vlan (new_vlan b 0)" "learned (snd (ubr_fdb_newlink K j 0 zero_fdb))"
  by (simp_all add: learned_def ubr_fdb_newlink_def Let_def)

lemma new_bridge_abs:
  assumes "nl_rht_err L = 0"
  shows "plain (new_bridge K L j b a)" "abs_switch K (new_bridge K L j b a) = sw_new K b"
proof -
  let ?z = "vlan_add K a 0 (zero_ubr b)" and ?b = "base_bridge K L j b a"
  have fresh: "br_heap (zero_ubr b) a = None" by simp
  note find = vt.find_add [OF zero_table fresh]
  have b: "?b = ?z\<lparr>br_fdb := snd (ubr_fdb_newlink K j 0 zero_fdb)\<rparr>" by (simp add: base_bridge_def assms)
  have of: "vlan_of K ?b = vlan_of K ?z" unfolding b by (rule vlan_table_cong) simp_all
  have "abs_switch K ?b = \<lparr>sw_port = Map.empty, sw_vlan = [0 \<mapsto> ({}, {})], sw_station = Map.empty,
      sw_timeout = k_msecs_to_jiffies K (300 * 1000)\<rparr>"
    unfolding abs_switch_def of
    by (auto simp: b find zero_table abs_vlan_def vec_ports_def abs_station_def ubr_fdb_newlink_def Let_def
        fun_eq_iff split: bind_split)
  moreover have "abs_switch K (enslaved K (free_slot ?b) b ?b) = sw_exec (Sw_Join (free_slot ?b) b) (abs_switch K ?b)"
    by (rule abs_enslaved [OF base_bridge_ok base_slot]) simp
  ultimately show "abs_switch K (new_bridge K L j b a) = sw_new K b"
    by (simp add: base_free_slot new_bridge_def sw_new_def sw_members_def sw_tagged_def)
  have "vlan_of K ?b 0 = Some a" "br_heap ?b a = Some (new_vlan b 0)" by (simp_all add: of find) (simp add: b)
  then show "plain (new_bridge K L j b a)"
    using base_plain by (auto simp: plain_def new_bridge_def enslaved_def b)
qed

lemma moved_newlink:
  assumes w: "all_plain w" and new: "w_bridges w b = None"
    and r: "ubr_dev_newlink K L b nd w = Inr (ret, w'')"
    and w': "w' = (if ret = 0 then w'' else w''\<lparr>w_bridges := (w_bridges w'')(b := None)\<rparr>)"
  shows "moved K N w (New_Bridge L b nd) w'"
proof (cases "ret = 0")
  case True
  with r obtain a where L: "nl_rht_err L = 0"
    and b: "w_bridges w'' = (w_bridges w)(b \<mapsto> new_bridge K L (w_jiffies w) b a)" "w_jiffies w'' = w_jiffies w"
    unfolding newlink_result by (auto split: option.splits if_splits)
  note abs = new_bridge_abs [OF L]
  have "abs_world K w'' = (abs_world K w)\<lparr>nt_switch := (nt_switch (abs_world K w))(b \<mapsto> sw_new K b)\<rparr>"
    by (simp add: abs_world_def b abs fun_eq_iff)
  moreover have "nt_switch (abs_world K w) b = None" by (simp add: abs_world_def new)
  moreover have "all_plain w''" using all_plain_put [OF w abs(1) b(1)] .
  ultimately show ?thesis using True net_create [of "abs_world K w" b K N L nd] by (simp add: moved_def w')
next
  case False
  with r obtain br where "w'' = br_put b br w"
    unfolding newlink_result by (auto split: option.splits if_splits)
  with False new show ?thesis by (intro moved_idle [OF w]) (auto simp: w' fun_eq_iff)
qed

lemma moved_age:
  assumes w: "all_plain w" "w_bridges w b = Some br"
  shows "moved K N w (Age b walk) (br_put b (br\<lparr>br_fdb := ubr_fdb_age (w_jiffies w) walk (br_fdb br)\<rparr>) w)"
proof -
  note pl = all_plainD [OF w]
  note age = abs_age [OF plainD(1) [OF pl], where j = "w_jiffies w" and walk = walk]
  from age(2) [where K = K] obtain ks where ks:
    "abs_switch K (br\<lparr>br_fdb := ubr_fdb_age (w_jiffies w) walk (br_fdb br)\<rparr>) = sw_exec (Sw_Forget ks) (abs_switch K br)"
    "sw_enabled (w_jiffies w) (Sw_Forget ks) (abs_switch K br)" by blast
  from moved_operate [OF w plain_fdb [OF pl age(1)] _ _ ks(1) means_age ks(2)] show ?thesis by simp
qed

lemma moved_grace:
  assumes w: "world_ok K w" "all_plain w" and br: "w_bridges w b = Some br" and cb: "br_rcu br = cb # cbs"
    and r: "rcu_run cb (br\<lparr>br_rcu := cbs\<rparr>) = Inr br'"
  shows "moved K N w (Grace_Period b) (br_put b br' w)"
proof -
  note live = world_okD(1) [OF w(1) br]
  from bridge_liveD(3) [OF live] cb obtain i where i: "cb = Port_Cleanup_Rcu i" "\<not> ubr_vec_test (br_busy br) i"
    by (auto simp: rcu_ok_def)
  with r have br': "br' = port_cleanup_rcu i (br\<lparr>br_rcu := cbs\<rparr>)" by (simp add: rcu_run_def)
  have "i \<noteq> 0" using i(2) bridge_liveD(4) [OF live] by metis
  from plain_cleanup [OF all_plainD [OF w(2) br] this] have "plain br'" by (simp add: br')
  from moved_same [OF w(2) br this _ _ abs_cleanup [OF i(2), of K cbs, folded br']] show ?thesis by simp
qed

section \<open>Runs\<close>

lemma moved_step:
  assumes K: "helpers_ok K" and w: "world_ok K w" "all_plain w" and adm: "orderly K w e"
    and s: "wstep K N w e w'"
  shows "moved K N w e w'"
  using s
proof (cases rule: wstep.cases)
  case (step_netlink mem cmd info ret)
  with adm moved_netlink [OF w] show ?thesis by simp
next
  case (step_newlink L b nd ret w'')
  with adm moved_newlink [OF w(2) _ step_newlink(3)] show ?thesis by (simp add: orderly_def)
next
  case (step_dellink walk b)
  with adm show ?thesis by (simp add: orderly_def)
next
  case (step_event ev dev r)
  with adm moved_event [OF w] show ?thesis by (simp add: orderly_def)
next
  case (step_add_slave P b dev ret)
  with adm moved_add_slave [OF w] show ?thesis by simp
next
  case (step_del_slave b dev ret)
  with adm moved_port_del [OF w] means_leave show ?thesis
    by (auto simp: orderly_def ubr_ndo_del_slave_def)
next
  case (step_receive d nd b i br E s r br' s' ts)
  with moved_receive [OF K w] show ?thesis by (simp add: netdev_priv_Inr_iff)
next
  case (step_transmit b br E s br' ts)
  with moved_transmit [OF K w] show ?thesis by (simp add: netdev_priv_Inr_iff)
next
  case (step_age b br walk)
  with moved_age [OF w(2)] show ?thesis by (simp add: netdev_priv_Inr_iff)
next
  case (step_grace b br cb cbs br')
  with moved_grace [OF w] show ?thesis by (simp add: netdev_priv_Inr_iff)
next
  case (step_clock j)
  have "abs_world K w' = (abs_world K w)\<lparr>nt_clock := j\<rparr>" by (simp add: step_clock abs_world_def)
  with net_tick [of K N "abs_world K w"] w(2) show ?thesis
    by (simp add: moved_def step_clock all_plain_def)
qed

section \<open>Requests that can be done\<close>

lemma on_portD:
  assumes "plain br" "on_port (abs_switch K br) i dev"
  shows "ubr_vec_test (br_busy br) i" "p_dev (br_ports br i) = Some dev"
  using assms plainD(3) [OF assms(1), of i] by (auto simp: on_port_def abs_switch_def split: if_splits)

text \<open>A device is in one slot, unless a bridge is a port of itself.\<close>

lemma slot_found:
  assumes w: "world_ok K w" "w_bridges w b = Some br" "plain br"
    and bd: "w_devs w b = Some bd" "nd_rx_handler_data bd = None"
    and i: "ubr_vec_test (br_busy br) i" "p_dev (br_ports br i) = Some dev"
  shows "w_devs w dev \<noteq> None" "ubr_port_find br (Some dev) = int i"
proof -
  note live = world_okD(1) [OF w(1,2)]
  have own: "p_dev (br_ports br 0) = Some b" using w(3) bridge_liveD(2) [OF live] by (simp add: plain_def)
  have linked: "\<exists>nd. w_devs w d = Some nd \<and> nd_rx_handler_data nd = Some (b, j)"
    if "ubr_vec_test (br_busy br) j" "p_dev (br_ports br j) = Some d" "j \<noteq> 0" for j d
    using world_okD(4) [OF w(1,2)] that by (fastforce simp: slots_linked_def)
  show "w_devs w dev \<noteq> None"
    using linked [OF i] own i(2) bd(1) by (cases "i = 0") auto
  have unique: "j = i" if j: "ubr_vec_test (br_busy br) j" "p_dev (br_ports br j) = Some dev" for j
    using linked [OF i] linked [OF j] own i(2) j(2) bd by (cases "i = 0"; cases "j = 0") auto
  show "ubr_port_find br (Some dev) = int i"
    by (rule port_find_result [of br dev]) (use unique i in auto)
qed

lemma netlink_dev_found:
  "named_bridge info = Some b \<Longrightarrow> w_devs w b = Some bd \<Longrightarrow> nd_is_ubr bd \<Longrightarrow>
     ubr_netlink_dev info w = Inr (Some b, hold b w)"
  by (auto simp: named_bridge_def ubr_netlink_dev_def get_by_index_eq dev_at_def hold_def bind_eq_Some_conv)

text \<open>A reference on the port does not hide the bridge.\<close>

lemma netlink_dev_held:
  assumes "named_bridge info = Some b" "w_devs w b = Some bd" "nd_is_ubr bd"
  shows "ubr_netlink_dev info (hold dev w) = Inr (Some b, hold b (hold dev w))"
proof -
  obtain d where "w_devs (hold dev w) b = Some d" "nd_is_ubr d" using assms(2,3)
    by (intro that [of "the (w_devs (hold dev w) b)"]) (auto simp: hold_def)
  with assms(1) show ?thesis by (rule netlink_dev_found)
qed

end
