(* ===== verification/Ubr_Refine.thy ===== *)
theory Ubr_Refine
  imports Ubr_Network Ubr_Sample
begin

text \<open>
  The module implements the switches of Ubr_Abstract: what a received frame does, and every step
  of an orderly run; with what follows for the tables, and for the stations of a port that has
  gone.
\<close>

section \<open>Reception\<close>







section \<open>Runs\<close>

interpretation rf: refinement_map "wstep K N" "orderly K" "\<lambda>w. helpers_ok K \<and> world_ok K w \<and> all_plain w"
    "net_step K N" "abs_world K"
  for K N
  by unfold_locales (auto intro: world_ok_step moved_step [unfolded moved_def, THEN conjunct1]
      moved_step [unfolded moved_def, THEN conjunct2])

lemma boot_in_order:
  assumes "helpers_ok K" "\<forall>d nd. devs d = Some nd \<longrightarrow> nd_rx_handler_data nd = None"
  shows "helpers_ok K \<and> world_ok K (boot devs j) \<and> all_plain (boot devs j)"
  using assms world_ok_boot [of devs K j] by (simp add: all_plain_def boot_def)

lemma abs_boot: "abs_world K (boot devs j) = \<lparr>nt_clock = j, nt_switch = Map.empty\<rparr>"
  by (simp add: abs_world_def boot_def fun_eq_iff)

text \<open>
  C4. The module implements a network of learning switches with VLANs: seen through the
  abstraction, every orderly run from boot, of any length and interleaving, is a run of the
  network, event by event. A request, a device that comes or goes, a frame, the ageing work and
  a new bridge each do the one operation they stand for, on the one switch they are about and
  when that operation is enabled there, or nothing; a grace period and a refused request are not
  seen at all. That what may be done is done is the next theorem for requests, and the one
  above for frames.
\<close>

theorem module_refines_the_network:
  assumes "helpers_ok K" "\<forall>d nd. devs d = Some nd \<longrightarrow> nd_rx_handler_data nd = None"
    and "runs (wstep K N) (orderly K) (boot devs j) es w"
  shows "runs (net_step K N) (\<lambda>_ _. True) \<lparr>nt_clock = j, nt_switch = Map.empty\<rparr> es (abs_world K w)"
  using rf.run_simulates [OF assms(3) boot_in_order [OF assms(1,2)]] by (simp add: abs_boot)

theorem module_refines_the_network_witness:
  "\<exists>w sw. runs (net_step plain_kernel plain_netlink) (\<lambda>_ _. True) \<lparr>nt_clock = 0, nt_switch = Map.empty\<rparr>
       [New_Bridge plain_new 1 bridge_dev, Add_Slave all_ok 1 2] (abs_world plain_kernel w) \<and>
     nt_switch (abs_world plain_kernel w) 1 = Some sw \<and> on_port sw 1 2"
proof -
  let ?devs = "[2 \<mapsto> plain_dev 0x020000000002] :: netdev \<Rightarrow> net_device option" and ?sw = "abs_switch plain_kernel joined_bridge"
  obtain w where run: "runs (wstep plain_kernel plain_netlink) (orderly plain_kernel) (boot ?devs 0)
       [New_Bridge plain_new 1 bridge_dev, Add_Slave all_ok 1 2] w"
    and w: "w_bridges w 1 = Some joined_bridge"
    by (rule sample_joined) (rule that; assumption)
  have none: "\<forall>d nd. ?devs d = Some nd \<longrightarrow> nd_rx_handler_data nd = None"
    by (auto simp: plain_dev_def split: if_splits)
  have busy: "ubr_vec_test (br_busy joined_bridge) 1" by (simp add: joined_bridge_busy(1))
  have "all_plain w" using rf.run_inv [OF run boot_in_order [OF plain_kernel_ok(1) none]] by simp
  from port_on(1) [OF joined_bridge_facts(1) all_plainD [OF this w] busy] joined_bridge_dev [OF busy]
  have "on_port ?sw 1 2" by simp
  moreover have "nt_switch (abs_world plain_kernel w) 1 = Some ?sw" by (simp add: abs_world_def w)
  ultimately show ?thesis
    using module_refines_the_network [OF plain_kernel_ok(1) none run] by blast
qed

text \<open>
  C6. A request that can be done is done: when its operation is enabled on the switch it
  names, and there is memory, the handler returns 0 and the operation is what happens.
\<close>

theorem enabled_requests_are_done:
  assumes "world_ok K w" "w_bridges w b = Some br" "plain br"
    and "w_devs w b = Some bd" "nd_is_ubr bd" "nd_rx_handler_data bd = None"
    and "mem = Some a" "fresh_addr w a"
    and "stands_for N (Netlink cmd info mem) b (abs_switch K br) op"
    and "sw_enabled (w_jiffies w) op (abs_switch K br)"
  shows "\<exists>w'. ubr_genl_doit K N mem cmd info w = Inr (0, w') \<and>
    abs_world K w' = (abs_world K w)
      \<lparr>nt_switch := (nt_switch (abs_world K w))(b \<mapsto> sw_exec op (abs_switch K br))\<rparr>"
proof -
  note ok = bridge_liveD(1) [OF world_okD(1) [OF assms(1,2)]]
  note table = bridge_okD(1) [OF ok]
  note dev = netlink_dev_found [OF _ assms(4,5)]
  note upd = abs_world_operate [OF assms(2)]
  have vlan: "\<exists>x v. vlan_of K br vid = Some x \<and> br_heap br x = Some v"
    if "sw_vlan (abs_switch K br) vid \<noteq> None" for vid
    using that abs_vlan_known [OF table, of vid] vlan_of_SomeD(1) [OF table] by (cases "vlan_of K br vid") auto
  have port: "ubr_vec_test (br_busy br) i" "w_devs w d \<noteq> None" "ubr_port_find br (Some d) = int i" "i < UBR_MAX_PORTS"
    if "on_port (abs_switch K br) i d" for i d
    using slot_found [OF assms(1-4,6)] on_portD [OF assms(3) that] test_bound UBR_MAX_PORTS_256 by auto
  from assms(9) show ?thesis
  proof (cases rule: stands_for.cases)
    case (means_add attrs vid)
    have none: "vlan_of K br vid = None" using assms(10) means_add abs_vlan_known [OF table] by simp
    have fresh: "br_heap br a = None" using assms(2,8) by (simp add: fresh_addr_def)
    from nl_add_eq [OF means_add(4) dev [OF means_add(3)] assms(2) table] none assms(7)
      upd [OF _ _ abs_add [OF table none fresh]]
    show ?thesis by (simp add: means_add)
  next
    case (means_attach attrs vid d tagged i)
    have "sw_vlan (abs_switch K br) vid \<noteq> None" using assms(10) means_attach by simp
    then obtain x v where x: "vlan_of K br vid = Some x" "br_heap br x = Some v" using vlan by blast
    note p = port [OF means_attach(6)]
    from nl_attach_eq [OF means_attach(4,5) dev [OF means_attach(3)] p(2) assms(2) table] x p(3)
      upd [OF _ _ abs_add_member [OF table x p(4), of "tagged \<noteq> 0"]]
    show ?thesis by (simp add: means_attach)
  next
    case (means_detach attrs vid d tagged i)
    have "sw_vlan (abs_switch K br) vid \<noteq> None" using assms(10) means_detach by simp
    then obtain x v where x: "vlan_of K br vid = Some x" "br_heap br x = Some v" using vlan by blast
    note p = port [OF means_detach(6)]
    from nl_detach_eq [OF means_detach(4,5) dev [OF means_detach(3)] p(2) assms(2) table] x p(3)
      upd [OF _ _ abs_del_member [OF table x, of i]]
    show ?thesis by (simp add: means_detach)
  next
    case (means_pvid pattrs d i pvid)
    note p = port [OF means_pvid(5)]
    from nl_port_set_eq [OF means_pvid(4) p(2) netlink_dev_held [OF means_pvid(3) assms(4,5)] assms(2) table
        p(3,4) means_pvid(6)]
      upd [OF _ _ abs_set_pvid [OF p(1), where pvid = pvid and vl = "vlan_of K br pvid"]]
    show ?thesis by (simp add: means_pvid)
  qed
qed

theorem enabled_requests_are_done_witness:
  "\<exists>w'. ubr_genl_doit plain_kernel plain_netlink (Some 102) UBR_NL_VLAN_ADD (vlan_request 20) sample_world = Inr (0, w') \<and>
     abs_world plain_kernel w' = (abs_world plain_kernel sample_world)
       \<lparr>nt_switch := (nt_switch (abs_world plain_kernel sample_world))
          (1 \<mapsto> sw_exec (Sw_Add 20) (abs_switch plain_kernel sample_bridge))\<rparr>"
proof -
  let ?K = plain_kernel and ?boot = "boot [2 \<mapsto> plain_dev 0x020000000002] 0"
  obtain attrs where at: "get_vid plain_netlink (vlan_request 20) = Inr (attrs, 20)"
    using request_vid [of 20] by blast
  have new: "plain sample_bridge" "abs_switch ?K sample_bridge = sw_new ?K 1"
    using new_bridge_abs [of plain_new ?K 0 1 100] by (simp_all add: sample_bridge_def plain_new_def)
  have step: "wstep ?K plain_netlink ?boot (New_Bridge plain_new 1 bridge_dev) sample_world"
    using step_newlink [OF sample_newlink, of plain_netlink] by simp
  have "orderly ?K ?boot (New_Bridge plain_new 1 bridge_dev)"
    by (simp add: orderly_def boot_def bridge_dev_def ubr_dev_setup_def plain_dev_def)
  from world_ok_step [OF plain_kernel_ok(1) sample_boot_ok this step] have w: "world_ok ?K sample_world" .
  have "br_heap sample_bridge 102 = None"
    by (simp add: sample_bridge_def new_bridge_def enslaved_def sample_base) (simp add: base_bridge_def)
  then have fresh: "fresh_addr sample_world 102" by (simp add: fresh_addr_def sample_world_def)
  have means: "stands_for plain_netlink (Netlink UBR_NL_VLAN_ADD (vlan_request 20) (Some 102)) 1
      (abs_switch ?K sample_bridge) (Sw_Add 20)"
    by (rule means_add [OF _ at]) (simp add: named_bridge_def vlan_request_def request_def)
  have "sw_enabled (w_jiffies sample_world) (Sw_Add 20) (abs_switch ?K sample_bridge)"
    by (simp add: new sw_new_def)
  from enabled_requests_are_done [OF w sample_world_simps(3) new(1) sample_world_simps(1) _ _ refl fresh means this]
  show ?thesis by (simp add: bridge_dev_def ubr_dev_setup_def plain_dev_def)
qed

section \<open>What the network keeps\<close>

text \<open>Proved on the network, where each operation is a line, and true of the module.\<close>

definition sw_sound :: "switch \<Rightarrow> bool" where
  "sw_sound sw \<longleftrightarrow>
     (\<forall>vid. sw_tagged vid sw \<subseteq> sw_members vid sw) \<and>
     (\<forall>vid m. sw_station sw (vid, m) \<noteq> None \<longrightarrow> sw_vlan sw vid \<noteq> None)"

lemma sw_sets_upd:
  "sw_members vid (sw\<lparr>sw_vlan := (sw_vlan sw)(x \<mapsto> (ms, ts))\<rparr>) = (if vid = x then ms else sw_members vid sw)"
  "sw_tagged vid (sw\<lparr>sw_vlan := (sw_vlan sw)(x \<mapsto> (ms, ts))\<rparr>) = (if vid = x then ts else sw_tagged vid sw)"
  "sw_members vid (sw\<lparr>sw_port := p\<rparr>) = sw_members vid sw" "sw_tagged vid (sw\<lparr>sw_port := p\<rparr>) = sw_tagged vid sw"
  "sw_members vid (sw\<lparr>sw_station := f\<rparr>) = sw_members vid sw" "sw_tagged vid (sw\<lparr>sw_station := f\<rparr>) = sw_tagged vid sw"
  by (simp_all add: sw_members_def sw_tagged_def)

lemma sw_exec_sound:
  assumes "sw_sound sw" "sw_enabled now op sw" shows "sw_sound (sw_exec op sw)"
proof (cases op)
  case (Sw_Learn i vid m t)
  then show ?thesis using assms by (fastforce simp: sw_sound_def sw_sets_upd)
next
  case (Sw_Forget ks)
  then show ?thesis using assms(1) by (auto simp: sw_sound_def sw_sets_upd restrict_map_def) blast
next
  case (Sw_Join i dev)
  have "sw_members vid (sw_exec (Sw_Join i dev) sw) = (if vid = 0 then insert i (sw_members 0 sw) else sw_members vid sw)"
    "sw_tagged vid (sw_exec (Sw_Join i dev) sw) = (if vid = 0 then sw_tagged 0 sw else sw_tagged vid sw)" for vid
    by (simp_all add: sw_members_def sw_tagged_def)
  then show ?thesis using assms(1) Sw_Join unfolding sw_sound_def by fastforce
qed (use assms in \<open>auto simp: sw_sound_def sw_sets_upd\<close>)

definition net_sound :: "network \<Rightarrow> bool" where
  "net_sound n \<longleftrightarrow> (\<forall>b sw. nt_switch n b = Some sw \<longrightarrow> sw_sound sw)"

lemma net_step_sound: "net_step K N n e n' \<Longrightarrow> net_sound n \<Longrightarrow> net_sound n'"
  by (induction rule: net_step.induct)
    (auto simp: net_sound_def sw_exec_sound, auto simp: sw_sound_def sw_new_def sw_members_def sw_tagged_def)

text \<open>
  In every world reached by orderly use, a tagged port of a VLAN is a member of
  it, and every entry of the forwarding database is of a VLAN the bridge has. Both are
  invariants of the network, and hold of the module because it implements it.
\<close>

theorem tables_agree:
  assumes "helpers_ok K" "\<forall>d nd. devs d = Some nd \<longrightarrow> nd_rx_handler_data nd = None"
    and "runs (wstep K N) (orderly K) (boot devs j) es w" "w_bridges w b = Some br"
  shows "(\<forall>vid a v i. vlan_of K br vid = Some a \<and> br_heap br a = Some v \<and>
      ubr_vec_test (vl_tagged v) i \<longrightarrow> ubr_vec_test (vl_members v) i) \<and>
    (\<forall>k n. f_nodes (br_fdb br) k = Some n \<longrightarrow> vlan_of K br (a_vid k) \<noteq> None)"
proof -
  note boot = boot_in_order [OF assms(1,2), of j]
  have "net_sound (abs_world K (boot devs j))" by (simp add: abs_boot net_sound_def)
  then have "net_sound (abs_world K w)"
    by (rule rf.run_spec_inv [where P = net_sound, OF assms(3) boot]) (rule net_step_sound)
  then have sound: "sw_sound (abs_switch K br)" using assms(4) by (auto simp: net_sound_def abs_world_def)
  have w: "world_ok K w" "plain br"
    using rf.run_inv [OF assms(3) boot] assms(4) all_plainD by blast+
  have "ubr_vec_test (vl_members v) i"
    if "vlan_of K br vid = Some a" "br_heap br a = Some v" "ubr_vec_test (vl_tagged v) i" for vid a v i
    using sound abs_members [OF that(1,2)] that(3) by (auto simp: sw_sound_def vec_ports_def)
  moreover have "vlan_of K br (a_vid k) \<noteq> None" if n: "f_nodes (br_fdb br) k = Some n" for k n
  proof -
    from plainD(1) [OF w(2)] n obtain m where "a_addr k = UBR_ADDR_MAC m" by (auto simp: learned_def)
    then have "k = mac_key (a_vid k) m" by (cases k) (simp add: mac_key_def)
    with n have "sw_station (abs_switch K br) (a_vid k, m) \<noteq> None" by (simp add: abs_station_key)
    with sound have "sw_vlan (abs_switch K br) (a_vid k) \<noteq> None" unfolding sw_sound_def by blast
    with abs_vlan_known [OF bridge_okD(1) [OF bridge_liveD(1) [OF world_okD(1) [OF w(1) assms(4)]]], of "a_vid k"]
    show ?thesis by blast
  qed
  ultimately show ?thesis by blast
qed

section \<open>A port that has gone\<close>






theorem tables_agree_witness:
  "\<exists>w br. runs (wstep plain_kernel plain_netlink) (orderly plain_kernel) (boot [2 \<mapsto> plain_dev 0x020000000002] 0)
       [New_Bridge plain_new 1 bridge_dev, Add_Slave all_ok 1 2] w \<and> w_bridges w 1 = Some br \<and>
     (\<forall>vid a v i. vlan_of plain_kernel br vid = Some a \<and> br_heap br a = Some v \<and>
        ubr_vec_test (vl_tagged v) i \<longrightarrow> ubr_vec_test (vl_members v) i)"
proof -
  obtain w where run: "runs (wstep plain_kernel plain_netlink) (orderly plain_kernel)
       (boot [2 \<mapsto> plain_dev 0x020000000002] 0) [New_Bridge plain_new 1 bridge_dev, Add_Slave all_ok 1 2] w"
    and w: "w_bridges w 1 = Some joined_bridge"
    by (rule sample_joined) (rule that; assumption)
  have none: "\<forall>d nd. ([2 \<mapsto> plain_dev 0x020000000002] :: netdev \<Rightarrow> net_device option) d = Some nd \<longrightarrow>
      nd_rx_handler_data nd = None"
    by (auto simp: plain_dev_def split: if_splits)
  from tables_agree [OF plain_kernel_ok(1) none run w] run w show ?thesis by blast
qed

end
