(* ===== verification/Spec2Isabelle.thy ===== *)
theory Spec2Isabelle
  imports Ubr_Usage Ubr_V1 Ubr_Race Ubr_Stp Ubr_Loops Ubr_Refine
begin

text \<open>
  The unassuming bridge (ubr): a Linux kernel module that bridges Ethernet devices, and the
  command line tool that configures it over generic netlink.

  \<^bold>\<open>The program and its theories.\<close> A bridge is a network device whose private data is a
  \<^verbatim>\<open>struct ubr\<close>: 256 port slots, a hash table of VLANs, a forwarding database. A frame
  enters at a port's receive handler or at the bridge's own transmit function, with the port's
  template copied to its control buffer; it passes VLAN ingress, the database (learn, then
  look up), and is cloned to the ports left in its vector. Devices are enslaved and released
  under the RTNL lock, VLANs and PVIDs are set by netlink requests, and deletions are finished
  by callbacks after an RCU grace period.

  \<^item> Ubr_Prelude: words, faults, the result type \<open>'a res\<close> (a fault or a value), bounded
    search, and runs of a guarded step relation with their invariant rule (locale
    \<open>guarded_system\<close>) and their simulation by a specification (locale \<open>refinement_map\<close>).
  \<^item> Ubr_Vec (kernel/ubr-private.h): the port vector as a 256-bit word; the locale
    \<open>port_set\<close> says that it is a set of slots.
  \<^item> Ubr_Types (kernel/ubr-private.h): the structures as records. VLAN objects live in a heap
    of the bridge (\<open>br_heap\<close>), so that a freed one is a distinct state; \<open>br_rcu\<close> is the
    queue of callbacks that wait for a grace period. The record \<open>kernel\<close> holds the kernel's
    helpers the code calls; \<open>helpers_ok\<close> and \<open>protocol_ok\<close> state what is documented of them.
  \<^item> Ubr_Vlan (kernel/ubr-vlan.c): table, membership, ingress. The locale \<open>vlan_table\<close> is the
    contract of the table, interpreted on the hash table of the code.
  \<^item> Ubr_Fdb (kernel/ubr-fdb.c): ageing, flush, learning, forwarding; the locale
    \<open>station_table\<close> is the contract of learning.
  \<^item> Ubr_Forward (kernel/ubr-forward.c): the pipeline and delivery. \<open>deliver_to\<close> and \<open>tag_for\<close>
    say which ports a frame is sent to and with which tag.
  \<^item> Ubr_Port, Ubr_Bridge, Ubr_Enslave (kernel/ubr-port.c): slots, enslaving and releasing, the
    receive handler; the invariant \<open>bridge_ok\<close> of a bridge and its preservation; what an
    enslaving that succeeds or fails leaves (\<open>enslaved\<close>, \<open>leftover\<close>).
  \<^item> Ubr_Dev (kernel/ubr-dev.c): transmission from the host, creation, removal, notifier,
    module initialisation.
  \<^item> Ubr_Netlink (kernel/ubr-netlink.c, ubr-netlink.h and the handlers of the other files):
    requests, handlers with their device references, dispatch.
  \<^item> Ubr_Switch: what one received frame does from end to end.
  \<^item> Ubr_System: the whole module as a step relation \<open>wstep\<close> on worlds (devices, bridges, the
    clock); its invariant \<open>world_ok\<close>, kept by every step that is \<open>orderly\<close>.
  \<^item> Ubr_Decay: what deletions leave behind, and what the removal of a bridge does.
  \<^item> Ubr_Abstract: what a bridge promises, as a learning switch with VLANs whose state is three maps
    and a timeout (record \<open>switch\<close>), its operations a line each (\<open>sw_exec\<close>) with what they need
    (\<open>sw_enabled\<close>), and where a frame goes \<open>sw_receive\<close>; the abstraction \<open>abs_switch\<close> of a bridge, and
    that each operation of the code is, through it, one of the switch.
  \<^item> Ubr_Network: a network of such switches as a step relation \<open>net_step\<close> on the events of
    \<open>wstep\<close>, and that every orderly step is one of the network.
  \<^item> Ubr_Refine: the refinement theorems, for one frame, for whole runs and for requests that can
    be done; what the tables keep; the stations of a port that has gone.
  \<^item> Ubr_Flight: the pipeline cut where other CPUs can run: \<open>flight_stage\<close> does one stage (VLAN
    ingress, the database, the choice of ports, one port's clone), and \<open>fly\<close> runs them with any
    change of the bridge before each. Undisturbed, they are \<^verbatim>\<open>ubr_forward\<close>.
  \<^item> Ubr_Readers: the machine, a world with frames in flight on other CPUs. \<open>rcu_contract\<close> is what
    RCU promises: a callback runs when every frame that was in flight when it was queued has
    landed. Its invariant \<open>machine_ok\<close>, kept by orderly use, is about the ports and VLANs a
    frame in flight still refers to.
  \<^item> Ubr_Race: what holds, and what fails, when frames and configuration run side by side.
  \<^item> Ubr_Loops: the walk of \<^verbatim>\<open>ubr_fdb_flush\<close> and the reading of answers in \<^verbatim>\<open>msg_recv\<close> as loops
    that may not return (\<open>partial_function\<close>), with the locale \<open>asked_loop\<close>, interpreted on both.
  \<^item> Ubr_Stp (kernel/ubr-stp.c): spanning tree instances. The file is not built and does not
    compile; it is read the way it is written, with the types the header has commented out.
  \<^item> Ubr_Sample: a concrete kernel, bridge and requests, for the witnesses.
  \<^item> Ubr_Cmdl (src/cmdl.c, cmdl.h, \<^verbatim>\<open>atob\<close> of src/ubr.c): the functions of the C library the
    tool uses, commands and options by abbreviation (locale \<open>abbreviations\<close>, interpreted on the
    lookups of commands and of options), the argument cursor with the NULL that ends the
    vector, the option parser and its specification \<open>opts_spec\<close>.
  \<^item> Ubr_Msg (src/msg.c): messages as a header and attributes, the sockets, and the record
    \<open>cli\<close>, the global variables of the process with what it has printed and sent.
  \<^item> Ubr_Tool (src/ubr.c, vlan.c, port.c, fdb.c): every command, the tables of commands, the
    main program.
  \<^item> Ubr_Requests: what the tool may send (\<open>request_ok\<close>, \<open>io_ok\<close>), with the locale
    \<open>command_table\<close>, interpreted on the four tables of the program.
  \<^item> Ubr_Usage: the usage texts, and that they agree with the tables of commands.
  \<^item> Ubr_Console: command lines from the shell to the kernel's handler and back, and the
    properties of the tool.
  \<^item> Ubr_Strlcat (src/strlcat.c, v1/strlcat.c): bounded concatenation on a buffer of bytes.
  \<^item> Ubr_V1 (src/v1): the first version of the tool, its recursive parser and usage texts.

  \<^bold>\<open>What is shown.\<close> Isolation of VLANs, exact flooding and unicast, tagging, the life of
  database entries, the invariant of every world reached by orderly use and that its runs are runs
  of a network of abstract switches, what each
  request does and which references it keeps, enslaving, creation and removal on every path,
  which frames in flight are safe from it, the requests the tool can send and what its command
  lines do to the kernel, and the
  ways in which the code does not do what it means to: each is a theorem about the same
  definitions.

  \<^bold>\<open>Conventions.\<close> A dereference of NULL, of freed memory or of a wild pointer is a value
  \<open>Inl f\<close>; no definition is partial. Loops over the port vector are over the list of its
  slots; walks of the resizable hash table are a list of what the iterator returns, a
  parameter, and the claims about them say which walks they are for (Ubr_Loops has the walk that
  may not end). No fuel is used; the bound \<open>flight_stages\<close> on the stages of a frame is one for each
  port and three more, and is shown to be enough. In \<open>wstep\<close> operations run one at a time, as they
  do under RTNL or in one soft interrupt, and what RCU leaves open is the order of its steps; in
  \<open>mstep\<close> frames are in flight between the stages of which everything else runs.

  \<^bold>\<open>Not modelled.\<close> Races inside one stage of a frame, and the memory barriers that order its
  loads and stores; log lines; the tables of function pointers and the feature flags of the
  device. Of the tool: warnings on standard error, \<^verbatim>\<open>getopt_long\<close>, and the building of messages by
  libmnl, whose attributes arrive as put (\<open>transport_ok\<close>).
\<close>

section \<open>Forwarding\<close>

text \<open>
  C1. VLAN isolation and split horizon. Whatever a port's receive handler lets out of the
  bridge goes to the device of another port in use, which is a member of the frame's VLAN;
  that VLAN is one of the bridge's table, and on a filtering port the receiving port is a
  member of it too.
\<close>

theorem vlan_isolation:
  assumes "helpers_ok K" "bridge_ok K br" "ubr_vec_test (br_busy br) i"
    and "ubr_port_rx_handler K E i br s = Inr (r, br', s', ts)"
    and "t \<in> set ts" "tx_dev t = Some d"
  shows "\<exists>j a v. ingress_vlan K br (enter_port br i s) = Some a \<and> br_heap br a = Some v \<and>
    vlan_of K br (vl_vid v) = Some a \<and>
    (p_pvid (br_ports br i) = 0 \<or> ubr_vec_test (vl_members v) i) \<and>
    j \<noteq> i \<and> ubr_vec_test (vl_members v) j \<and> ubr_vec_test (br_busy br) j \<and>
    port_netdev br j = Some d"
proof -
  have "tx_dev t \<noteq> None" using assms(6) by simp
  show ?thesis
    by (rule rx_delivered [OF assms(1-5) \<open>tx_dev t \<noteq> None\<close>])
      (use assms(6) in \<open>intro exI conjI; simp\<close>)
qed

theorem vlan_isolation_witness:
  "\<exists>r br' s' t. ubr_port_rx_handler plain_kernel (plain_env 5) 1 sample
       (sample_frame 0xFFFFFFFFFFFF 0x020000000007) = Inr (r, br', s', [t]) \<and>
     (\<exists>j v. br_heap sample 101 = Some v \<and> j \<noteq> 1 \<and> ubr_vec_test (vl_members v) j \<and>
        port_netdev sample j = Some 3)"
proof -
  obtain r br' s' t where rx: "ubr_port_rx_handler plain_kernel (plain_env 5) 1 sample
       (sample_frame 0xFFFFFFFFFFFF 0x020000000007) = Inr (r, br', s', [t])" "tx_dev t = Some 3"
    by (rule sample_flood [of "0xFFFFFFFFFFFF" "0x020000000007" 5]) simp_all
  have "ubr_vec_test (br_busy sample) 1" by simp
  from vlan_isolation [OF plain_kernel_ok(1) sample_ok this rx(1) _ rx(2)]
  have "\<exists>j v. br_heap sample 101 = Some v \<and> j \<noteq> 1 \<and> ubr_vec_test (vl_members v) j \<and>
      port_netdev sample j = Some 3"
    by (simp only: sample_ingress option.inject list.set insert_iff) blast
  with rx(1) show ?thesis by blast
qed



text \<open>
  C13. A tagged frame with a VID the bridge does not have is not dropped: on a filtering port
  the FDB stage dereferences the NULL VLAN pointer that VLAN ingress has left.
\<close>

theorem unknown_vid_dereferences_null:
  assumes "helpers_ok K" "bridge_ok K br" "ubr_vec_test (br_busy br) i"
    and "p_pvid (br_ports br i) \<noteq> 0" "skb_vlan_tag_present s"
    and "htons K (skb_vlan_proto s) = br_vlan_proto br"
    and "skb_vlan_tag_get_id s \<noteq> 0" "vlan_of K br (skb_vlan_tag_get_id s) = None"
  shows "ubr_port_rx_handler K E i br s = Inl NullDeref"
proof -
  note table = bridge_okD(1) [OF assms(2)]
  have "ingress_classify K br (enter_port br i s) = Some (enter_port br i s, skb_vlan_tag_get_id s)"
    using assms(5,6) by (simp add: ingress_classify_def enter_port_def skb_vlan_tag_get_id_def)
  then have "ubr_vlan_ingress K br (enter_port br i s) =
      Inr (False, Some (set_frame_vlan None (enter_port br i s)))"
    using assms(4,5,7,8) port_cb(7) [OF assms(2,3)]
    by (simp add: ubr_vlan_ingress_def ingress_untag_def enter_port_def frame_vlan_def
        resolve_none [OF table])
  then show ?thesis
    using port_cb(3) [OF assms(2,3)]
    by (simp add: rx_handler_eq [OF assms(2,3)] forward_eq fdb_forward_null)
qed

theorem unknown_vid_dereferences_null_witness:
  "ubr_port_rx_handler plain_kernel (plain_env 5) 1 sample
     (vlan_hwaccel_put_tag (sample_frame 0x020000000008 0x020000000007) (htons plain_kernel 0x8100) 77) =
     Inl NullDeref"
proof -
  let ?s = "vlan_hwaccel_put_tag (sample_frame 0x020000000008 0x020000000007)
      (htons plain_kernel 0x8100) 77"
  have "ubr_vec_test (br_busy sample) 1" "p_pvid (br_ports sample 1) \<noteq> 0" by simp_all
  moreover have "skb_vlan_tag_get_id ?s = 77"
    by (simp add: skb_vlan_tag_get_id_def VLAN_VID_MASK_def)
  moreover have "htons plain_kernel (skb_vlan_proto ?s) = br_vlan_proto sample"
    by (simp add: htons_involutive sample_def ETH_P_8021Q_def)
  moreover have "vlan_of plain_kernel sample 77 = None"
    by (simp add: vlan_of_def ubr_vlan_find_def sample_def plain_kernel_def)
  ultimately show ?thesis
    by (intro unknown_vid_dereferences_null [OF plain_kernel_ok(1) sample_ok]) simp_all
qed

text \<open>
  C7. Flooding. An accepted frame whose destination the table does not know reaches, when the
  clones can be made, every member of its VLAN that the VLAN's flood mask for the kind of
  destination names, except the port it came from, and each of them once. When there is none
  the buffer is freed.
\<close>

theorem flood_exact:
  assumes "helpers_ok K" "bridge_ok K br" "ubr_vec_test (br_busy br) i"
    and "ubr_port_rx_handler K E i br s = Inr (r, br', s', ts)" "\<And>j. fe_clone E j"
    and "ingress_vlan K br (enter_port br i s) = Some a" "br_heap br a = Some v"
    and "p_pvid (br_ports br i) = 0 \<or> ubr_vec_test (vl_members v) i"
    and "f_nodes (br_fdb br) (dst_key K (vl_vid v) s') = None" "skb_h_dest s \<noteq> skb_h_source s"
    and "out = {j. j \<noteq> i \<and> ubr_vec_test (vl_members v) j \<and> ubr_vec_test (flood_filter v s) j}"
  shows "if out = {} then ts = [KfreeSkb s']
    else \<exists>js. distinct js \<and> set js = out \<and> map tx_dev ts = map (port_netdev br) js"
proof -
  have a: "cb_vlan (skb_cb s') = Some a" using rx_cb_vlan [OF assms(1-4)] assms(6) by simp
  note unknown = rx_unknown [OF assms(1-4) a assms(7,9,10)]
  have "flood_filter v s' = flood_filter v s" using unknown(2) by (simp add: flood_filter_def)
  then have "out = {j. j \<noteq> i \<and> ubr_vec_test (vl_members v) j \<and>
      ubr_vec_test (fdb_filter K E v s' (br_fdb br')) j}"
    using assms(11) unknown(1) by simp
  from rx_exact [OF assms(1-5) a assms(7,8) this] show ?thesis .
qed

theorem flood_exact_witness:
  "\<exists>r br' s' t. ubr_port_rx_handler plain_kernel (plain_env 5) 1 sample
       (sample_frame 0x020000000008 0x020000000007) = Inr (r, br', s', [t]) \<and> tx_dev t = Some 3"
proof -
  let ?s = "sample_frame 0x020000000008 0x020000000007" and ?v = "sample_vlan 10 [1, 2] [2]"
  have i: "ubr_vec_test (br_busy sample) 1" by simp
  obtain r br' s' ts where
    rx: "ubr_port_rx_handler plain_kernel (plain_env 5) 1 sample ?s = Inr (r, br', s', ts)"
    using sample_flood [of "0x020000000008" "0x020000000007" 5] by force
  have "{2} = {j. j \<noteq> 1 \<and> ubr_vec_test (vl_members ?v) j \<and> ubr_vec_test (flood_filter ?v ?s) j}"
    by (auto simp: flood_filter_def vec_simps)
  from flood_exact [OF plain_kernel_ok(1) sample_ok i rx _ sample_ingress(1) _ _ _ _ this]
  have "\<exists>js. distinct js \<and> set js = {2} \<and> map tx_dev ts = map (port_netdev sample) js"
    by (simp add: sample_fdb_def)
  then obtain js where "distinct js" "set js = {2}" and ts: "map tx_dev ts = map (port_netdev sample) js"
    by blast
  then have "js = [2]" by (cases js; cases "tl js") auto
  with ts obtain t where "ts = [t]" "tx_dev t = Some 3" by (auto simp: port_netdev_def)
  with rx show ?thesis by blast
qed





text \<open>
  C15. (bounds) The VID of a request is 16 bits wide and no handler bounds it, while a tag has 12
  bits for it. An untagged frame received on a filtering port gets the whole PVID as its tag
  control word, which is what is pushed on the VLAN's tagged members: the VID on the wire is
  the PVID modulo 4096, and the PVID itself exactly when that fits; the bits above it become
  the frame's priority. VLAN 4106 leaves the bridge as VLAN 10.
\<close>

theorem pvid_is_cut_to_twelve_bits:
  assumes "helpers_ok K" "bridge_ok K br" "ubr_vec_test (br_busy br) i"
    and "ubr_port_rx_handler K E i br s = Inr (r, br', s', ts)"
    and "p_pvid (br_ports br i) \<noteq> 0" "\<not> skb_vlan_tag_present s" "skb_protocol s \<noteq> br_vlan_proto br"
  shows "cb_vlan (skb_cb s') = vlan_of K br (p_pvid (br_ports br i)) \<and>
    skb_vlan_tci s' = p_pvid (br_ports br i) \<and>
    unat (skb_vlan_tag_get_id s') = unat (p_pvid (br_ports br i)) mod 4096 \<and>
    (skb_vlan_tag_get_id s' = p_pvid (br_ports br i) \<longleftrightarrow> p_pvid (br_ports br i) < 4096)"
proof -
  note pvid = untagged_takes_pvid [OF assms]
  have vid: "unat (skb_vlan_tag_get_id s') = unat (p_pvid (br_ports br i)) mod 4096"
    unfolding get_id_mod pvid(1) by (rule refl)
  have "skb_vlan_tag_get_id s' = p_pvid (br_ports br i) \<longleftrightarrow> unat (p_pvid (br_ports br i)) < 4096"
    unfolding word_unat_eq_iff vid by (rule mod_eq_self_iff_div_eq_0 [THEN trans]) (simp add: div_eq_0_iff)
  moreover have "p_pvid (br_ports br i) < 4096 \<longleftrightarrow> unat (p_pvid (br_ports br i)) < 4096"
    by (simp add: word_less_nat_alt)
  ultimately show ?thesis using pvid vid by blast
qed

definition wide_sample :: ubr where
  "wide_sample =
     (let b = vlan_write 102 (sample_vlan 4106 [1, 2] [2])
                (update_port_vlan 102 4106 True (vlan_add plain_kernel 102 4106 sample))
      in port_write 1 (with_pvid plain_kernel b 4106 (br_ports b 1)) b)"

theorem pvid_is_cut_to_twelve_bits_witness:
  "\<exists>r br' s' ts. ubr_port_rx_handler plain_kernel (plain_env 5) 1 wide_sample
       (sample_frame 0x020000000008 0x020000000007) = Inr (r, br', s', ts) \<and>
     cb_vlan (skb_cb s') = Some 102 \<and> skb_vlan_tci s' = 4106 \<and> skb_vlan_tag_get_id s' = 10"
proof -
  let ?s = "sample_frame 0x020000000008 0x020000000007"
  let ?u = "update_port_vlan 102 4106 True (vlan_add plain_kernel 102 4106 sample)"
  let ?b = "vlan_write 102 (sample_vlan 4106 [1, 2] [2]) ?u"
  have new: "vlan_of plain_kernel sample 4106 = None" "br_heap sample 102 = None"
    by (simp_all add: vlan_of_def ubr_vlan_find_def sample_def plain_kernel_def)
  have u: "bridge_ok plain_kernel ?u" by (rule bridge_ok_add_vlan [OF sample_ok new])
  have "vlan_of plain_kernel ?u 4106 = vlan_of plain_kernel (vlan_add plain_kernel 102 4106 sample) 4106"
    by (rule fun_cong, rule vlan_table_cong) simp_all
  also have "\<dots> = Some 102"
    by (simp add: vt.find_add [OF sample_table new])
  finally have vu: "vlan_of plain_kernel ?u 4106 = Some 102" .
  obtain v where v: "br_heap ?u 102 = Some v" "vl_vid v = 4106"
    using vlan_of_SomeD(1) [OF bridge_okD(1) [OF u] vu] by blast
  have b: "bridge_ok plain_kernel ?b"
    by (rule bridge_ok_write_vlan [OF u v(1)]) (simp_all add: v(2) vlan_members_ok_def)
  have vb: "vlan_of plain_kernel ?b 4106 = Some 102"
    using vt.find_put [OF bridge_okD(1) [OF u] v(1), of "sample_vlan 4106 [1, 2] [2]"] v(2) vu by simp
  have busy: "ubr_vec_test (br_busy ?b) 1" by simp
  have w: "bridge_ok plain_kernel wide_sample"
    unfolding wide_sample_def Let_def by (rule bridge_ok_set_pvid [OF b busy])
  have vw: "vlan_of plain_kernel wide_sample 4106 = Some 102"
    unfolding wide_sample_def Let_def port_write_table by (rule vb)
  have w1: "ubr_vec_test (br_busy wide_sample) 1" "p_pvid (br_ports wide_sample 1) = 4106"
    "br_vlan_proto wide_sample = 0x8100"
    by (simp_all add: wide_sample_def Let_def with_pvid_def sample_def ETH_P_8021Q_def)
  obtain r br' s' ts where rx: "ubr_port_rx_handler plain_kernel (plain_env 5) 1 wide_sample ?s =
      Inr (r, br', s', ts)"
    using rx_no_fault [OF plain_kernel_ok w w1(1), of "plain_env 5" ?s] port_cb(6,7) [OF w w1(1)] w1 vw
    by (auto simp: no_fault_iff ingress_vlan_def ingress_untag_def ingress_classify_def
        frame_vlan_def enter_port_def sample_frame_def)
  have "p_pvid (br_ports wide_sample 1) \<noteq> 0" "\<not> skb_vlan_tag_present ?s"
    "skb_protocol ?s \<noteq> br_vlan_proto wide_sample"
    using w1 by (simp_all add: sample_frame_def)
  note cut = pvid_is_cut_to_twelve_bits [OF plain_kernel_ok(1) w w1(1) rx this, unfolded w1(2) vw]
  then have "skb_vlan_tag_get_id s' = 10" by (simp add: word_unat_eq_iff)
  with cut rx show ?thesis by blast
qed

text \<open>
  C14. The FDB stage runs for a frame that VLAN ingress has refused: a port that is not a
  member of a VLAN cannot send into it, yet it can move the VLAN's stations to itself.
\<close>

theorem refused_frame_is_learned:
  assumes "helpers_ok K" "bridge_ok K br" "ubr_vec_test (br_busy br) i"
    and "ubr_port_rx_handler K E i br s = Inr (r, br', s', ts)"
    and "p_pvid (br_ports br i) \<noteq> 0" "cb_vlan (skb_cb s') = Some a" "br_heap br a = Some v"
    and "\<not> ubr_vec_test (vl_members v) i" "vl_sa_learning v"
    and "fe_node_alloc E" "fe_insert_err E = 0" "is_valid_ether_addr (skb_h_source s)"
    and "\<And>n. f_nodes (br_fdb br) (src_key (vl_vid v) s) = Some n \<Longrightarrow> n_proto n = UBR_FDB_DYNAMIC"
  shows "ts = [KfreeSkb s'] \<and>
    (\<exists>n. f_nodes (br_fdb br') (src_key (vl_vid v) s) = Some n \<and>
         n_vec n = ubr_vec_set i ubr_vec_zero)"
proof -
  obtain allow s0 a' v' where "cb_vlan (skb_cb s0) = Some a'" "br_heap br a' = Some v'"
    and al: "allow \<longleftrightarrow> p_pvid (br_ports br i) = 0 \<or> ubr_vec_test (vl_members v') i"
    and "s' = narrow (fdb_filter K E v' s0 (br_fdb br')) s0"
    and d: "if allow then ubr_deliver K E br' s' = Inr ts else ts = [KfreeSkb s']"
    by (rule rx_stages [OF assms(1-4)]) (rule that; assumption)
  then have "\<not> allow" using assms(5-8) by auto
  with d rx_hears [OF assms(1-4,6,7,9-13)] show ?thesis
    by (auto simp: heard_def src_key_def)
qed

theorem refused_frame_is_learned_witness:
  "\<exists>r br' s' n. ubr_port_rx_handler plain_kernel (plain_env 5) 1
       (vlan_write 101 (del_member 1 (sample_vlan 10 [1, 2] [2])) sample)
       (sample_frame 0x020000000008 0x020000000007) = Inr (r, br', s', [KfreeSkb s']) \<and>
     f_nodes (br_fdb br') \<lparr>a_addr = UBR_ADDR_MAC 0x020000000007, a_vid = 10\<rparr> = Some n \<and>
     n_vec n = ubr_vec_set 1 ubr_vec_zero"
proof -
  let ?v = "del_member 1 (sample_vlan 10 [1, 2] [2])" and ?s = "sample_frame 0x020000000008 0x020000000007"
  let ?b = "vlan_write 101 ?v sample"
  have ok: "bridge_ok plain_kernel ?b"
    by (rule bridge_ok_del_member [OF sample_ok sample_vlan_of(2)]) simp
  have i: "ubr_vec_test (br_busy ?b) 1" by simp
  have ing: "ingress_vlan plain_kernel ?b (enter_port ?b 1 ?s) = Some 101"
    by (simp add: ingress_vlan_def ingress_untag_def ingress_classify_def frame_vlan_def
        sample_port_def enter_port_def sample_frame_def ETH_P_8021Q_def sample_def)
  then obtain r br' s' ts where rx:
    "ubr_port_rx_handler plain_kernel (plain_env 5) 1 ?b ?s = Inr (r, br', s', ts)"
    using rx_no_fault [OF plain_kernel_ok ok i, of "plain_env 5" ?s] by (auto simp: no_fault_iff)
  have vl: "cb_vlan (skb_cb s') = Some 101"
    using rx_cb_vlan [OF plain_kernel_ok(1) ok i rx] ing by simp
  have "ts = [KfreeSkb s'] \<and> (\<exists>n. f_nodes (br_fdb br') (src_key (vl_vid ?v) ?s) = Some n \<and>
      n_vec n = ubr_vec_set 1 ubr_vec_zero)"
    by (rule refused_frame_is_learned [OF plain_kernel_ok(1) ok i rx _ vl])
      (simp_all add: del_member_def vec_simps sample_fdb_def is_valid_ether_addr_def
        is_multicast_ether_addr_def)
  with rx show ?thesis by (auto simp: src_key_def)
qed

section \<open>The machine\<close>



section \<open>Netlink\<close>

text \<open>
  C16. Reference counts. A request handler that returns has dropped each device reference it
  took, on every path, errors included, except one: setting a port's PVID leaves a reference
  on the device its attributes name, whether it succeeds or not, so the device can never be
  unregistered again.
\<close>

theorem requests_account_for_references:
  assumes "ubr_genl_doit K N mem cmd info w = Inr (ret, w')"
  shows "refs w' =
    (case get_port_attrs N info of
       Inr (attrs, port) \<Rightarrow>
         if cmd = UBR_NL_PORT_SET then (refs w)(port := map_option (\<lambda>n. n + 1) (refs w port))
         else refs w
     | Inl err \<Rightarrow> refs w)"
  using refs_outcome [OF request_outcome [OF assms]] by (cases cmd) (auto simp: refs_hold_port split: sum.split)

theorem requests_account_for_references_witness:
  "\<exists>ret w'. ubr_genl_doit plain_kernel plain_netlink None UBR_NL_PORT_SET (pvid_request 4 20) office =
       Inr (ret, w') \<and> refs office 4 = Some 1 \<and> refs w' 4 = Some 2"
proof -
  obtain attrs where at: "get_port_attrs plain_netlink (pvid_request 4 20) = Inr (attrs, 4)"
    by (rule pvid_request_attrs)
  have "ubr_netlink_dev (pvid_request 4 20) (hold 4 office) = Inr (Some 1, hold 1 (hold 4 office))"
    by (simp add: pvid_request_def office_dev hold_def)
  then have run: "ubr_genl_doit plain_kernel plain_netlink None UBR_NL_PORT_SET (pvid_request 4 20)
      office = Inr (- EINVAL, hold 4 office)"
    by (simp add: ubr_port_nl_set_cmd_def at get_by_index_eq netdev_priv_def sample_port_of Let_def)
  moreover have "refs office 4 = Some 1" by (simp add: refs_def plain_dev_def)
  ultimately show ?thesis
    using requests_account_for_references [OF run] by (simp add: at)
qed

theorem handlers_drop_their_references:
  assumes "ubr_genl_doit K N mem cmd info w = Inr (ret, w')" "cmd \<noteq> UBR_NL_PORT_SET"
  shows "refs w' = refs w"
  using refs_outcome [OF request_outcome [OF assms(1)]] assms(2) by (cases cmd) simp_all

theorem port_set_leaks_a_reference:
  assumes "ubr_port_nl_set_cmd K N info w = Inr (ret, w')"
    and "get_port_attrs N info = Inr (attrs, ifindex)" "w_devs w ifindex = Some d"
  shows "refs w' = (refs w)(ifindex := Some (nd_refcnt d + 1))"
  using refs_outcome [OF port_set_outcome [OF assms(1)]] assms(2,3)
  by (simp add: refs_hold_port) (simp add: refs_def)

text \<open>
  C17. (type) What a request returns is 0, one of the errors of its command or what the
  library reports for the nested attribute; and it is carried out or it is not: an error
  leaves every bridge, device and the clock as they were, but for that reference, and a success
  writes one existing bridge at most.
\<close>

theorem requests_are_all_or_nothing:
  assumes "ubr_genl_doit K N mem cmd info w = Inr (ret, w')"
  shows "if ret = 0
    then \<exists>b. w' = keep_reference N info cmd w \<or>
           w_bridges w b \<noteq> None \<and> (\<exists>br'. w' = br_put b br' (keep_reference N info cmd w))
    else request_error N info cmd ret \<and> w' = keep_reference N info cmd w"
  using request_outcome [OF assms] by (auto simp: request_outcome_def Let_def)

theorem requests_are_all_or_nothing_witness:
  "\<exists>w'. ubr_genl_doit plain_kernel plain_netlink None UBR_NL_VLAN_ADD (vlan_request 10) office =
       Inr (- EBUSY, w') \<and> request_error plain_netlink (vlan_request 10) UBR_NL_VLAN_ADD (- EBUSY) \<and>
     w' = office"
proof -
  obtain attrs where "get_vid plain_netlink (vlan_request 10) = Inr (attrs, 10)"
    using request_vid [of 10] by blast
  then obtain w' where w': "ubr_genl_doit plain_kernel plain_netlink None UBR_NL_VLAN_ADD
      (vlan_request 10) office = Inr (- EBUSY, w')"
    by (simp add: nl_add_eq [OF _ office_requests(1) office_simps(5) sample_table])
  with requests_are_all_or_nothing [OF w'] show ?thesis by simp
qed

text \<open>
  C18. Adding a VLAN. The request fails with EBUSY when the bridge has the VLAN and with
  ENOMEM when there is no memory, and changes nothing then. Otherwise the bridge has the new
  VLAN and its old ones, stays in order, and every port that was waiting with this PVID, its
  VLAN pointer NULL, now points to it; the other ports are as before.
\<close>

theorem vlan_add_request:
  assumes "get_vid N info = Inr (attrs, vid)" "ubr_netlink_dev info w = Inr (Some b, w1)"
    and "w_bridges w b = Some br" "bridge_ok K br" "\<forall>a. mem = Some a \<longrightarrow> br_heap br a = None"
  shows "\<exists>ret w' br'. ubr_vlan_nl_add_cmd K N mem info w = Inr (ret, w') \<and> w' = br_put b br' w \<and>
    bridge_ok K br' \<and>
    (if vlan_of K br vid \<noteq> None then ret = - EBUSY \<and> br' = br
     else case mem of
       None \<Rightarrow> ret = - ENOMEM \<and> br' = br
     | Some a \<Rightarrow> ret = 0 \<and> vlan_of K br' = (vlan_of K br)(vid := Some a) \<and>
         (\<forall>i. ubr_vec_test (br_busy br) i \<longrightarrow>
            (if p_pvid (br_ports br i) = vid
             then cb_vlan (p_ingress_cb (br_ports br i)) = None \<and>
                  cb_vlan (p_ingress_cb (br_ports br' i)) = Some a
             else br_ports br' i = br_ports br i)))"
proof -
  note table = bridge_okD(1) [OF assms(4)]
  note eq = nl_add_eq [OF assms(1-3) table, of mem] br_put_same [OF assms(3)]
  show ?thesis
  proof (cases "vlan_of K br vid \<noteq> None \<or> mem = None")
    case True
    then show ?thesis using assms(4) eq by (cases "vlan_of K br vid") auto
  next
    case False
    then obtain a where a: "mem = Some a" "vlan_of K br vid = None" by auto
    have fresh: "br_heap br a = None" using assms(5) a by simp
    let ?b = "update_port_vlan a vid True (vlan_add K a vid br)"
    have "vlan_of K ?b = vlan_of K (vlan_add K a vid br)" by (rule vlan_table_cong) simp_all
    then have "vlan_of K ?b = (vlan_of K br)(vid := Some a)"
      by (auto simp: vt.find_add [OF table a(2) fresh])
    moreover have "cb_vlan (p_ingress_cb (br_ports br i)) = None"
      if "ubr_vec_test (br_busy br) i" "p_pvid (br_ports br i) = vid" for i
      using port_cb(6) [OF assms(4) that(1)] that(2) a(2) by simp
    ultimately show ?thesis
      using eq a bridge_ok_add_vlan [OF assms(4) a(2) fresh]
      by (intro exI [of _ 0] exI [of _ "br_put b ?b w"] exI [of _ ?b])
        (auto simp: update_port_vlan_ports)
  qed
qed

theorem vlan_add_request_witness:
  "\<exists>w' br'. ubr_vlan_nl_add_cmd plain_kernel plain_netlink (Some 102) (vlan_request 20) office = Inr (0, w') \<and>
     w' = br_put 1 br' office \<and> vlan_of plain_kernel br' 20 = Some 102 \<and> vlan_of plain_kernel br' 10 = Some 101"
proof -
  obtain attrs where at: "get_vid plain_netlink (vlan_request 20) = Inr (attrs, 20)"
    using request_vid [of 20] by blast
  have "vlan_of plain_kernel sample 20 = None"
    by (simp add: vlan_of_def ubr_vlan_find_def sample_def plain_kernel_def)
  moreover have "\<forall>a. Some 102 = Some a \<longrightarrow> br_heap sample a = None" by (simp add: sample_def)
  note vlan_add_request [OF at office_requests(1) office_simps(5) sample_ok this]
  ultimately obtain br' where "ubr_vlan_nl_add_cmd plain_kernel plain_netlink (Some 102)
      (vlan_request 20) office = Inr (0, br_put 1 br' office)"
    and find: "vlan_of plain_kernel br' = (vlan_of plain_kernel sample)(20 := Some 102)"
    by auto
  moreover from find have "vlan_of plain_kernel br' 20 = Some 102" "vlan_of plain_kernel br' 10 = Some 101"
    by simp_all
  ultimately show ?thesis by blast
qed

text \<open>
  Attaching a port to a VLAN the bridge does not have dereferences NULL: the test after
  the lookup is on the wrong pointer.
\<close>

theorem attach_to_missing_vlan:
  assumes "get_vid N info = Inr (attrs, vid)" "get_port attrs = Inr (port, tagged)"
    and "ubr_netlink_dev info w = Inr (Some b, w1)" "w_devs w port \<noteq> None"
    and "w_bridges w b = Some br" "bridge_ok K br"
    and "0 \<le> ubr_port_find br (Some port)" "vlan_of K br vid = None"
  shows "ubr_genl_doit K N mem UBR_NL_VLAN_ATTACH info w = Inl NullDeref"
  using nl_attach_eq [OF assms(1-5) bridge_okD(1) [OF assms(6)]] assms(7,8) by simp

theorem attach_to_missing_vlan_witness:
  "ubr_genl_doit plain_kernel plain_netlink None UBR_NL_VLAN_ATTACH (member_request 20 2 0) office =
     Inl NullDeref"
proof -
  obtain attrs where "get_vid plain_netlink (member_request 20 2 0) = Inr (attrs, 20)"
    "get_port attrs = Inr (2, 0)" by (rule member_request_attrs)
  from attach_to_missing_vlan [OF this office_requests(2) _ office_simps(5) sample_ok]
  show ?thesis
    by (simp add: sample_port_of vlan_of_def ubr_vlan_find_def)
      (simp add: sample_def plain_kernel_def)
qed

text \<open>
  C19. Attach, then detach. For a port that was not a member of the VLAN, with or without a
  tag, the two requests succeed and leave the world as it was.
\<close>

theorem attach_detach_roundtrip:
  assumes "get_vid N info = Inr (attrs, vid)" "get_port attrs = Inr (port, tagged)"
    and "ubr_netlink_dev info w = Inr (Some b, w1)" "w_devs w port \<noteq> None"
    and "w_bridges w b = Some br" "bridge_ok K br"
    and "ubr_port_find br (Some port) = int i" "vlan_of K br vid = Some a" "br_heap br a = Some v"
    and "\<not> ubr_vec_test (vl_members v) i"
  shows "\<exists>w'. ubr_vlan_nl_attach_cmd K N info w = Inr (0, w') \<and>
    w_bridges w' b = Some (vlan_write a (add_member i (tagged \<noteq> 0) v) br) \<and>
    ubr_vlan_nl_detach_cmd K N info w' = Inr (0, w)"
proof -
  note table = bridge_okD(1) [OF assms(6)]
  let ?b = "vlan_write a (add_member i (tagged \<noteq> 0) v) br"
  let ?w = "br_put b ?b w"
  have att: "ubr_vlan_nl_attach_cmd K N info w = Inr (0, ?w)"
    using nl_attach_eq [OF assms(1-5) table] assms(7-9) by simp
  have "\<not> ubr_vec_test (vl_tagged v) i"
    using members_okD [OF bridge_okD(5) [OF assms(6)] assms(8,9)] assms(10)
    by (auto simp: vlan_members_ok_def)
  then have undo: "del_member i (add_member i (tagged \<noteq> 0) v) = v"
    using assms(10) by (simp add: del_member_def add_member_def pv.set_then_clear pv.clear_absent)
  have put: "vlan_table_ok K ?b" "vlan_of K ?b = vlan_of K br"
    using vt.ok_put [OF table assms(9)] vt.find_put [OF table assms(9)] by simp_all
  note dev = netlink_dev_br_put [OF assms(3), of b ?b]
  have same: "ubr_port_find ?b (Some port) = ubr_port_find br (Some port)"
  proof -
    have "port_scan ?b port is = port_scan br port is" for "is" by (induction "is") simp_all
    then show ?thesis by (simp add: ubr_port_find_def)
  qed
  have "vlan_write a v ?b = br"
    using assms(9) by (simp add: vlan_write_def fun_upd_idem)
  then have "ubr_vlan_nl_detach_cmd K N info ?w = Inr (0, w)"
    using nl_detach_eq [OF assms(1,2) dev _ _ put(1)] assms(4,5,7,8) same put(2) undo
      br_put_same [OF assms(5)]
    by (simp add: br_put_def)
  with att show ?thesis by (intro exI [of _ ?w]) simp
qed

theorem attach_detach_roundtrip_witness:
  "\<exists>w'. ubr_vlan_nl_attach_cmd plain_kernel plain_netlink (member_request 20 2 1)
       (br_put 1 (update_port_vlan 102 20 True (vlan_add plain_kernel 102 20 sample)) office) = Inr (0, w') \<and>
     ubr_vlan_nl_detach_cmd plain_kernel plain_netlink (member_request 20 2 1) w' =
       Inr (0, br_put 1 (update_port_vlan 102 20 True (vlan_add plain_kernel 102 20 sample)) office)"
proof -
  let ?c = "vlan_add plain_kernel 102 20 sample"
  let ?b = "update_port_vlan 102 20 True ?c" and ?i = "member_request 20 2 1"
  let ?w = "br_put 1 ?b office"
  have new: "vlan_of plain_kernel sample 20 = None"
    by (simp add: vlan_of_def ubr_vlan_find_def sample_def plain_kernel_def)
  have fresh: "br_heap sample 102 = None" by (simp add: sample_def)
  have ok: "bridge_ok plain_kernel ?b" by (rule bridge_ok_add_vlan [OF sample_ok new fresh])
  have find: "vlan_of plain_kernel ?b 20 = Some 102"
  proof -
    have "vlan_of plain_kernel ?b = vlan_of plain_kernel ?c" by (rule vlan_table_cong) simp_all
    then show ?thesis using vt.find_add [OF sample_table new fresh] by simp
  qed
  obtain attrs where at: "get_vid plain_netlink ?i = Inr (attrs, 20)" "get_port attrs = Inr (2, 1)"
    by (rule member_request_attrs)
  have dev: "ubr_netlink_dev ?i ?w = Inr (Some 1, hold 1 ?w)"
    unfolding member_request_def by (rule office_dev) simp
  have port: "ubr_port_find ?b (Some 2) = int 1"
  proof (rule port_find_result [of ?b 2])
    fix i assume "ubr_port_find ?b (Some 2) = int i" "ubr_vec_test (br_busy ?b) i"
      "p_dev (br_ports ?b i) = Some 2"
    then show ?thesis by (auto simp: update_port_vlan_ports split: if_splits)
  next
    assume "\<And>i. ubr_vec_test (br_busy ?b) i \<Longrightarrow> p_dev (br_ports ?b i) \<noteq> Some 2"
    from this [of 1] show ?thesis by (simp add: update_port_vlan_ports)
  qed
  from attach_detach_roundtrip [OF at dev _ _ ok port find] show ?thesis by auto
qed

section \<open>What deletions leave\<close>

text \<open>
  A deleted VLAN stays on the hash table. Until the grace period ends the VLAN cannot be
  added again, as it is still found; once it has ended, the same request, like any lookup of
  the VID, reads freed memory.
\<close>

theorem deleted_vlan_is_still_hashed:
  assumes "get_vid N info = Inr (attrs, vid)" "ubr_netlink_dev info w = Inr (Some b, w0)"
    and "w_bridges w b = Some br" "bridge_ok K br" "br_rcu br = []" "vlan_of K br vid = Some a"
    and "ubr_vlan_nl_del_cmd K N info w = Inr (ret, w1)"
    and "wstep K N w1 (Grace_Period b) w2"
  shows "ret = 0 \<and> ubr_vlan_nl_add_cmd K N mem info w1 = Inr (- EBUSY, w1) \<and>
    ubr_vlan_nl_add_cmd K N mem info w2 = Inl UseAfterFree \<and>
    ubr_vlan_nl_del_cmd K N info w2 = Inl UseAfterFree"
proof -
  note table = bridge_okD(1) [OF assms(4)]
  obtain v where v: "br_heap br a = Some v" using vlan_of_SomeD(1) [OF table assms(6)] by blast
  let ?d = "vlan_deleted a v br"
  have w1: "ret = 0" "w1 = br_put b ?d w"
    using nl_del_deleted [OF assms(1-3) table assms(6) v] assms(7) by auto
  note d = vlan_deleted_table [OF table v]
  note dev1 = netlink_dev_br_put [OF assms(2), of b ?d, folded w1(2)]
  have add: "ubr_vlan_nl_add_cmd K N mem info w1 = Inr (- EBUSY, w1)"
    using nl_add_eq [OF assms(1) dev1 _ d(1)] assms(6) d(2) by (simp add: w1(2))
  from assms(8) obtain br' where br': "w2 = br_put b br' w1"
    "ubr_vlan_del_rcu a (?d\<lparr>br_rcu := []\<rparr>) = Inr br'"
    by (rule wstep_graceE) (auto simp: w1(2) netdev_priv_def rcu_run_def assms(5))
  have find: "ubr_vlan_find K br' vid = Inl UseAfterFree"
    by (rule find_freed [OF table assms(6)]) (use br'(2) in \<open>auto simp: ubr_vlan_del_rcu_def\<close>)
  note dev2 = netlink_dev_br_put [OF dev1, of b br']
  have "ubr_vlan_nl_add_cmd K N mem info w2 = Inl UseAfterFree"
    "ubr_vlan_nl_del_cmd K N info w2 = Inl UseAfterFree"
    by (simp_all add: ubr_vlan_nl_add_cmd_def ubr_vlan_nl_del_cmd_def assms(1) dev2 netdev_priv_def
        br'(1) ubr_vlan_new_def find Let_def)
  with w1(1) add show ?thesis by simp
qed

theorem deleted_vlan_is_still_hashed_witness:
  "\<exists>w1 w2. ubr_vlan_nl_del_cmd plain_kernel plain_netlink (vlan_request 10) office = Inr (0, w1) \<and>
     wstep plain_kernel plain_netlink w1 (Grace_Period 1) w2 \<and>
     ubr_vlan_nl_add_cmd plain_kernel plain_netlink (Some 102) (vlan_request 10) w2 = Inl UseAfterFree"
proof -
  obtain attrs where at: "get_vid plain_netlink (vlan_request 10) = Inr (attrs, 10)"
    using request_vid [of 10] by blast
  let ?d = "vlan_deleted 101 (sample_vlan 10 [1, 2] [2]) sample"
  let ?w1 = "br_put 1 ?d office"
  let ?b = "?d\<lparr>br_rcu := [], br_heap := (br_heap ?d)(101 := None)\<rparr>"
  have del: "ubr_vlan_nl_del_cmd plain_kernel plain_netlink (vlan_request 10) office = Inr (0, ?w1)"
    by (rule nl_del_deleted [OF at office_requests(1) office_simps(5) sample_table]) simp_all
  have step: "wstep plain_kernel plain_netlink ?w1 (Grace_Period 1) (br_put 1 ?b ?w1)"
    by (rule step_grace [of _ _ ?d "Vlan_Del_Rcu 101" "[]"])
      (simp_all add: netdev_priv_def rcu_run_def ubr_vlan_del_rcu_def)
  from deleted_vlan_is_still_hashed [OF at office_requests(1) office_simps(5) sample_ok _ _ del step]
  show ?thesis using del step by auto
qed

text \<open>
  Deleting a VLAN twice before the grace period ends queues its memory to be freed twice.
\<close>

theorem double_delete_is_a_double_free:
  assumes "get_vid N info = Inr (attrs, vid)" "ubr_netlink_dev info w = Inr (Some b, w0)"
    and "w_bridges w b = Some br" "bridge_ok K br" "br_rcu br = []" "vlan_of K br vid = Some a"
    and "ubr_vlan_nl_del_cmd K N info w = Inr (ret1, w1)"
    and "ubr_vlan_nl_del_cmd K N info w1 = Inr (ret2, w2)"
    and "wstep K N w2 (Grace_Period b) w3"
  shows "ret2 = 0 \<and> (\<exists>br3. w_bridges w3 b = Some br3 \<and> br_rcu br3 = [Vlan_Del_Rcu a] \<and>
    rcu_run (Vlan_Del_Rcu a) br3 = Inl DoubleFree)"
proof -
  note table = bridge_okD(1) [OF assms(4)]
  obtain v where v: "br_heap br a = Some v" using vlan_of_SomeD(1) [OF table assms(6)] by blast
  let ?d = "vlan_deleted a v br"
  have w1: "w1 = br_put b ?d w"
    using nl_del_deleted [OF assms(1-3) table assms(6) v] assms(7) by auto
  note d = vlan_deleted_table [OF table v]
  note dev1 = netlink_dev_br_put [OF assms(2), of b ?d, folded w1]
  let ?u = "v\<lparr>vl_members := ubr_vec_zero\<rparr>"
  let ?e = "vlan_deleted a ?u ?d"
  have w2: "ret2 = 0" "w2 = br_put b ?e w1"
    using nl_del_deleted [OF assms(1) dev1 _ d(1), of a ?u] assms(6,8) d(2)
    by (auto simp: w1)
  from assms(9) obtain br' where "w3 = br_put b br' w2"
    "ubr_vlan_del_rcu a (?e\<lparr>br_rcu := [Vlan_Del_Rcu a]\<rparr>) = Inr br'"
    by (rule wstep_graceE) (auto simp: w2 netdev_priv_def rcu_run_def assms(5))
  then show ?thesis using w2(1) by (auto simp: ubr_vlan_del_rcu_def rcu_run_def)
qed

theorem double_delete_is_a_double_free_witness:
  "\<exists>w1 w2 w3 br3. ubr_vlan_nl_del_cmd plain_kernel plain_netlink (vlan_request 10) office = Inr (0, w1) \<and>
     ubr_vlan_nl_del_cmd plain_kernel plain_netlink (vlan_request 10) w1 = Inr (0, w2) \<and>
     wstep plain_kernel plain_netlink w2 (Grace_Period 1) w3 \<and> w_bridges w3 1 = Some br3 \<and>
     rcu_run (Vlan_Del_Rcu 101) br3 = Inl DoubleFree"
proof -
  let ?i = "vlan_request 10" and ?v = "sample_vlan 10 [1, 2] [2]"
  obtain attrs where at: "get_vid plain_netlink ?i = Inr (attrs, 10)"
    using request_vid [of 10] by blast
  let ?d = "vlan_deleted 101 ?v sample"
  let ?e = "vlan_deleted 101 (?v\<lparr>vl_members := ubr_vec_zero\<rparr>) ?d"
  let ?w1 = "br_put 1 ?d office"
  let ?w2 = "br_put 1 ?e ?w1"
  let ?b = "?e\<lparr>br_rcu := [Vlan_Del_Rcu 101], br_heap := (br_heap ?e)(101 := None)\<rparr>"
  have del1: "ubr_vlan_nl_del_cmd plain_kernel plain_netlink ?i office = Inr (0, ?w1)"
    by (rule nl_del_deleted [OF at office_requests(1) office_simps(5) sample_table]) simp_all
  have d: "vlan_table_ok plain_kernel ?d" "vlan_of plain_kernel ?d 10 = Some 101"
    using vlan_deleted_table [OF sample_table sample_simps(6)] by (simp_all only: sample_vlan_of)
  note dev = netlink_dev_br_put [OF office_requests(1) [of 10], of 1 ?d]
  have del2: "ubr_vlan_nl_del_cmd plain_kernel plain_netlink ?i ?w1 = Inr (0, ?w2)"
    by (rule nl_del_deleted [OF at dev _ d]) simp_all
  have step: "wstep plain_kernel plain_netlink ?w2 (Grace_Period 1) (br_put 1 ?b ?w2)"
    by (rule step_grace [of _ _ ?e "Vlan_Del_Rcu 101" "[Vlan_Del_Rcu 101]"])
      (simp_all add: netdev_priv_def rcu_run_def ubr_vlan_del_rcu_def)
  from double_delete_is_a_double_free [OF at office_requests(1) office_simps(5) sample_ok _ _ del1 del2 step]
  show ?thesis using del1 del2 step by (metis sample_simps(3) sample_vlan_of(2))
qed

text \<open>
  C31. A detached port stays a member of VLAN 0. After its slot has been cleared, flooding in
  that VLAN from any port without a PVID hands the frame to a NULL device.
\<close>

theorem detached_port_is_still_a_member:
  assumes "helpers_ok K" "\<And>j. fe_clone E j"
    and "w_bridges w b = Some br" "bridge_ok K br" "br_rcu br = []"
    and "w_devs w dev = Some d" "nd_rx_handler_data d = Some (b, x)" "ubr_vec_test (br_busy br) x"
    and "vlan_of K br 0 = Some a" "br_heap br a = Some v" "ubr_vec_test (vl_members v) x" "x \<noteq> 0"
    and "ubr_port_del b dev w = Inr (ret, w1)" "wstep K N w1 (Grace_Period b) w2"
    and "ubr_vec_test (br_busy br) k" "k \<noteq> x" "p_pvid (br_ports br k) = 0"
    and "f_nodes (br_fdb br) (dst_key K (vl_vid v) s) = None" "skb_h_dest s \<noteq> skb_h_source s"
    and "ubr_vec_test (flood_filter v s) x"
  shows "\<exists>br2. w_bridges w2 b = Some br2 \<and> ubr_vec_test (br_busy br2) k \<and>
    \<not> no_fault (ubr_port_rx_handler K E k br2 s)"
proof -
  note slot = slots_okD [OF bridge_okD(3) [OF assms(4)]]
  let ?c = "br\<lparr>br_busy := ubr_vec_clear x (br_busy br), br_rcu := br_rcu br @ [Port_Cleanup_Rcu x]\<rparr>"
  have w1: "w1 = br_put b ?c (dev_upd dev (unlinked b) w)"
    using port_del_eq [OF assms(6,7,3) slot [OF assms(8)], of b] assms(3,13)
    by (simp add: released_def)
  from assms(14) have w2: "w2 = br_put b (port_cleanup_rcu x (?c\<lparr>br_rcu := []\<rparr>)) w1"
    by (rule wstep_graceE) (auto simp: w1 netdev_priv_def rcu_run_def assms(5))
  let ?b = "port_cleanup_rcu x (?c\<lparr>br_rcu := []\<rparr>)"
  have ports: "br_ports ?b k = br_ports br k" "p_dev (br_ports ?b x) = None"
    using assms(16) by (simp_all add: port_cleanup_rcu_def)
  have "\<not> no_fault (ubr_port_rx_handler K E k ?b s)"
    by (rule flood_dead [OF assms(1,2), where a = a and v = v and x = x])
      (use slot [OF assms(15)] port_cb(6,7) [OF assms(4,15)] assms ports in
        \<open>simp_all add: port_cleanup_rcu_def\<close>)
  with assms(15,16) show ?thesis
    by (simp add: w2 port_cleanup_rcu_def vec_simps)
qed

theorem detached_port_is_still_a_member_witness:
  "\<exists>w1 w2 br2. ubr_port_del 1 2 (office\<lparr>w_devs := (w_devs office)(2 := Some
       (linked 1 1 (plain_dev 0x020000000002)))\<rparr>) = Inr (0, w1) \<and>
     wstep plain_kernel plain_netlink w1 (Grace_Period 1) w2 \<and> w_bridges w2 1 = Some br2 \<and>
     \<not> no_fault (ubr_port_rx_handler plain_kernel (plain_env 5) 0 br2
         (sample_frame 0xFFFFFFFFFFFF 0x020000000001))"
proof -
  let ?d = "linked 1 1 (plain_dev 0x020000000002)"
  let ?w = "office\<lparr>w_devs := (w_devs office)(2 := Some ?d)\<rparr>" and ?s = "sample_frame 0xFFFFFFFFFFFF 0x020000000001"
  let ?c = "sample\<lparr>br_busy := ubr_vec_clear 1 (br_busy sample), br_rcu := br_rcu sample @ [Port_Cleanup_Rcu 1]\<rparr>"
  let ?w1 = "br_put 1 ?c (dev_upd 2 (unlinked 1) ?w)"
  have busy: "ubr_vec_test (br_busy sample) 1" by simp
  have data: "nd_rx_handler_data ?d = Some (1, 1)" by (simp add: linked_def)
  have del: "ubr_port_del 1 2 ?w = Inr (0, ?w1)"
    by (rule port_del_eq [OF _ data, unfolded released_def])
      (use slots_okD [OF bridge_okD(3) [OF sample_ok] busy] in simp_all)
  have step: "wstep plain_kernel plain_netlink ?w1 (Grace_Period 1)
      (br_put 1 (port_cleanup_rcu 1 (?c\<lparr>br_rcu := []\<rparr>)) ?w1)"
    by (rule step_grace [of _ _ ?c "Port_Cleanup_Rcu 1" "[]"])
      (simp_all add: netdev_priv_def rcu_run_def)
  have "\<exists>br2. w_bridges (br_put 1 (port_cleanup_rcu 1 (?c\<lparr>br_rcu := []\<rparr>)) ?w1) 1 = Some br2 \<and>
      ubr_vec_test (br_busy br2) 0 \<and>
      \<not> no_fault (ubr_port_rx_handler plain_kernel (plain_env 5) 0 br2 ?s)"
    by (rule detached_port_is_still_a_member [OF plain_kernel_ok(1) _ _ sample_ok _ _ data _
          sample_vlan_of(1) sample_simps(5) _ _ del step])
      (simp_all add: sample_fdb_def flood_filter_def vec_simps is_multicast_ether_addr_def
        is_broadcast_ether_addr_def)
  with del step show ?thesis by blast
qed

text \<open>
  C33. A slot is handed out again while its clearing is queued: the grace period then wipes
  the port that is in use, and its next frame computes a wild pointer to the bridge.
\<close>

theorem slot_reused_before_grace_period:
  assumes "bridge_ok K br" "br_rcu br = []" "ubr_vec_test (br_busy br) x" "x \<noteq> 0"
    and "\<And>j. j < x \<Longrightarrow> ubr_vec_test (br_busy br) j"
    and "ubr_port_cleanup x br = Inr br1" "ubr_port_init K (free_slot br1) dev br1 = Inr br2"
    and "br_rcu br2 = cb # cbs" "rcu_run cb (br2\<lparr>br_rcu := cbs\<rparr>) = Inr br3"
  shows "free_slot br1 = x \<and> p_dev (br_ports br2 x) = Some dev \<and> ubr_vec_test (br_busy br3) x \<and>
    p_dev (br_ports br3 x) = None \<and> ubr_port_rx_handler K E x br3 s = Inl WildPointer"
proof -
  note slot = slots_okD [OF bridge_okD(3) [OF assms(1)] assms(3)]
  have br1: "br1 = br\<lparr>br_busy := ubr_vec_clear x (br_busy br), br_rcu := [Port_Cleanup_Rcu x]\<rparr>"
    using assms(2,6) by (simp add: port_cleanup_eq [OF slot] released_def)
  have "find_first_zero_bit (br_busy br1) = x"
    unfolding find_first_zero_bit_def using assms(3,5) test_bound [OF assms(3)]
    by (intro search_eqI) (auto simp: br1 vec_simps UBR_MAX_PORTS_256)
  then have free: "free_slot br1 = x" by (simp add: free_slot_def)
  have eq: "vlan_table_ok K br1 = vlan_table_ok K br" "vlan_of K br1 = vlan_of K br"
    by (rule vlan_table_cong; simp add: br1)+
  obtain a where a: "vlan_of K br1 0 = Some a" using bridge_okD(2) [OF assms(1)] eq by auto
  have table: "vlan_table_ok K br1" using bridge_okD(1) [OF assms(1)] eq by simp
  obtain v where v: "br_heap br1 a = Some v" using vlan_of_SomeD(1) [OF table a] by blast
  have br2: "br2 = take_slot x (init_port x dev (Some a) (br_ports br1 x)) a (add_member x False v) br1"
    using port_init_eq [OF table a v, of x dev] assms(7) free by simp
  then have "cb = Port_Cleanup_Rcu x" "cbs = []" using assms(8) by (simp_all add: br1)
  then have br3: "br3 = port_cleanup_rcu x (br2\<lparr>br_rcu := []\<rparr>)"
    using assms(9) by (simp add: rcu_run_def)
  have "unat (cb_pidx (p_ingress_cb (br_ports br3 x))) \<noteq> x"
    using assms(4) by (simp add: br3 port_cleanup_rcu_def zero_port_def zero_cb_def)
  then have "ubr_port_rx_handler K E x br3 s = Inl WildPointer"
    by (simp add: ubr_port_rx_handler_def ubr_from_port_def)
  with free show ?thesis
    using test_bound [OF assms(3)] by (simp add: br3 br2 port_cleanup_rcu_def vec_simps)
qed

theorem slot_reused_before_grace_period_witness:
  "\<exists>br1 br2 br3. ubr_port_cleanup 1 sample = Inr br1 \<and>
     ubr_port_init plain_kernel (free_slot br1) 4 br1 = Inr br2 \<and>
     rcu_run (Port_Cleanup_Rcu 1) (br2\<lparr>br_rcu := []\<rparr>) = Inr br3 \<and>
     ubr_port_rx_handler plain_kernel (plain_env 5) 1 br3 (sample_frame 0x020000000008 0x020000000007) =
       Inl WildPointer"
proof -
  have busy: "ubr_vec_test (br_busy sample) 1" by simp
  have below: "\<And>j. j < 1 \<Longrightarrow> ubr_vec_test (br_busy sample) j" by simp
  let ?c = "sample\<lparr>br_busy := ubr_vec_clear 1 (br_busy sample), br_rcu := [Port_Cleanup_Rcu 1]\<rparr>"
  have c: "ubr_port_cleanup 1 sample = Inr ?c"
    using port_cleanup_eq [OF slots_okD [OF bridge_okD(3) [OF sample_ok] busy]] by (simp add: released_def)
  have eq: "vlan_table_ok plain_kernel ?c = vlan_table_ok plain_kernel sample"
    "vlan_of plain_kernel ?c = vlan_of plain_kernel sample"
    by (rule vlan_table_cong; simp)+
  have init: "ubr_port_init plain_kernel i 4 ?c = Inr (take_slot i (init_port i 4 (Some 100)
      (br_ports ?c i)) 100 (add_member i False (sample_vlan 0 [0, 1, 2] [])) ?c)" for i
    by (rule port_init_eq) (simp_all only: eq sample_table sample_vlan_of, simp)
  have rcu: "br_rcu ?c = [Port_Cleanup_Rcu 1]" by simp
  obtain br2 where b2: "ubr_port_init plain_kernel (free_slot ?c) 4 ?c = Inr br2"
    "br_rcu br2 = [Port_Cleanup_Rcu 1]"
    using init [of "free_slot ?c"] rcu by (metis take_slot_frame(6))
  let ?b3 = "port_cleanup_rcu 1 (br2\<lparr>br_rcu := []\<rparr>)"
  have run: "rcu_run (Port_Cleanup_Rcu 1) (br2\<lparr>br_rcu := []\<rparr>) = Inr ?b3"
    by (simp add: rcu_run_def)
  have "br_rcu sample = []" "(1 :: nat) \<noteq> 0" by simp_all
  from slot_reused_before_grace_period [OF sample_ok this(1) busy this(2) below c b2 run]
  show ?thesis using c b2(1) run by blast
qed

section \<open>Ports and bridges come and go\<close>

text \<open>
  C23. Enslaving a device. Once the checks have passed and every call on the device succeeds,
  the device is in the lowest free slot of the bridge and its receive handler says so; the
  bridge stays in order, has one more port, and finds the device at that slot if it was not a
  port before.
\<close>

theorem port_add_takes_lowest_slot:
  assumes "w_bridges w b = Some br" "w_devs w dev = Some d" "w_devs w b = Some bd"
    and "bridge_ok K br" "br_dev br = b" "port_add_allowed d = 0"
    and "find_first_zero_bit (br_busy br) = i" "i < UBR_MAX_PORTS" "Port_Cleanup_Rcu i \<notin> set (br_rcu br)"
    and "pa_link P = 0" "pa_promisc P = 0" "pa_allmulti P = 0" "pa_rx P = 0"
    and "\<And>j. ubr_vec_test (br_busy br) j \<Longrightarrow> p_dev (br_ports br j) \<noteq> Some dev"
  shows "\<exists>w' br' d'. ubr_port_add K P b dev w = Inr (0, w') \<and>
    w_bridges w' = (w_bridges w)(b := Some br') \<and> bridge_ok K br' \<and>
    (\<forall>j < i. ubr_vec_test (br_busy br) j) \<and> \<not> ubr_vec_test (br_busy br) i \<and>
    br_busy br' = ubr_vec_set i (br_busy br) \<and> ubr_port_find br' (Some dev) = int i \<and>
    w_devs w' dev = Some d' \<and> nd_rx_handler_data d' = Some (b, i) \<and> nd_master d' = Some b \<and>
    netif_is_ubr_port d'"
proof -
  have i: "free_slot br = i" using assms(7) by (simp add: free_slot_def)
  have slot: "free_slot br \<noteq> UBR_MAX_PORTS" "Port_Cleanup_Rcu (free_slot br) \<notin> set (br_rcu br)"
    using i assms(8,9) by auto
  have err: "first_error P = 0" using assms(10-13) by (simp add: first_error_def)
  note init = enslaved_init [OF assms(4) slot, of dev, unfolded i]
  let ?e = "enslaved K i dev br"
  obtain w' where add: "ubr_port_add K P b dev w = Inr (0, w')"
    and w': "same_devs (br_put b ?e (dev_upd dev (linked b i) w)) w'"
    using port_add_done [OF assms(1-6) slot, of P] err i by auto
  have "w_devs (br_put b ?e (dev_upd dev (linked b i) w)) dev = Some (linked b i d)"
    using assms(2) by simp
  from same_devs_dev [OF w' this] obtain d' where d': "w_devs w' dev = Some d'"
    "sans_headroom d' = sans_headroom (linked b i d)" by blast
  have find: "ubr_port_find ?e (Some dev) = int i"
  proof (rule port_find_result [of ?e dev])
    fix j assume "ubr_port_find ?e (Some dev) = int j" "ubr_vec_test (br_busy ?e) j"
      "p_dev (br_ports ?e j) = Some dev"
    then show ?thesis
      using init(3,4) assms(14) [of j] by (cases "j = i") (auto simp: vec_simps)
  next
    assume none: "\<And>j. ubr_vec_test (br_busy ?e) j \<Longrightarrow> p_dev (br_ports ?e j) \<noteq> Some dev"
    then show ?thesis
      using none [of i] init(3,4) assms(8) by (simp add: vec_simps UBR_MAX_PORTS_256)
  qed
  have bits: "\<forall>j < i. ubr_vec_test (br_busy br) j" "\<not> ubr_vec_test (br_busy br) i"
    using find_first_zero_bit_before find_first_zero_bit_found assms(7,8) by auto
  have "w_bridges w' = (w_bridges w)(b := Some ?e)" using w' by (simp add: same_devs_def)
  moreover have "nd_rx_handler_data d' = Some (b, i)" "nd_master d' = Some b" "netif_is_ubr_port d'"
    using linked_sans [OF d'(2)] by simp_all
  ultimately show ?thesis using add init(2,3) find bits d'(1) by blast
qed

theorem port_add_takes_lowest_slot_witness:
  "\<exists>w' br' d'. ubr_port_add plain_kernel all_ok 1 2 sample_world = Inr (0, w') \<and>
    w_bridges w' 1 = Some br' \<and> ubr_port_find br' (Some 2) = 1 \<and>
    w_devs w' 2 = Some d' \<and> nd_rx_handler_data d' = Some (1, 1)"
proof -
  have allowed: "port_add_allowed (plain_dev 0x020000000002) = 0"
    by (rule plain_dev_allowed) (simp add: is_valid_ether_addr_def is_multicast_ether_addr_def)
  have slot: "find_first_zero_bit (br_busy sample_bridge) = 1"
    using sample_bridge_facts(5) by (simp add: free_slot_def)
  have other: "p_dev (br_ports sample_bridge j) \<noteq> Some 2"
    if "ubr_vec_test (br_busy sample_bridge) j" for j
    using that by (simp add: sample_bridge_facts(4) sample_bridge_port)
  show ?thesis
    using port_add_takes_lowest_slot [OF sample_world_simps(3,2,1) sample_bridge_facts(1,2) allowed
        slot _ _ _ _ _ _ other, of all_ok]
    by (auto simp: UBR_MAX_PORTS_256 sample_bridge_facts(3) all_ok_def)
qed

text \<open>
  C24. When one of the calls fails its error is returned and the device is as before, headroom
  apart, and so is the bridge, but for one thing: VLAN 0 keeps the slot as a member.
\<close>

theorem port_add_rolls_back_but_membership:
  assumes "w_bridges w b = Some br" "w_devs w dev = Some d" "w_devs w b = Some bd"
    and "bridge_ok K br" "br_dev br = b" "port_add_allowed d = 0"
    and "find_first_zero_bit (br_busy br) = i" "i < UBR_MAX_PORTS" "Port_Cleanup_Rcu i \<notin> set (br_rcu br)"
    and "first_error P \<noteq> 0" "vlan_of K br 0 = Some a" "br_heap br a = Some v"
  shows "\<exists>w'. ubr_port_add K P b dev w = Inr (first_error P, w') \<and>
    (\<forall>x. map_option sans_headroom (w_devs w' x) = map_option sans_headroom (w_devs w x)) \<and>
    w_bridges w' = (w_bridges w)(b := Some (vlan_write a (add_member i False v) br)) \<and>
    ubr_vec_test (vl_members (add_member i False v)) i \<and> \<not> ubr_vec_test (br_busy br) i"
proof -
  have i: "free_slot br = i" using assms(7) by (simp add: free_slot_def)
  have slot: "free_slot br \<noteq> UBR_MAX_PORTS" "Port_Cleanup_Rcu (free_slot br) \<notin> set (br_rcu br)"
    using i assms(8,9) by auto
  have "leftover K i br = vlan_write a (add_member i False v) br"
    by (simp add: leftover_def assms(11,12))
  moreover have "\<not> ubr_vec_test (br_busy br) i" "i < 256"
    using find_first_zero_bit_found assms(7,8) by (auto simp: UBR_MAX_PORTS_256)
  ultimately show ?thesis
    using port_add_done [OF assms(1-6) slot, of P] assms(10)
    by (auto simp: i same_devs_def add_member_def vec_simps)
qed

theorem port_add_rolls_back_but_membership_witness:
  "\<exists>w' br' v. ubr_port_add plain_kernel (all_ok\<lparr>pa_rx := - EBUSY\<rparr>) 1 2 sample_world =
      Inr (- EBUSY, w') \<and>
    w_bridges w' 1 = Some br' \<and> br_heap br' 100 = Some v \<and>
    ubr_vec_test (vl_members v) 1 \<and> \<not> ubr_vec_test (br_busy br') 1"
proof -
  let ?P = "all_ok\<lparr>pa_rx := - EBUSY\<rparr>"
  have err: "first_error ?P = - EBUSY" by (simp add: first_error_def all_ok_def)
  have allowed: "port_add_allowed (plain_dev 0x020000000002) = 0"
    by (rule plain_dev_allowed) (simp add: is_valid_ether_addr_def is_multicast_ether_addr_def)
  have slot: "find_first_zero_bit (br_busy sample_bridge) = 1"
    using sample_bridge_facts(5) by (simp add: free_slot_def)
  show ?thesis
    using port_add_rolls_back_but_membership [OF sample_world_simps(3,2,1) sample_bridge_facts(1,2)
        allowed slot _ _ _ sample_bridge_vlan, of ?P]
    by (auto simp: UBR_MAX_PORTS_256 sample_bridge_facts(3,4) err)
qed


text \<open>
  C34. Module initialisation gives back what it had acquired before a failing step, except
  that a failing netlink registration leaves the link operations of the module registered.
  Unloading gives everything back.
\<close>

theorem module_init_error_paths:
  assumes "ubr_module_init M module_unloaded = (err, m)"
  shows "(err = 0 \<longrightarrow> m = \<lparr>ms_fdb_cache = True, ms_notifier = True, ms_rtnl_link = True,
      ms_genl_family = True\<rparr> \<and> ubr_module_cleanup m = module_unloaded) \<and>
    (err \<noteq> 0 \<longrightarrow> m = module_unloaded\<lparr>ms_rtnl_link :=
      (me_cache_ok M \<and> me_notifier_err M = 0 \<and> me_rtnl_err M = 0)\<rparr>)"
  using assms
  by (auto simp: ubr_module_init_def ubr_fdb_cache_init_def ubr_fdb_cache_fini_def
      ubr_netlink_init_def ubr_netlink_exit_def ubr_module_cleanup_def module_unloaded_def Let_def
      split: if_splits)

theorem module_init_error_paths_witness:
  "\<exists>m. ubr_module_init \<lparr>me_cache_ok = True, me_notifier_err = 0, me_rtnl_err = 0,
      me_genl_err = - ENOMEM\<rparr> module_unloaded = (- ENOMEM, m) \<and> ms_rtnl_link m \<and> \<not> ms_fdb_cache m"
proof -
  let ?M = "\<lparr>me_cache_ok = True, me_notifier_err = 0, me_rtnl_err = 0, me_genl_err = - ENOMEM\<rparr>"
  obtain m where m: "ubr_module_init ?M module_unloaded = (- ENOMEM, m)"
    by (simp add: ubr_module_init_def ubr_fdb_cache_init_def ubr_netlink_init_def Let_def)
  from module_init_error_paths [OF m] m show ?thesis by (simp add: module_unloaded_def)
qed

section \<open>The forwarding database\<close>

text \<open>
  C27. A flush whose walk meets no error and visits every node removes exactly the nodes that
  satisfy all the conditions of the request, and reports success.
\<close>

theorem flush_removes_exactly_the_matching:
  assumes "\<forall>x \<in> set ws. \<forall>e. x \<noteq> WalkErr e" "\<forall>k. f_nodes fdb k \<noteq> None \<longrightarrow> WalkNode k \<in> set ws"
    and "ubr_fdb_flush j opn ws fdb = (ret, fdb')"
  shows "ret = 0 \<and> (\<forall>k n. f_nodes fdb' k = Some n \<longleftrightarrow> f_nodes fdb k = Some n \<and>
    \<not> ((op_per_port opn \<longrightarrow> ubr_vec_test (n_vec n) (unat (op_pidx opn))) \<and>
       (op_per_vlan opn \<longrightarrow> a_vid (n_addr n) = op_vid opn) \<and>
       (op_per_proto opn \<longrightarrow> n_proto n = op_proto opn \<and>
          (op_proto opn = UBR_FDB_DYNAMIC \<and> op_old opn \<longrightarrow> ubr_fdb_node_is_old j fdb n))))"
proof -
  have "dom (f_nodes fdb) \<subseteq> walked ws" using assms(2) by (auto simp: walked_def)
  then show ?thesis
    using flush_result(1) [OF assms(1), of j opn fdb] flush_complete [OF assms(1), of fdb j opn] assms(3)
    by (auto simp: flush_match_def split: option.splits if_splits)
qed

theorem flush_removes_exactly_the_matching_witness:
  "f_nodes (snd (ubr_fdb_flush 0 (port_flush_op 1) [WalkNode (station_key 7)] (station_fdb 7 1 0)))
     (station_key 7) = None \<and>
   f_nodes (snd (ubr_fdb_flush 0 (port_flush_op 2) [WalkNode (station_key 7)] (station_fdb 7 1 0)))
     (station_key 7) \<noteq> None"
proof -
  have walk: "\<forall>x \<in> set [WalkNode (station_key 7)]. \<forall>e. x \<noteq> WalkErr e"
    "\<forall>k. f_nodes (station_fdb 7 1 0) k \<noteq> None \<longrightarrow> WalkNode k \<in> set [WalkNode (station_key 7)]"
    by (simp_all add: station_fdb_def)
  have node: "f_nodes (station_fdb 7 1 0) (station_key 7) = Some (station_node 7 1 0)"
    by (simp add: station_fdb_def)
  have vec: "ubr_vec_test (n_vec (station_node 7 1 0)) 1" "\<not> ubr_vec_test (n_vec (station_node 7 1 0)) 2"
    by (simp_all add: station_node_def)
  obtain r1 f1 where f1: "ubr_fdb_flush 0 (port_flush_op 1) [WalkNode (station_key 7)] (station_fdb 7 1 0) = (r1, f1)"
    by (rule prod.exhaust)
  obtain r2 f2 where f2: "ubr_fdb_flush 0 (port_flush_op 2) [WalkNode (station_key 7)] (station_fdb 7 1 0) = (r2, f2)"
    by (rule prod.exhaust)
  have "f_nodes f1 (station_key 7) \<noteq> Some n" for n
    using flush_removes_exactly_the_matching [OF walk f1] node vec(1)
    by (auto simp: port_flush_op_def)
  moreover have "f_nodes f2 (station_key 7) = Some (station_node 7 1 0)"
    using flush_removes_exactly_the_matching [OF walk f2] node vec(2)
    by (auto simp: port_flush_op_def)
  ultimately show ?thesis unfolding f1 f2 snd_conv by (metis option.exhaust option.distinct(1))
qed

text \<open>
  C26. Ageing. With a complete walk, and no entry silent for half the clock's range, the work
  removes exactly the dynamic entries not heard for longer than the timeout, also when the
  clock has wrapped around in between, keeps every entry configured by the user, and queues
  itself again after half the timeout.
\<close>

theorem ageing_removes_exactly_the_silent:
  assumes "\<forall>x \<in> set ws. \<forall>e. x \<noteq> WalkErr e" "\<forall>k. f_nodes fdb k \<noteq> None \<longrightarrow> WalkNode k \<in> set ws"
    and "unat (f_ageing_timeout fdb) < 2 ^ 63"
    and "\<forall>k n. f_nodes fdb k = Some n \<longrightarrow> unat (j - n_tstamp n) < 2 ^ 63"
  shows "(\<forall>k n. f_nodes (ubr_fdb_age j ws fdb) k = Some n \<longleftrightarrow> f_nodes fdb k = Some n \<and>
      (n_proto n = UBR_FDB_DYNAMIC \<longrightarrow> unat (j - n_tstamp n) \<le> unat (f_ageing_timeout fdb))) \<and>
    f_age_work (ubr_fdb_age j ws fdb) = Some (j + f_ageing_timeout fdb div 2)"
proof -
  have dom: "dom (f_nodes fdb) \<subseteq> walked ws" using assms(2) by (auto simp: walked_def)
  have old: "ubr_fdb_node_is_old j fdb n \<longleftrightarrow>
      n_proto n = UBR_FDB_DYNAMIC \<and> unat (f_ageing_timeout fdb) < unat (j - n_tstamp n)"
    if "f_nodes fdb k = Some n" for k n
  proof (cases "n_proto n = UBR_FDB_DYNAMIC")
    case True
    with node_old_iff [OF True _ assms(3)] assms(4) that show ?thesis by blast
  qed (simp add: ubr_fdb_node_is_old_def)
  have "f_nodes (ubr_fdb_age j ws fdb) k = Some n \<longleftrightarrow> f_nodes fdb k = Some n \<and>
      \<not> ubr_fdb_node_is_old j fdb n" for k n
    using flush_complete [OF assms(1) dom, of j age_op k]
    by (auto simp: ubr_fdb_age_def Let_def flush_match_age split: option.splits if_splits)
  then show ?thesis using old by (auto simp: ubr_fdb_age_def Let_def not_less)
qed

theorem ageing_removes_exactly_the_silent_witness:
  "f_nodes (ubr_fdb_age 75000 [WalkNode (station_key 7)] (station_fdb 7 1 (- 1))) (station_key 7) = None \<and>
   f_nodes (ubr_fdb_age 75000 [WalkNode (station_key 7)] (station_fdb 7 1 0)) (station_key 7) =
     Some (station_node 7 1 0)"
proof -
  let ?ws = "[WalkNode (station_key 7)]"
  have walk: "\<forall>x \<in> set ?ws. \<forall>e. x \<noteq> WalkErr e"
    "\<forall>k. f_nodes (station_fdb 7 1 t) k \<noteq> None \<longrightarrow> WalkNode k \<in> set ?ws" for t
    by (simp_all add: station_fdb_def)
  have timeout: "unat (f_ageing_timeout (station_fdb 7 1 t)) = 75000" for t
    by (simp add: station_fdb_def sample_fdb_def)
  have node: "f_nodes (station_fdb 7 1 t) k = Some n \<longleftrightarrow> k = station_key 7 \<and> n = station_node 7 1 t"
    "n_tstamp (station_node 7 1 t) = t" "n_proto (station_node 7 1 t) = UBR_FDB_DYNAMIC" for t k n
    by (auto simp: station_fdb_def station_node_def)
  have ago: "unat (75000 - (- 1) :: u64) = 75001" "unat (75000 - 0 :: u64) = 75000" by simp_all
  note age = ageing_removes_exactly_the_silent [OF walk, unfolded timeout, THEN conjunct1, rule_format]
  have "f_nodes (ubr_fdb_age 75000 ?ws (station_fdb 7 1 (- 1))) (station_key 7) \<noteq> Some n" for n
    by (subst age) (simp_all only: node ago, auto simp: ago node simp del: One_nat_def)
  moreover have "f_nodes (ubr_fdb_age 75000 ?ws (station_fdb 7 1 0)) (station_key 7) =
      Some (station_node 7 1 0)"
    by (subst age) (simp_all only: node ago, auto simp: ago node simp del: One_nat_def)
  ultimately show ?thesis by (metis option.exhaust)
qed

text \<open>An entry that is not dynamic is never moved or refreshed, whatever is heard.\<close>

lemma static_entry_is_never_moved:
  assumes "f_nodes fdb k = Some n" "n_proto n \<noteq> UBR_FDB_DYNAMIC"
  shows "f_nodes (fold (\<lambda>(E, v, s). ubr_fdb_learn E v s) frames fdb) k = Some n"
  using assms(1)
proof (induction frames arbitrary: fdb)
  case (Cons x frames)
  obtain E v s where x: "x = (E, v, s)" by (cases x)
  have "f_nodes (ubr_fdb_learn E v s fdb) k = Some n"
    using fdb_learn_cases [of E v s fdb] fdb.learn_other fdb.learn_fixed Cons.prems assms(2)
    by (cases "src_key (vl_vid v) s = k") auto
  with Cons.IH show ?case by (simp add: x)
qed simp

text \<open>
  A station is on the port it was last heard on, and on no other, while only other
  stations, or the same address in other VLANs, are heard after it.
\<close>

theorem station_is_where_last_heard:
  assumes "fdb_ok fdb" "fe_node_alloc E" "fe_insert_err E = 0" "is_valid_ether_addr (skb_h_source s)"
    and "\<forall>n. f_nodes fdb (src_key (vl_vid v) s) = Some n \<longrightarrow> n_proto n = UBR_FDB_DYNAMIC"
    and "\<forall>(E', v', s') \<in> set frames. src_key (vl_vid v') s' \<noteq> src_key (vl_vid v) s"
  shows "\<exists>n. f_nodes (fold (\<lambda>(E, v, s). ubr_fdb_learn E v s) frames (ubr_fdb_learn E v s fdb))
      (src_key (vl_vid v) s) = Some n \<and> n_tstamp n = fe_jiffies E \<and>
    (\<forall>i. ubr_vec_test (n_vec n) i \<longleftrightarrow> i = unat (cb_pidx (skb_cb s)))"
proof -
  have keep: "f_nodes (fold (\<lambda>(E, v, s). ubr_fdb_learn E v s) frames d) (src_key (vl_vid v) s) =
      f_nodes d (src_key (vl_vid v) s)" for d
    using assms(6)
  proof (induction frames arbitrary: d)
    case (Cons x frames)
    obtain E' v' s' where x: "x = (E', v', s')" by (cases x)
    have "f_nodes (ubr_fdb_learn E' v' s' d) (src_key (vl_vid v) s) = f_nodes d (src_key (vl_vid v) s)"
      using fdb_learn_cases [of E' v' s' d] learn_key_other Cons.prems by (auto simp: x)
    with Cons.IH [of "ubr_fdb_learn E' v' s' d"] Cons.prems show ?case by (simp add: x)
  qed simp
  obtain n where "f_nodes (ubr_fdb_learn E v s fdb) (src_key (vl_vid v) s) = Some n"
    "n_tstamp n = fe_jiffies E" "n_vec n = ubr_vec_set (unat (cb_pidx (skb_cb s))) ubr_vec_zero"
    unfolding fdb_learn_eq [OF assms(2-4)]
    by (rule learn_key_exact [OF assms(1) pidx_bound, where k = "src_key (vl_vid v) s"
          and j = "fe_jiffies E"]) (use assms(5) in auto)
  then show ?thesis using keep set_zero_test [of "unat (cb_pidx (skb_cb s))"] by auto
qed

theorem station_is_where_last_heard_witness:
  "\<exists>n. f_nodes (fold (\<lambda>(E, v, s). ubr_fdb_learn E v s)
       [(plain_env 6, sample_vlan 10 [1, 2] [2], sample_frame 7 8)]
       (ubr_fdb_learn (plain_env 5) (sample_vlan 10 [1, 2] [2]) (sample_frame 8 7)
          (station_fdb 7 1 0))) (station_key 7) = Some n \<and> n_tstamp n = 5 \<and>
     \<not> ubr_vec_test (n_vec n) 1 \<and> ubr_vec_test (n_vec n) 0"
proof -
  have key: "src_key (vl_vid (sample_vlan 10 [1, 2] [2])) (sample_frame 8 7) = station_key 7"
    "src_key (vl_vid (sample_vlan 10 [1, 2] [2])) (sample_frame 7 8) \<noteq> station_key 7"
    by (simp_all add: src_key_def station_key_def)
  have "sample_vec [1] = ubr_vec_set 1 ubr_vec_zero" by (simp add: sample_vec_def ubr_vec_zero_def)
  then have "\<exists>i < 256. sample_vec [1] = ubr_vec_set i ubr_vec_zero" by (intro exI [of _ 1]) simp
  then have ok: "fdb_ok (station_fdb 7 1 0)"
    by (simp add: fdb_ok_def station_fdb_def station_node_def)
  have cb: "unat (cb_pidx (skb_cb (sample_frame d s))) = 0" for d s
    by (simp add: sample_frame_def zero_cb_def)
  have old: "\<forall>n. f_nodes (station_fdb 7 1 0) (station_key 7) = Some n \<longrightarrow> n_proto n = UBR_FDB_DYNAMIC"
    by (simp add: station_fdb_def station_node_def)
  have src: "is_valid_ether_addr (skb_h_source (sample_frame 8 7))"
    by (simp add: is_valid_ether_addr_def is_multicast_ether_addr_def)
  have later: "\<forall>(E', v', s') \<in> set [(plain_env 6, sample_vlan 10 [1, 2] [2], sample_frame 7 8)].
      src_key (vl_vid v') s' \<noteq> src_key (vl_vid (sample_vlan 10 [1, 2] [2])) (sample_frame 8 7)"
    using key by simp
  from station_is_where_last_heard [OF ok _ _ src _ later, of "plain_env 5", unfolded key(1) cb] old
  show ?thesis by auto
qed

text \<open>
  C20. Removing a bridge, in any world reached by orderly use. It never faults, although the
  loop walks a bitmap that shrinks under it: every port's device gets its flags, handler and
  counts back and loses its master; each slot's clearing is queued, in order, and only the
  bridge's own slot stays; the ageing work is cancelled and the device is gone. The VLANs are
  not freed.
\<close>

theorem dellink_releases_every_port:
  assumes "helpers_ok K" "\<forall>d nd. devs d = Some nd \<longrightarrow> nd_rx_handler_data nd = None"
    and "runs (wstep K N) (orderly K) (boot devs j) es w" "w_bridges w b = Some br"
  shows "\<exists>w' br'. ubr_dev_dellink walk b w = Inr w' \<and> w_devs w' b = None \<and>
    (\<forall>d. d \<noteq> b \<longrightarrow> w_devs w' d =
       map_option (\<lambda>nd. if \<exists>i. ubr_vec_test (br_busy br) i \<and> i \<noteq> 0 \<and> p_dev (br_ports br i) = Some d
                        then unlinked b nd else nd) (w_devs w d)) \<and>
    w_bridges w' b = Some br' \<and>
    (\<forall>i. ubr_vec_test (br_busy br') i \<longleftrightarrow> i = 0) \<and>
    br_rcu br' = br_rcu br @ map Port_Cleanup_Rcu (filter (\<lambda>i. i \<noteq> 0) (ubr_vec_foreach (br_busy br))) \<and>
    f_age_work (br_fdb br') = None \<and> br_heap br' = br_heap br"
proof -
  have "world_ok K (boot devs j)" by (rule world_ok_boot) (use assms(2) in blast)
  with gs.run_inv [OF assms(3)] assms(1) have w: "world_ok K w" by blast
  note live = world_okD(1) [OF w assms(4)]
  note eq = dev_dellink_eq [OF world_okD(4) [OF w assms(4)] bridge_okD(3) [OF bridge_liveD(1) [OF live]] assms(4)]
  let ?fdb = "ubr_fdb_dellink (w_jiffies w) walk (br_fdb br)"
  let ?br = "(cleared UBR_MAX_PORTS br)\<lparr>br_fdb := ?fdb\<rparr>"
  let ?w = "(br_put b ?br (half_gone b br UBR_MAX_PORTS w))
    \<lparr>w_devs := (w_devs (half_gone b br UBR_MAX_PORTS w))(b := None)\<rparr>"
  have "f_age_work ?fdb = None"
    by (simp add: ubr_fdb_dellink_def)
  moreover have "ubr_dev_dellink walk b w = Inr ?w" by (simp add: eq Let_def)
  ultimately show ?thesis
    using bridge_liveD(4) [OF live]
    by (intro exI [of _ ?w] exI [of _ ?br])
      (auto simp: half_gone_def cleared_def test_fold_clear gone_ports_all)
qed

theorem dellink_releases_every_port_witness:
  "\<exists>w br w'. runs (wstep plain_kernel plain_netlink) (orderly plain_kernel) (boot [2 \<mapsto> plain_dev 0x020000000002] 0)
       [New_Bridge plain_new 1 bridge_dev, Add_Slave all_ok 1 2] w \<and>
     w_bridges w 1 = Some br \<and> ubr_dev_dellink [] 1 w = Inr w' \<and> w_devs w' 1 = None"
proof -
  let ?devs = "[2 \<mapsto> plain_dev 0x020000000002] :: netdev \<Rightarrow> net_device option"
  obtain w bd nd where
    run: "runs (wstep plain_kernel plain_netlink) (orderly plain_kernel) (boot ?devs 0)
       [New_Bridge plain_new 1 bridge_dev, Add_Slave all_ok 1 2] w"
    and br: "w_bridges w 1 = Some joined_bridge"
    by (rule sample_joined)
  have devs: "\<forall>d nd. ?devs d = Some nd \<longrightarrow> nd_rx_handler_data nd = None"
    by (auto simp: plain_dev_def split: if_splits)
  obtain w' where "ubr_dev_dellink [] 1 w = Inr w'" "w_devs w' 1 = None"
    using dellink_releases_every_port [OF plain_kernel_ok(1) devs run br, of "[]"] by blast
  with run br show ?thesis by blast
qed



text \<open>
  C22. The host is a port like any other: what it sends through the bridge device is processed
  exactly as a frame received on port 0, and is never looped back to it.
\<close>

theorem host_frames_are_received_on_port_0:
  assumes "helpers_ok K" "bridge_ok K br" "ubr_vec_test (br_busy br) 0"
  shows "ubr_ndo_start_xmit K E br s =
    andthen (ubr_port_rx_handler K E 0 br (skb_pull s ETH_HLEN)) (\<lambda>(r, br', s', ts). Inr (br', ts))"
proof (cases "ubr_forward K E br (enter_port br 0 (skb_pull s ETH_HLEN))")
  case (Inl e)
  then show ?thesis
    by (simp add: ubr_ndo_start_xmit_def rx_handler_eq [OF assms(2,3)] enter_port_def)
next
  case (Inr x)
  obtain r br' s' ts where x: "x = (r, br', s', ts)" by (cases x)
  have "\<not> cb_ctrl (skb_cb (enter_port br 0 (skb_pull s ETH_HLEN)))"
    using port_cb(3) [OF assms(2,3)] by simp
  from assms(1) this Inr [unfolded x] have "\<not> r" by (rule forward_InrD)
  with Inr show ?thesis
    by (simp add: x ubr_ndo_start_xmit_def rx_handler_eq [OF assms(2,3)] enter_port_def)
qed

theorem host_frames_are_received_on_port_0_witness:
  "ubr_ndo_start_xmit plain_kernel (plain_env 5) sample (sample_frame 0xFFFFFFFFFFFF 0x020000000001) =
    andthen (ubr_port_rx_handler plain_kernel (plain_env 5) 0 sample
        (skb_pull (sample_frame 0xFFFFFFFFFFFF 0x020000000001) ETH_HLEN))
      (\<lambda>(r, br', s', ts). Inr (br', ts))"
proof -
  have "ubr_vec_test (br_busy sample) 0" by simp
  from host_frames_are_received_on_port_0 [OF plain_kernel_ok(1) sample_ok this] show ?thesis .
qed

end
